(* ===== verification/Lucifer_Prelude.thy ===== *)
theory Lucifer_Prelude
  imports Main "HOL-Library.Word" "HOL-Library.Multiset"
begin

text \<open>
  Shared vocabulary of the development: the machine types of the C++ code, the failures that
  end a run of it, the vector operations of the standard library that the code uses, and the
  generic lemmas about them.

  \<^item> \<open>u8\<close> .. \<open>u64\<close> are the unsigned integers of the code at their width. A C++ \<open>int\<close> that
    only carries an unsigned value (the conversions of \<open>playbacklist.cpp\<close>) is the same word.
  \<^item> \<open>'a res\<close> is the result of an operation that may fail: \<open>Inl\<close> for an assertion that does
    not hold, for undefined behaviour, for an uncaught exception and for a loop that does not end, \<open>Inr\<close> for a normal return.
  \<^item> \<open>random_shuffle\<close> is \<open>std::random_shuffle\<close> of the GNU library, the loop that swaps entry
    \<open>i\<close> with entry \<open>rand () % (i + 1)\<close>; the values \<open>rand ()\<close> returns are a stream.
\<close>

type_synonym u8 = "8 word"
type_synonym u16 = "16 word"
type_synonym u32 = "32 word"
type_synonym u64 = "64 word"

named_theorems vec_simps \<open>facts on the vector operations\<close>

lemma unat_of_nat_below:
  "n < 2 ^ LENGTH('a) \<Longrightarrow> unat (of_nat n :: 'a::len word) = n"
  by (simp add: unat_of_nat)

lemma sint_u32_small: "(w :: u32) < 2 ^ 31 \<Longrightarrow> sint w = int (unat w)"
proof -
  assume "w < 2 ^ 31"
  then have u: "uint w < 2 ^ 31" by (simp add: word_less_def)
  have "sint w = signed_take_bit (LENGTH(32) - Suc 0) (uint w)" by (rule sint_uint)
  also have "LENGTH(32) - Suc 0 = (31 :: nat)" by simp
  also have "signed_take_bit 31 (uint w) = uint w"
  proof (rule signed_take_bit_int_eq_self)
    have "0 \<le> uint w" by simp
    then show "- (2 ^ 31) \<le> uint w" by (rule order_trans [rotated]) simp
  qed (rule u)
  finally show ?thesis by (simp only: uint_nat)
qed

section \<open>Failures\<close>

datatype failure =
    Assertion_failed \<comment> \<open>an \<open>assert\<close> of the code does not hold\<close>
  | Undefined_behaviour \<comment> \<open>a read or write outside a vector, a null pointer followed\<close>
  | Diverges \<comment> \<open>a loop of the code never ends\<close>
  | Uncaught_exception \<comment> \<open>the standard library throws and nothing catches it\<close>
  | Out_of_fuel \<comment> \<open>the recursion bound of the model was too small\<close>

type_synonym 'a res = "failure + 'a"

definition rbind :: "'a res \<Rightarrow> ('a \<Rightarrow> 'b res) \<Rightarrow> 'b res" where
  "rbind m f = (case m of Inl e \<Rightarrow> Inl e | Inr x \<Rightarrow> f x)"

lemma rbind_simps [simp]:
  "rbind (Inl e) f = Inl e"
  "rbind (Inr x) f = f x"
  by (simp_all add: rbind_def)

lemma rbind_Inr_iff: "rbind m f = Inr y \<longleftrightarrow> (\<exists>x. m = Inr x \<and> f x = Inr y)"
  by (cases m) simp_all

lemma rbind_Inl_iff: "rbind m f = Inl e \<longleftrightarrow> m = Inl e \<or> (\<exists>x. m = Inr x \<and> f x = Inl e)"
  by (cases m) simp_all

lemma rbind_cong [fundef_cong]:
  "m = m' \<Longrightarrow> (\<And>x. m' = Inr x \<Longrightarrow> f x = g x) \<Longrightarrow> rbind m f = rbind m' g"
  by (cases m') simp_all

text \<open>A loop over a list that stops at the first failure.\<close>

fun rfold :: "('a \<Rightarrow> 's \<Rightarrow> 's res) \<Rightarrow> 'a list \<Rightarrow> 's \<Rightarrow> 's res" where
  "rfold f [] s = Inr s"
| "rfold f (x # xs) s = rbind (f x s) (rfold f xs)"

definition vec_at :: "'a list \<Rightarrow> nat \<Rightarrow> 'a res" where
  "vec_at xs i = (if i < length xs then Inr (xs ! i) else Inl Undefined_behaviour)"

lemma vec_at_Inr_iff [vec_simps]: "vec_at xs i = Inr x \<longleftrightarrow> i < length xs \<and> x = xs ! i"
  by (auto simp: vec_at_def)

lemma vec_at_in [simp]: "i < length xs \<Longrightarrow> vec_at xs i = Inr (xs ! i)"
  by (simp add: vec_at_def)

section \<open>Vectors\<close>

text \<open>\<open>v.erase (v.begin () + i)\<close> and \<open>v.insert (v.begin () + i, x)\<close> for an index in range.\<close>

definition erase_at :: "nat \<Rightarrow> 'a list \<Rightarrow> 'a list" where
  "erase_at i xs = take i xs @ drop (Suc i) xs"

definition insert_at :: "nat \<Rightarrow> 'a \<Rightarrow> 'a list \<Rightarrow> 'a list" where
  "insert_at i x xs = take i xs @ x # drop i xs"

text \<open>The \<open>for\<close> loops that stop at the first entry with a property.\<close>

fun find_index :: "('a \<Rightarrow> bool) \<Rightarrow> 'a list \<Rightarrow> nat option" where
  "find_index P [] = None"
| "find_index P (x # xs) = (if P x then Some 0 else map_option Suc (find_index P xs))"

lemma find_index_None_iff: "find_index P xs = None \<longleftrightarrow> (\<forall>x \<in> set xs. \<not> P x)"
  by (induction xs) auto

lemma find_index_SomeD:
  "find_index P xs = Some i \<Longrightarrow> i < length xs \<and> P (xs ! i) \<and> (\<forall>j < i. \<not> P (xs ! j))"
proof (induction xs arbitrary: i)
  case (Cons x xs)
  then show ?case
    by (cases i) (auto split: if_splits simp: nth_Cons' less_Suc_eq_0_disj)
qed simp

lemma find_index_Some_mem: "find_index P xs = Some i \<Longrightarrow> xs ! i \<in> set xs"
  by (auto dest: find_index_SomeD)

lemma length_erase_at [vec_simps]: "i < length xs \<Longrightarrow> length (erase_at i xs) = length xs - 1"
  by (simp add: erase_at_def)

lemma length_insert_at [vec_simps]: "i \<le> length xs \<Longrightarrow> length (insert_at i x xs) = Suc (length xs)"
  by (simp add: insert_at_def)

lemma set_erase_at_subset: "set (erase_at i xs) \<subseteq> set xs"
  by (auto simp: erase_at_def dest: in_set_takeD in_set_dropD)

lemma set_insert_at [vec_simps]: "set (insert_at i x xs) = insert x (set xs)"
proof -
  have "set xs = set (take i xs) \<union> set (drop i xs)"
    by (metis append_take_drop_id set_append)
  then show ?thesis by (simp add: insert_at_def)
qed

lemma erase_at_0 [simp]: "erase_at 0 xs = tl xs"
  by (simp add: erase_at_def drop_Suc)

lemma hd_erase_at: "0 < i \<Longrightarrow> i < length xs \<Longrightarrow> hd (erase_at i xs) = hd xs"
  by (cases xs; cases i) (auto simp: erase_at_def)

lemma erase_at_distinct: "distinct xs \<Longrightarrow> distinct (erase_at i xs)"
  by (auto simp: erase_at_def set_take_disj_set_drop_if_distinct)

lemma set_erase_at:
  assumes "distinct xs" and "i < length xs"
  shows "set (erase_at i xs) = set xs - {xs ! i}"
proof -
  have xs: "xs = take i xs @ xs ! i # drop (Suc i) xs"
    using assms(2) by (rule id_take_nth_drop)
  have "distinct (take i xs @ xs ! i # drop (Suc i) xs)"
    using assms(1) xs by metis
  moreover have "set xs = insert (xs ! i) (set (take i xs) \<union> set (drop (Suc i) xs))"
    by (subst xs) auto
  ultimately show ?thesis by (auto simp: erase_at_def)
qed

section \<open>The standard library's shuffle\<close>

definition shuffle_step :: "(nat \<Rightarrow> nat) \<Rightarrow> nat \<Rightarrow> 'a list \<Rightarrow> 'a list" where
  "shuffle_step rnd i xs =
     (let j = rnd (i - 1) mod (i + 1) in xs[j := xs ! i, i := xs ! j])"

definition random_shuffle :: "(nat \<Rightarrow> nat) \<Rightarrow> 'a list \<Rightarrow> 'a list" where
  "random_shuffle rnd xs = fold (shuffle_step rnd) [1..<length xs] xs"

definition rand_advance :: "nat \<Rightarrow> (nat \<Rightarrow> nat) \<Rightarrow> (nat \<Rightarrow> nat)" where
  "rand_advance k rnd = (\<lambda>i. rnd (i + k))"

lemma length_shuffle_step [simp]: "length (shuffle_step rnd i xs) = length xs"
  by (simp add: shuffle_step_def Let_def)

lemma mset_shuffle_step: "i < length xs \<Longrightarrow> mset (shuffle_step rnd i xs) = mset xs"
proof -
  assume i: "i < length xs"
  have "rnd (i - 1) mod (i + 1) \<le> i"
    by (metis add.commute less_Suc_eq_le mod_less_divisor plus_1_eq_Suc zero_less_Suc)
  with i have "rnd (i - 1) mod (i + 1) < length xs" by (rule le_less_trans [rotated])
  with i show ?thesis by (simp add: shuffle_step_def Let_def mset_swap)
qed

lemma fold_shuffle_step:
  "(\<forall>i \<in> set is. i < length xs) \<Longrightarrow> mset (fold (shuffle_step rnd) is xs) = mset xs"
proof (induction "is" arbitrary: xs)
  case (Cons i "is")
  then show ?case by (simp add: mset_shuffle_step)
qed simp

lemma mset_random_shuffle [simp]: "mset (random_shuffle rnd xs) = mset xs"
  by (simp add: random_shuffle_def fold_shuffle_step)

lemma set_random_shuffle [simp]: "set (random_shuffle rnd xs) = set xs"
  by (rule mset_eq_setD) simp

lemma length_random_shuffle [simp]: "length (random_shuffle rnd xs) = length xs"
  by (rule mset_eq_length) simp

lemma distinct_random_shuffle [simp]: "distinct (random_shuffle rnd xs) = distinct xs"
  by (simp add: distinct_count_atmost_1)

lemma random_shuffle_Nil_iff [simp]: "random_shuffle rnd xs = [] \<longleftrightarrow> xs = []"
  by (metis length_0_conv length_random_shuffle)

lemma shuffle_step_map:
  "i < length xs \<Longrightarrow> shuffle_step rnd i (map f xs) = map f (shuffle_step rnd i xs)"
proof -
  assume i: "i < length xs"
  have "rnd (i - 1) mod (i + 1) < i + 1" by simp
  then have "rnd (i - 1) mod (i + 1) < length xs" using i by linarith
  then show ?thesis using i by (simp add: shuffle_step_def Let_def map_update)
qed

lemma random_shuffle_map: "random_shuffle rnd (map f xs) = map f (random_shuffle rnd xs)"
proof -
  have "fold (shuffle_step rnd) is (map f xs) = map f (fold (shuffle_step rnd) is xs)"
    if "\<forall>i \<in> set is. i < length xs" for "is" and xs
    using that by (induction "is" arbitrary: xs) (simp_all add: shuffle_step_map)
  then show ?thesis by (simp add: random_shuffle_def)
qed

section \<open>Numbers as text\<close>

text \<open>What \<open>sprintf ("%d")\<close> and \<open>QString::number\<close> print.\<close>

definition digit_char :: "nat \<Rightarrow> char" where
  "digit_char d = char_of (48 + d)"

fun dec_string :: "nat \<Rightarrow> string" where
  "dec_string n = (if n < 10 then [digit_char n] else dec_string (n div 10) @ [digit_char (n mod 10)])"

declare dec_string.simps [simp del]

definition dec_int :: "int \<Rightarrow> string" where
  "dec_int i = (if i < 0 then ''-'' @ dec_string (nat (- i)) else dec_string (nat i))"

text \<open>Reading decimal digits; anything else gives no number.\<close>

definition is_digit :: "char \<Rightarrow> bool" where
  "is_digit c \<longleftrightarrow> 48 \<le> (of_char c :: nat) \<and> (of_char c :: nat) < 58"

definition dec_value :: "string \<Rightarrow> nat option" where
  "dec_value cs = (if cs \<noteq> [] \<and> list_all is_digit cs
     then Some (foldl (\<lambda>n c. 10 * n + (of_char c - 48)) 0 cs) else None)"

lemma of_char_digit: "d < 10 \<Longrightarrow> (of_char (digit_char d) :: nat) = 48 + d"
  by (simp add: digit_char_def)

lemma is_digit_digit_char: "d < 10 \<Longrightarrow> is_digit (digit_char d)"
  by (simp add: is_digit_def of_char_digit)

lemma dec_string_not_Nil [simp]: "dec_string n \<noteq> []"
  by (subst dec_string.simps) simp

lemma dec_string_digits: "list_all is_digit (dec_string n)"
proof (induction n rule: dec_string.induct)
  case (1 n)
  show ?case
    by (subst dec_string.simps) (use 1 in \<open>auto simp: is_digit_digit_char\<close>)
qed

lemma dec_string_value:
  "foldl (\<lambda>n c. 10 * n + (of_char c - 48)) 0 (dec_string n) = (n :: nat)"
proof (induction n rule: dec_string.induct)
  case (1 n)
  show ?case
    by (subst dec_string.simps) (use 1 in \<open>auto simp: of_char_digit\<close>)
qed

lemma dec_value_dec_string [simp]: "dec_value (dec_string n) = Some n"
  by (simp add: dec_value_def dec_string_digits dec_string_value)

section \<open>config.h\<close>

definition MAX_HEADS :: nat where
  "MAX_HEADS = 8"

end
