(* ===== verification/Frame_Model.thy ===== *)
theory Frame_Model
  imports Complex_Main Lucifer_Prelude
begin

text \<open>
  \<open>point.h\<close>, \<open>frame.h\<close>, \<open>frame.cpp\<close> and the \<open>ILDAPoint\<close> of \<open>staticframe.h\<close>: points, frames
  and the operations on them.

  The classes of Qt are not part of the sources. A colour (\<open>QColor\<close>, \<open>'c\<close>), a float (\<open>'f\<close>) and
  a matrix (\<open>QMatrix4x4\<close>, \<open>'m\<close>) are type variables, and the operations of Qt and of the floating
  point unit that the code uses are the fields of the record \<open>qt\<close>, an argument of the definitions
  that use them. Coordinates are rationals: the ones the frame sources produce are 16-bit integers
  divided by 32768, which single precision holds exactly.
\<close>

section \<open>Qt and floating point\<close>

record ('c, 'f, 'm) qt =
  q_rgb :: "int \<Rightarrow> int \<Rightarrow> int \<Rightarrow> 'c" \<comment> \<open>\<open>QColor (r, g, b)\<close> and \<open>setRgb\<close>\<close>
  q_red :: "'c \<Rightarrow> int"
  q_green :: "'c \<Rightarrow> int"
  q_blue :: "'c \<Rightarrow> int"
  q_hueF :: "'c \<Rightarrow> 'f"
  q_saturationF :: "'c \<Rightarrow> 'f"
  q_valueF :: "'c \<Rightarrow> 'f"
  q_setHsvF :: "'f \<Rightarrow> 'f \<Rightarrow> 'f \<Rightarrow> 'c"
  q_identity :: 'm
  q_scale :: "'f \<Rightarrow> 'm \<Rightarrow> 'm" \<comment> \<open>\<open>m.scale (f)\<close>\<close>
  q_map :: "'m \<Rightarrow> rat \<times> rat \<times> rat \<Rightarrow> rat \<times> rat \<times> rat"
  f_add :: "'f \<Rightarrow> 'f \<Rightarrow> 'f"
  f_sub :: "'f \<Rightarrow> 'f \<Rightarrow> 'f"
  f_mul :: "'f \<Rightarrow> 'f \<Rightarrow> 'f"
  f_div_nat :: "'f \<Rightarrow> nat \<Rightarrow> 'f" \<comment> \<open>\<open>f / (float) n\<close>\<close>
  f_inv_mul :: "nat \<Rightarrow> 'f \<Rightarrow> 'f" \<comment> \<open>\<open>(1.0 / n) * f\<close>\<close>
  f_less :: "'f \<Rightarrow> 'f \<Rightarrow> bool"
  f_le :: "'f \<Rightarrow> 'f \<Rightarrow> bool"
  f_nonzero :: "'f \<Rightarrow> bool"
  f_rat :: "rat \<Rightarrow> 'f" \<comment> \<open>the value of a literal or of a conversion\<close>

abbreviation f_zero :: "('c, 'f, 'm) qt \<Rightarrow> 'f" where
  "f_zero q \<equiv> f_rat q 0"

abbreviation f_one :: "('c, 'f, 'm) qt \<Rightarrow> 'f" where
  "f_one q \<equiv> f_rat q 1"

text \<open>
  One instance of these operations, with exact numbers: a colour is its three components, a float
  is a rational and a matrix is a scale factor. The theorems hold for every instance; this one
  shows that their hypotheses can be met.
\<close>

definition exact_qt :: "(int \<times> int \<times> int, rat, rat) qt" where
  "exact_qt = \<lparr>q_rgb = (\<lambda>r g b. (r, g, b)), q_red = fst, q_green = (\<lambda>c. fst (snd c)),
     q_blue = (\<lambda>c. snd (snd c)), q_hueF = (\<lambda>_. 0), q_saturationF = (\<lambda>_. 0),
     q_valueF = (\<lambda>c. of_int (fst c) / 255),
     q_setHsvF = (\<lambda>h s v. (\<lfloor>v * 255\<rfloor>, \<lfloor>v * 255\<rfloor>, \<lfloor>v * 255\<rfloor>)),
     q_identity = 1, q_scale = (*), q_map = (\<lambda>m (x, y, z). (m * x, m * y, m * z)),
     f_add = (+), f_sub = (-), f_mul = (*), f_div_nat = (\<lambda>f n. f / of_nat n),
     f_inv_mul = (\<lambda>n f. 1 / of_nat n * f), f_less = (<), f_le = (\<le>),
     f_nonzero = (\<lambda>f. f \<noteq> 0), f_rat = (\<lambda>r. r)\<rparr>"

section \<open>Points and frames\<close>

record 'c point =
  pt_x :: rat
  pt_y :: rat
  pt_z :: rat
  pt_colour :: 'c
  pt_blanked :: bool

definition Point :: "rat \<Rightarrow> rat \<Rightarrow> rat \<Rightarrow> 'c \<Rightarrow> 'c point" where
  "Point x y z c = \<lparr>pt_x = x, pt_y = y, pt_z = z, pt_colour = c, pt_blanked = True\<rparr>"

record ('c, 'm) frame =
  fr_geometry :: 'm
  fr_points :: "'c point list"

definition Frame :: "('c, 'f, 'm) qt \<Rightarrow> ('c, 'm) frame" where
  "Frame q = \<lparr>fr_geometry = q_identity q, fr_points = []\<rparr>"

definition getPoint :: "nat \<Rightarrow> ('c, 'm) frame \<Rightarrow> 'c point res" where
  "getPoint pos f =
     (if pos < length (fr_points f) then Inr (fr_points f ! pos) else Inl Assertion_failed)"

definition setPoint :: "nat \<Rightarrow> 'c point \<Rightarrow> ('c, 'm) frame \<Rightarrow> ('c, 'm) frame res" where
  "setPoint pos p f =
     (if pos < length (fr_points f) then Inr (f\<lparr>fr_points := (fr_points f)[pos := p]\<rparr>)
      else Inl Assertion_failed)"

definition getPointCount :: "('c, 'm) frame \<Rightarrow> nat" where
  "getPointCount f = length (fr_points f)"

definition clear_frame :: "('c, 'm) frame \<Rightarrow> ('c, 'm) frame" where
  "clear_frame f = f\<lparr>fr_points := []\<rparr>"

definition isEmpty :: "('c, 'm) frame \<Rightarrow> bool" where
  "isEmpty f \<longleftrightarrow> length (fr_points f) = 0"

definition addPoint :: "'c point \<Rightarrow> ('c, 'm) frame \<Rightarrow> ('c, 'm) frame" where
  "addPoint p f = f\<lparr>fr_points := fr_points f @ [p]\<rparr>"

text \<open>\<open>applyGeometry\<close>: the matrix is applied to every point and becomes the identity.\<close>

definition apply_to_point :: "('c, 'f, 'm) qt \<Rightarrow> 'm \<Rightarrow> 'c point \<Rightarrow> 'c point" where
  "apply_to_point q m p =
     (case q_map q m (pt_x p, pt_y p, pt_z p) of
        (x, y, z) \<Rightarrow> (Point x y z (pt_colour p))\<lparr>pt_blanked := pt_blanked p\<rparr>)"

definition applyGeometry :: "('c, 'f, 'm) qt \<Rightarrow> ('c, 'm) frame \<Rightarrow> ('c, 'm) frame" where
  "applyGeometry q f =
     \<lparr>fr_geometry = q_identity q, fr_points = map (apply_to_point q (fr_geometry f)) (fr_points f)\<rparr>"

text \<open>
  \<open>render\<close>: the strokes drawn on the painter. The first point is drawn if it is lit, then a line
  from each point to the next, in the colour of the point it starts from, unless the next point is
  blanked. The screen position of a point is float arithmetic on its coordinates: the argument
  \<open>scr\<close>.
\<close>

datatype 'c stroke = Dot 'c "int \<times> int" | Line 'c "int \<times> int" "int \<times> int"

definition render_dot :: "(rat \<Rightarrow> rat \<Rightarrow> int \<times> int) \<Rightarrow> 'c point \<Rightarrow> 'c stroke list" where
  "render_dot scr p = (if pt_blanked p then [] else [Dot (pt_colour p) (scr (pt_x p) (pt_y p))])"

fun render_lines :: "(rat \<Rightarrow> rat \<Rightarrow> int \<times> int) \<Rightarrow> 'c point list \<Rightarrow> 'c stroke list" where
  "render_lines scr (tp # np # ps) =
     (if pt_blanked np then []
      else [Line (pt_colour tp) (scr (pt_x tp) (pt_y tp)) (scr (pt_x np) (pt_y np))])
     @ render_lines scr (np # ps)"
| "render_lines scr ps = []"

definition render ::
  "('c, 'f, 'm) qt \<Rightarrow> (rat \<Rightarrow> rat \<Rightarrow> int \<times> int) \<Rightarrow> ('c, 'm) frame \<Rightarrow> 'c stroke list" where
  "render q scr f =
     (case fr_points (applyGeometry q f) of
        [] \<Rightarrow> []
      | p # ps \<Rightarrow> render_dot scr p @ render_lines scr (p # ps))"

section \<open>ILDA points\<close>

record ilda_point =
  ip_x :: u16
  ip_y :: u16
  ip_z :: u16
  ip_blanked :: bool
  ip_r :: u8
  ip_g :: u8
  ip_b :: u8

definition ILDAPoint :: ilda_point where
  "ILDAPoint = \<lparr>ip_x = 0, ip_y = 0, ip_z = 0, ip_blanked = True, ip_r = 0, ip_g = 0, ip_b = 0\<rparr>"

text \<open>\<open>point ()\<close>: the shorts are signed; the product with \<open>1.0f/32768.f\<close> is exact.\<close>

definition unit_coord :: "u16 \<Rightarrow> rat" where
  "unit_coord v = of_int (sint v) / 32768"

definition ilda_to_point :: "('c, 'f, 'm) qt \<Rightarrow> ilda_point \<Rightarrow> 'c point" where
  "ilda_to_point q p =
     (Point (unit_coord (ip_x p)) (unit_coord (ip_y p)) (unit_coord (ip_z p))
        (q_rgb q (uint (ip_r p)) (uint (ip_g p)) (uint (ip_b p))))\<lparr>pt_blanked := ip_blanked p\<rparr>"

lemma unit_coord_bounds: "-1 \<le> unit_coord v" "unit_coord v < 1"
proof -
  have l: "- 32768 \<le> sint v" using sint_ge [of v] by simp
  have u: "sint v < 32768" using sint_lt [of v] by simp
  have "(of_int (- 32768) :: rat) \<le> of_int (sint v)" using l by (simp only: of_int_le_iff)
  then show "-1 \<le> unit_coord v" by (simp add: unit_coord_def field_simps)
  have "(of_int (sint v) :: rat) < of_int 32768" using u by (simp only: of_int_less_iff)
  then show "unit_coord v < 1" by (simp add: unit_coord_def field_simps)
qed

lemma length_render_lines:
  "length (render_lines scr (p # ps)) = length (filter (\<lambda>p. \<not> pt_blanked p) ps)"
proof (induction ps arbitrary: p)
  case (Cons np ps)
  then show ?case by (cases "pt_blanked np") simp_all
qed simp

lemma apply_to_point_keeps:
  "pt_blanked (apply_to_point q m p) = pt_blanked p"
  "pt_colour (apply_to_point q m p) = pt_colour p"
  by (simp_all add: apply_to_point_def Point_def split: prod.splits)

section \<open>Properties\<close>

text \<open>
  Rendering draws exactly one stroke for each lit point of the frame and none for a blanked
  one: the geometry matrix neither adds nor drops points nor changes their blanking.
\<close>

theorem render_draws_lit_points:
  "length (render q scr f) = length (filter (\<lambda>p. \<not> pt_blanked p) (fr_points f))"
proof (cases "fr_points f")
  case Nil
  then show ?thesis by (simp add: render_def applyGeometry_def)
next
  case (Cons p ps)
  have "length (filter (\<lambda>p. \<not> pt_blanked p) (map (apply_to_point q m) ps)) =
      length (filter (\<lambda>p. \<not> pt_blanked p) ps)" for m
    by (induction ps) (simp_all add: apply_to_point_keeps)
  with Cons show ?thesis
    by (simp add: render_def applyGeometry_def length_render_lines render_dot_def
        apply_to_point_keeps)
qed

end
