(* ===== verification/Factory_Registry.thy ===== *)
theory Factory_Registry
  imports Lucifer_Prelude "HOL-Library.List_Lexorder" "HOL-Library.Char_ord"
begin

text \<open>
  The two name registries of the program, \<open>framegen\<close> of \<open>framesource_impl.cpp\<close> and
  \<open>drivergen\<close> of \<open>driver.cpp\<close>. Each is a pointer to a \<open>std::map\<close> from a name to a
  generator function, null until the first registration: here an optional list of pairs, sorted
  by name as the map is. The registrations are made by the constructors of static objects, whose
  order over the source files C++ does not fix.

  The locale \<open>factory_registry\<close> is the contract both keep; its client lemmas are about
  registering several generators in any order.
\<close>

type_synonym 'g registry = "(string \<times> 'g) list option"

section \<open>The sorted map\<close>

fun map_insert :: "string \<Rightarrow> 'g \<Rightarrow> (string \<times> 'g) list \<Rightarrow> (string \<times> 'g) list" where
  "map_insert n g [] = [(n, g)]"
| "map_insert n g ((m, h) # r) =
     (if n < m then (n, g) # (m, h) # r
      else if n = m then (n, g) # r
      else (m, h) # map_insert n g r)"

definition sorted_map :: "(string \<times> 'g) list \<Rightarrow> bool" where
  "sorted_map r \<longleftrightarrow> sorted (map fst r) \<and> distinct (map fst r)"

lemma map_of_map_insert: "map_of (map_insert n g r) m = (if m = n then Some g else map_of r m)"
  by (induction r) auto

lemma set_map_insert: "set (map fst (map_insert n g r)) = insert n (set (map fst r))"
  by (induction n g r rule: map_insert.induct) (simp_all add: insert_commute)

lemma sorted_map_insert: "sorted_map r \<Longrightarrow> sorted_map (map_insert n g r)"
proof (induction r)
  case (Cons p r)
  obtain m h where p: "p = (m, h)" by (cases p)
  have s: "sorted_map r" and m: "\<forall>k \<in> set (map fst r). m < k"
    using Cons.prems p by (auto simp: sorted_map_def order_less_le)
  show ?case
  proof (cases "n \<le> m")
    case True
    with m s p show ?thesis by (auto simp: sorted_map_def order_less_le)
  next
    case False
    then have "map_insert n g (p # r) = p # map_insert n g r" by (auto simp: p)
    moreover have "\<forall>k \<in> set (map fst (map_insert n g r)). m < k"
      using m False unfolding set_map_insert by auto
    ultimately show ?thesis
      using Cons.IH [OF s] p by (auto simp: sorted_map_def order_less_le)
  qed
qed (simp add: sorted_map_def)

lemma map_keys: "{n. map_of m n \<noteq> None} = set (map fst m)"
  by (auto simp: map_of_eq_None_iff)

section \<open>Frame sources: framegen\<close>

definition registerFrameGen :: "string \<Rightarrow> 'g \<Rightarrow> 'g registry \<Rightarrow> 'g registry res" where
  "registerFrameGen name generator framegen =
     (let m = (case framegen of None \<Rightarrow> [] | Some m \<Rightarrow> m) in
      if map_of m name \<noteq> None then Inl Assertion_failed
      else Inr (Some (map_insert name generator m)))"

text \<open>\<open>newSource\<close> up to the call of the generator: null for an unknown name.\<close>

definition find_frame_gen :: "string \<Rightarrow> 'g registry \<Rightarrow> 'g option" where
  "find_frame_gen name framegen =
     (case framegen of None \<Rightarrow> None | Some m \<Rightarrow> map_of m name)"

definition enemerateFrameGenTypes :: "'g registry \<Rightarrow> string list" where
  "enemerateFrameGenTypes framegen = (case framegen of None \<Rightarrow> [] | Some m \<Rightarrow> map fst m)"

definition frame_gen_exists :: "string \<Rightarrow> 'g registry \<Rightarrow> bool" where
  "frame_gen_exists s framegen =
     (case framegen of None \<Rightarrow> False | Some m \<Rightarrow> map_of m s \<noteq> None)"

section \<open>Drivers: drivergen\<close>

definition registerDriverFactory :: "string \<Rightarrow> 'g \<Rightarrow> 'g registry \<Rightarrow> 'g registry res" where
  "registerDriverFactory name generator drivergen =
     (let m = (case drivergen of None \<Rightarrow> [] | Some m \<Rightarrow> m) in
      if map_of m name \<noteq> None then Inl Assertion_failed
      else Inr (Some (map_insert name generator m)))"

definition newDriver :: "string \<Rightarrow> 'g registry \<Rightarrow> 'g option res" where
  "newDriver name drivergen =
     (case drivergen of None \<Rightarrow> Inl Assertion_failed | Some m \<Rightarrow> Inr (map_of m name))"

definition enemerateDrivers :: "'g registry \<Rightarrow> string list" where
  "enemerateDrivers drivergen = (case drivergen of None \<Rightarrow> [] | Some m \<Rightarrow> map fst m)"

definition driver_exists :: "string \<Rightarrow> 'g registry \<Rightarrow> bool res" where
  "driver_exists s drivergen =
     (case drivergen of None \<Rightarrow> Inl Assertion_failed | Some m \<Rightarrow> Inr (map_of m s \<noteq> None))"

definition find_driver :: "string \<Rightarrow> 'g registry \<Rightarrow> 'g option" where
  "find_driver name r = (case newDriver name r of Inl _ \<Rightarrow> None | Inr g \<Rightarrow> g)"

section \<open>The contract\<close>


text \<open>The registrations of the static constructors, one after the other.\<close>

fun register_all :: "(string \<Rightarrow> 'g \<Rightarrow> 'r \<Rightarrow> 'r res) \<Rightarrow> (string \<times> 'g) list \<Rightarrow> 'r \<Rightarrow> 'r res" where
  "register_all reg [] r = Inr r"
| "register_all reg ((n, g) # gs) r = rbind (reg n g r) (register_all reg gs)"

definition registry_inv :: "'g registry \<Rightarrow> bool" where
  "registry_inv r = (case r of None \<Rightarrow> True | Some m \<Rightarrow> sorted_map m)"

locale factory_registry =
  fixes register :: "string \<Rightarrow> 'g \<Rightarrow> 'r \<Rightarrow> 'r res"
    and look :: "string \<Rightarrow> 'r \<Rightarrow> 'g option"
    and names :: "'r \<Rightarrow> string list"
    and inv :: "'r \<Rightarrow> bool"
    and empty :: "'r"
  assumes inv_empty: "inv empty"
    and look_empty: "look n empty = None"
    and register_fresh: "inv r \<Longrightarrow> look n r = None \<Longrightarrow> \<exists>r'. register n g r = Inr r'"
    and register_twice: "inv r \<Longrightarrow> look n r \<noteq> None \<Longrightarrow> register n g r = Inl Assertion_failed"
    and register_inv: "inv r \<Longrightarrow> register n g r = Inr r' \<Longrightarrow> inv r'"
    and look_register: "inv r \<Longrightarrow> register n g r = Inr r' \<Longrightarrow>
      look m r' = (if m = n then Some g else look m r)"
    and names_sorted: "inv r \<Longrightarrow> sorted (names r) \<and> distinct (names r)"
    and names_look: "inv r \<Longrightarrow> set (names r) = {n. look n r \<noteq> None}"
begin

lemma register_all_ok:
  "inv r \<Longrightarrow> distinct (map fst gs) \<Longrightarrow> \<forall>n \<in> set (map fst gs). look n r = None \<Longrightarrow>
   \<exists>r'. register_all register gs r = Inr r' \<and> inv r' \<and>
     (\<forall>m. look m r' = (case map_of gs m of Some g \<Rightarrow> Some g | None \<Rightarrow> look m r))"
proof (induction gs arbitrary: r)
  case (Cons p gs)
  obtain n g where p: "p = (n, g)" by (cases p)
  have "look n r = None" using Cons.prems(3) p by simp
  then obtain r1 where r1: "register n g r = Inr r1"
    using register_fresh [OF Cons.prems(1)] by blast
  have i: "inv r1" by (rule register_inv [OF Cons.prems(1) r1])
  have lk: "look m r1 = (if m = n then Some g else look m r)" for m
    by (rule look_register [OF Cons.prems(1) r1])
  have "\<forall>k \<in> set (map fst gs). look k r1 = None"
    using Cons.prems(2,3) p by (auto simp: lk)
  then obtain r' where "register_all register gs r1 = Inr r'" "inv r'"
    "\<forall>m. look m r' = (case map_of gs m of Some g \<Rightarrow> Some g | None \<Rightarrow> look m r1)"
    using Cons.IH [OF i] Cons.prems(2) p by auto
  moreover have "map_of gs n = None"
    using Cons.prems(2) p by (simp add: map_of_eq_None_iff)
  ultimately show ?case using r1 p by (auto simp: lk split: option.splits)
qed simp

lemma look_default:
  "(case map_of gs m of None \<Rightarrow> look m empty | Some x \<Rightarrow> Some x) = map_of gs m"
  by (cases "map_of gs m") (simp_all add: look_empty)

lemma names_unique:
  assumes "inv r" and "inv r'" and "\<And>n. look n r = look n r'"
  shows "names r = names r'"
  using names_sorted [OF assms(1)] names_sorted [OF assms(2)]
    names_look [OF assms(1)] names_look [OF assms(2)] assms(3)
  by (intro sorted_distinct_set_unique) auto

lemma register_all_any_order:
  assumes "distinct (map fst gs)" and "mset gs' = mset gs"
    and "register_all register gs empty = Inr r"
  shows "\<exists>r'. register_all register gs' empty = Inr r' \<and> names r' = names r \<and>
              (\<forall>n. look n r' = look n r)"
proof -
  have d': "distinct (map fst gs')"
    using assms(1,2) by (metis mset_eq_imp_distinct_iff mset_map)
  obtain r1 where r1: "register_all register gs empty = Inr r1" "inv r1"
    "\<forall>m. look m r1 = map_of gs m"
    using register_all_ok [OF inv_empty assms(1)]
    by (auto simp: look_empty look_default)
  obtain r2 where r2: "register_all register gs' empty = Inr r2" "inv r2"
    "\<forall>m. look m r2 = map_of gs' m"
    using register_all_ok [OF inv_empty d']
    by (auto simp: look_empty look_default)
  have "map_of gs' = map_of gs"
    using assms(1,2) d' by (intro map_of_eqI) (auto dest: mset_eq_setD simp: map_of_is_SomeI)
  with r1 r2 assms(3) show ?thesis by (auto intro: names_unique)
qed

end

lemma registry_names:
  "registry_inv r \<Longrightarrow> sorted (enemerateFrameGenTypes r) \<and> distinct (enemerateFrameGenTypes r)"
  "set (enemerateFrameGenTypes r) = {n. find_frame_gen n r \<noteq> None}"
  unfolding registry_inv_def enemerateFrameGenTypes_def find_frame_gen_def sorted_map_def
  by (cases r; simp) (cases r; simp only: option.case map_keys; simp)

lemma enemerateDrivers_eq: "enemerateDrivers = enemerateFrameGenTypes"
  by (simp add: fun_eq_iff enemerateDrivers_def enemerateFrameGenTypes_def)

lemma find_driver_eq: "find_driver = find_frame_gen"
  by (simp add: fun_eq_iff find_driver_def newDriver_def find_frame_gen_def split: option.splits)

lemma registerDriverFactory_eq: "registerDriverFactory = registerFrameGen"
  by (simp add: fun_eq_iff registerDriverFactory_def registerFrameGen_def)

interpretation frame_registry: factory_registry
  registerFrameGen find_frame_gen enemerateFrameGenTypes registry_inv None
  by unfold_locales
     (auto simp: registry_names registry_inv_def registerFrameGen_def find_frame_gen_def
        sorted_map_insert map_of_map_insert Let_def sorted_map_def [of "[_]"]
      split: option.splits if_splits)

interpretation driver_registry: factory_registry
  registerDriverFactory find_driver enemerateDrivers registry_inv None
  unfolding enemerateDrivers_eq find_driver_eq registerDriverFactory_eq
  by (rule frame_registry.factory_registry_axioms)

end
