(* ===== verification/Frame_Source.thy ===== *)
theory Frame_Source
  imports Frame_Model Factory_Registry
begin

text \<open>
  The trees of frame sources and their playbacks: \<open>framesource_impl.h\<close>,
  \<open>framesource_impl.cpp\<close>, \<open>framesource.h\<close>, \<open>staticframe.*\<close>, \<open>framesequencer.*\<close> and
  \<open>colourrotator.*\<close>.

  A frame source is a node with its own data and a list of children; a static frame, a sequencer
  and a colour rotator are the three classes of nodes. A source is shared by its playbacks; each
  playback is a tree of the same form that holds the position of one run through the source.
  \<open>nextFrame\<close> changes the playback and, in a sequencer whose mode was edited, the source.
  The children of a source are shared pointers, but the program only ever adds fresh children
  (clones, or the result of a load), so a source is a tree and is modelled by its value.

  A null child playback, or one of the wrong class, fails the assertion every method of a source
  starts with. One reading of the clock (milliseconds since midnight, the argument \<open>now\<close>)
  serves a whole call. The definitions that play a tree recurse on the height of the tree as
  fuel.
\<close>

section \<open>Nodes\<close>

datatype seq_mode = Sequential | Random | Pingpong
  | Other_mode u32 \<comment> \<open>any other number a file casts to the enumeration\<close>

record ('f, 'm) static_frame =
  sf_data :: "ilda_point list"
  sf_repeats :: u32
  sf_dewell :: u32
  sf_useDewell :: bool
  sf_scale :: 'f
  sf_geometry :: 'm

record sequencer =
  sq_mode :: seq_mode
  sq_newMode :: seq_mode
  sq_repeats :: u32

record ('c, 'f) rotator =
  pulse_colour :: 'c
  pulse_dutycycle :: 'f
  pulse_harmonic :: 'f
  pulse_phase_advance :: 'f
  rotate_h :: bool
  rotate_s :: bool
  rotate_v :: bool
  rotate_harmonic :: 'f
  rotate_phase_advance :: 'f
  colour_override :: bool
  override_colour :: 'c

datatype ('c, 'f, 'm) node =
    Static "('f, 'm) static_frame"
  | Sequencer sequencer
  | Rotator "('c, 'f) rotator"

datatype ('c, 'f, 'm) fsource =
  Source (src_node: "('c, 'f, 'm) node") (getDescription: string)
    (src_children: "('c, 'f, 'm) fsource list")

datatype possible_children = NONE | ONE | TWO | MANY

definition StaticFrame :: "('c, 'f, 'm) qt \<Rightarrow> ('c, 'f, 'm) fsource" where
  "StaticFrame q =
     Source (Static \<lparr>sf_data = [], sf_repeats = 1, sf_dewell = 100, sf_useDewell = False,
        sf_scale = f_rat q 1, sf_geometry = q_identity q\<rparr>) ''A single frame'' []"

definition FrameSequencer :: "('c, 'f, 'm) fsource" where
  "FrameSequencer =
     Source (Sequencer \<lparr>sq_mode = Sequential, sq_newMode = Sequential, sq_repeats = 0\<rparr>)
       ''A step sequencer for other frame sources'' []"

definition ColourRotator :: "('c, 'f, 'm) qt \<Rightarrow> ('c, 'f, 'm) fsource" where
  "ColourRotator q =
     Source (Rotator \<lparr>pulse_colour = q_rgb q 255 255 0, pulse_dutycycle = f_rat q (5/100),
        pulse_harmonic = f_rat q 5, pulse_phase_advance = f_rat q (1/10),
        rotate_h = False, rotate_s = False, rotate_v = False,
        rotate_harmonic = f_rat q 0, rotate_phase_advance = f_rat q (5/100),
        colour_override = False, override_colour = q_rgb q 0 255 255\<rparr>)
       ''Colour modulation effect'' []"

text \<open>The name each class passes to its base class and to the registry.\<close>

definition getName :: "('c, 'f, 'm) fsource \<Rightarrow> string" where
  "getName s = (case src_node s of Static _ \<Rightarrow> ''Static_frame''
     | Sequencer _ \<Rightarrow> ''Frame_sequence'' | Rotator _ \<Rightarrow> ''Colour_rotator'')"

definition numPossibleChildren :: "('c, 'f, 'm) fsource \<Rightarrow> possible_children" where
  "numPossibleChildren s = (case src_node s of Static _ \<Rightarrow> NONE
     | Sequencer _ \<Rightarrow> MANY | Rotator _ \<Rightarrow> ONE)"

text \<open>The generators of the static constructors \<open>sfg\<close>, \<open>fsr\<close> and \<open>crg\<close>.\<close>

definition frame_generators :: "('c, 'f, 'm) qt \<Rightarrow> (string \<times> ('c, 'f, 'm) fsource) list" where
  "frame_generators q = [(''Static_frame'', StaticFrame q), (''Frame_sequence'', FrameSequencer),
     (''Colour_rotator'', ColourRotator q)]"

section \<open>Children, descriptions, cloning\<close>

definition numChildren :: "('c, 'f, 'm) fsource \<Rightarrow> u32" where
  "numChildren s = of_nat (length (src_children s))"

definition src_child :: "u32 \<Rightarrow> ('c, 'f, 'm) fsource \<Rightarrow> ('c, 'f, 'm) fsource res" where
  "src_child pos s =
     (if unat pos < length (src_children s) then Inr (src_children s ! unat pos)
      else Inl Assertion_failed)"

definition setDescription :: "string \<Rightarrow> ('c, 'f, 'm) fsource \<Rightarrow> ('c, 'f, 'm) fsource" where
  "setDescription des s = Source (src_node s) des (src_children s)"

text \<open>\<open>addChild\<close>: null children fail the assertion; the result tells whether the child was added.\<close>

definition addChild :: "('c, 'f, 'm) fsource option \<Rightarrow> int \<Rightarrow> ('c, 'f, 'm) fsource \<Rightarrow>
    (bool \<times> ('c, 'f, 'm) fsource) res" where
  "addChild child pos s =
     (case child of None \<Rightarrow> Inl Assertion_failed | Some c \<Rightarrow>
       (let n = src_node s; d = getDescription s; cs = src_children s in
        if numPossibleChildren s = MANY \<or>
           numPossibleChildren s = ONE \<and> length cs = 0 \<or>
           numPossibleChildren s = TWO \<and> length cs < 2
        then
          if pos < 0 then Inr (True, Source n d (cs @ [c]))
          else if int (length cs) < pos then Inr (False, s)
          else if length cs = 0 then Inr (True, Source n d (cs @ [c]))
          else Inr (True, Source n d (insert_at (nat pos) c cs))
        else Inr (False, s)))"

definition deleteChild :: "u32 \<Rightarrow> ('c, 'f, 'm) fsource \<Rightarrow> (bool \<times> ('c, 'f, 'm) fsource) res" where
  "deleteChild pos s =
     (if unat pos < length (src_children s)
      then Inr (True, Source (src_node s) (getDescription s) (erase_at (unat pos) (src_children s)))
      else Inl Assertion_failed)"

text \<open>
  \<open>copyDataTo\<close> of the three classes. The target was made by the generator registered under
  the name of the source; a target of another class fails the assertion. The sequencer copies
  neither \<open>newMode\<close> nor its description, and the rotator assigns the target's
  \<open>colour_override\<close> to itself.
\<close>

definition static_copyDataTo :: "('f, 'm) static_frame \<Rightarrow> string \<Rightarrow> ('c, 'f, 'm) fsource \<Rightarrow>
    ('c, 'f, 'm) fsource res" where
  "static_copyDataTo f des p = (case src_node p of
     Static sf \<Rightarrow> Inr (setDescription des
       (Source (Static (sf\<lparr>sf_useDewell := sf_useDewell f, sf_dewell := sf_dewell f,
           sf_repeats := sf_repeats f, sf_scale := sf_scale f, sf_data := sf_data f,
           sf_geometry := sf_geometry f\<rparr>))
         (getDescription p) (src_children p)))
   | _ \<Rightarrow> Inl Assertion_failed)"

definition sequencer_copyDataTo :: "sequencer \<Rightarrow> ('c, 'f, 'm) fsource \<Rightarrow> ('c, 'f, 'm) fsource res" where
  "sequencer_copyDataTo f p = (case src_node p of
     Sequencer fp \<Rightarrow> Inr (Source (Sequencer (fp\<lparr>sq_mode := sq_mode f, sq_repeats := sq_repeats f\<rparr>))
       (getDescription p) (src_children p))
   | _ \<Rightarrow> Inl Assertion_failed)"

definition rotator_copyDataTo :: "('c, 'f) rotator \<Rightarrow> ('c, 'f, 'm) fsource \<Rightarrow> ('c, 'f, 'm) fsource res" where
  "rotator_copyDataTo f p = (case src_node p of
     Rotator pt \<Rightarrow> Inr (Source (Rotator (pt\<lparr>pulse_colour := pulse_colour f,
         pulse_dutycycle := pulse_dutycycle f, pulse_harmonic := pulse_harmonic f,
         pulse_phase_advance := pulse_phase_advance f, rotate_h := rotate_h f,
         rotate_s := rotate_s f, rotate_v := rotate_v f, rotate_harmonic := rotate_harmonic f,
         rotate_phase_advance := rotate_phase_advance f,
         colour_override := colour_override pt, override_colour := override_colour f\<rparr>))
       (getDescription p) (src_children p))
   | _ \<Rightarrow> Inl Assertion_failed)"

text \<open>The virtual function.\<close>

definition copyDataTo :: "('c, 'f, 'm) fsource \<Rightarrow> ('c, 'f, 'm) fsource \<Rightarrow>
    ('c, 'f, 'm) fsource res" where
  "copyDataTo s p = (case src_node s of
     Static f \<Rightarrow> static_copyDataTo f (getDescription s) p
   | Sequencer f \<Rightarrow> sequencer_copyDataTo f p
   | Rotator f \<Rightarrow> rotator_copyDataTo f p)"

lemmas copyDataTo_defs = copyDataTo_def static_copyDataTo_def sequencer_copyDataTo_def rotator_copyDataTo_def
  setDescription_def

fun clone :: "('c, 'f, 'm) fsource registry \<Rightarrow> ('c, 'f, 'm) fsource \<Rightarrow> ('c, 'f, 'm) fsource res"
  and clone_children :: "('c, 'f, 'm) fsource registry \<Rightarrow> ('c, 'f, 'm) fsource list \<Rightarrow>
    ('c, 'f, 'm) fsource \<Rightarrow> ('c, 'f, 'm) fsource res" where
  "clone reg (Source n d cs) =
     (case find_frame_gen (getName (Source n d cs)) reg of
        None \<Rightarrow> Inl Assertion_failed
      | Some fs \<Rightarrow> rbind (copyDataTo (Source n d cs) fs) (clone_children reg cs))"
| "clone_children reg [] fs = Inr fs"
| "clone_children reg (c # cs) fs =
     rbind (clone reg c) (\<lambda>c'. rbind (addChild (Some c') (- 1) fs) (\<lambda>(_, fs').
       clone_children reg cs fs'))"

section \<open>Playbacks\<close>

record static_pb =
  spb_active :: bool
  spb_dewellStart :: "nat option" \<comment> \<open>a \<open>QTime\<close>, null until it is started\<close>
  spb_repeatsDone :: u32

record seq_pb =
  qpb_pos :: u32
  qpb_repeats_done :: u32
  qpb_index_tbl :: "u32 list"

record 'f rot_pb =
  pulser_start_phase :: 'f
  rotator_start_phase :: 'f

datatype 'f pb_node = Static_pb static_pb | Sequencer_pb seq_pb | Rotator_pb "'f rot_pb"

datatype 'f playback = Pb (pb_node: "'f pb_node") (pb_children: "'f playback list")

text \<open>What the constructors of the three classes of playbacks set.\<close>

definition StaticFramePlayback :: static_pb where
  "StaticFramePlayback = \<lparr>spb_active = True, spb_dewellStart = None, spb_repeatsDone = 0\<rparr>"

definition FrameSequencerPlayback :: seq_pb where
  "FrameSequencerPlayback = \<lparr>qpb_pos = 0, qpb_repeats_done = 0, qpb_index_tbl = []\<rparr>"

definition ColourRotatorPlayback :: "('c, 'f, 'm) qt \<Rightarrow> 'f rot_pb" where
  "ColourRotatorPlayback q = \<lparr>pulser_start_phase = f_rat q 0, rotator_start_phase = f_rat q 0\<rparr>"

definition newPlayback :: "('c, 'f, 'm) qt \<Rightarrow> ('c, 'f, 'm) node \<Rightarrow> 'f playback" where
  "newPlayback q n = (case n of
     Static _ \<Rightarrow> Pb (Static_pb StaticFramePlayback) []
   | Sequencer _ \<Rightarrow> Pb (Sequencer_pb FrameSequencerPlayback) []
   | Rotator _ \<Rightarrow> Pb (Rotator_pb (ColourRotatorPlayback q)) [])"

lemmas newPlayback_defs = newPlayback_def StaticFramePlayback_def FrameSequencerPlayback_def
  ColourRotatorPlayback_def

definition pb_addChild :: "'f playback \<Rightarrow> int \<Rightarrow> 'f playback \<Rightarrow> bool \<times> 'f playback" where
  "pb_addChild c pos p =
     (let cs = pb_children p in
      if pos < 0 then (True, Pb (pb_node p) (cs @ [c]))
      else if pos < int (length cs) then (True, Pb (pb_node p) (insert_at (nat pos) c cs))
      else if int (length cs) = pos then (True, Pb (pb_node p) (cs @ [c]))
      else (False, p))"

definition pb_child :: "u32 \<Rightarrow> 'f playback list \<Rightarrow> 'f playback option" where
  "pb_child pos cps = (if unat pos < length cps then Some (cps ! unat pos) else None)"

fun createPlayback :: "('c, 'f, 'm) qt \<Rightarrow> ('c, 'f, 'm) fsource \<Rightarrow> 'f playback" where
  "createPlayback q (Source n d cs) =
     foldl (\<lambda>p c. snd (pb_addChild (createPlayback q c) (- 1) p)) (newPlayback q n) cs"

section \<open>Static frames\<close>

text \<open>\<open>QTime::elapsed\<close>: zero for a null time, and a day is added when midnight has passed.\<close>

definition day_ms :: nat where
  "day_ms = 86400000"

definition elapsed :: "nat \<Rightarrow> nat option \<Rightarrow> int" where
  "elapsed now t = (case t of None \<Rightarrow> 0 | Some t0 \<Rightarrow>
     (if now < t0 then int now - int t0 + int day_ms else int now - int t0))"

definition static_image :: "('c, 'f, 'm) qt \<Rightarrow> ('f, 'm) static_frame \<Rightarrow> ('c, 'm) frame" where
  "static_image q sf =
     foldl (\<lambda>p d. addPoint (ilda_to_point q d) p)
       ((Frame q)\<lparr>fr_geometry := q_scale q (sf_scale sf) (sf_geometry sf)\<rparr>) (sf_data sf)"

definition static_reset :: "nat \<Rightarrow> static_pb \<Rightarrow> static_pb" where
  "static_reset now sp =
     sp\<lparr>spb_active := True, spb_repeatsDone := 0, spb_dewellStart := Some now\<rparr>"

definition static_tick :: "nat \<Rightarrow> ('f, 'm) static_frame \<Rightarrow> static_pb \<Rightarrow> static_pb" where
  "static_tick now sf sp =
     (if sf_useDewell sf then
        (if elapsed now (spb_dewellStart sp) > sint (sf_dewell sf)
         then sp\<lparr>spb_dewellStart := Some now, spb_active := False\<rparr> else sp)
      else
        (let sp' = sp\<lparr>spb_repeatsDone := spb_repeatsDone sp + 1\<rparr> in
         if spb_repeatsDone sp \<ge> sf_repeats sf then sp'\<lparr>spb_active := False\<rparr> else sp'))"

definition static_next :: "('c, 'f, 'm) qt \<Rightarrow> nat \<Rightarrow> ('f, 'm) static_frame \<Rightarrow> static_pb \<Rightarrow>
    ('c, 'm) frame option \<times> static_pb" where
  "static_next q now sf sp =
     (let sp' = static_tick now sf sp in
      if spb_active sp' then (Some (static_image q sf), sp')
      else (None, sp'\<lparr>spb_active := True, spb_repeatsDone := 0\<rparr>))"

section \<open>The index table of a sequencer\<close>

text \<open>
  The loop of \<open>reset_index\<close> over the values of \<open>i\<close>: \<open>k\<close> is a signed integer, pushed as an
  unsigned one. Past the largest \<open>int\<close> its increment is undefined.
\<close>

fun fill_index :: "u32 \<Rightarrow> nat list \<Rightarrow> int \<Rightarrow> int \<Rightarrow> u32 list \<Rightarrow> u32 list res" where
  "fill_index n [] incr k tbl = Inr tbl"
| "fill_index n (i # is) incr k tbl =
     (let incr' = (if of_nat i \<ge> n - 1 then - 1 else incr);
          tbl' = tbl @ [word_of_int k];
          k' = k + incr'
      in if k' > 2147483647 then Inl Undefined_behaviour
         else if k' \<ge> -1 then fill_index n is incr' k' tbl'
         else Inl Assertion_failed)"

definition table_size :: "u32 \<Rightarrow> seq_mode \<Rightarrow> u32" where
  "table_size n mode = (if mode = Pingpong then n * 2 - 1 else n)"

definition reset_index :: "u32 \<Rightarrow> seq_mode \<Rightarrow> (nat \<Rightarrow> nat) \<Rightarrow> seq_pb \<Rightarrow>
    (seq_pb \<times> (nat \<Rightarrow> nat)) res" where
  "reset_index n mode rnd sp =
     rbind (fill_index n [0..<unat (table_size n mode)] 1 0 []) (\<lambda>tbl.
       if mode = Random
       then Inr (sp\<lparr>qpb_index_tbl := random_shuffle rnd tbl\<rparr>, rand_advance (length tbl - 1) rnd)
       else Inr (sp\<lparr>qpb_index_tbl := tbl\<rparr>, rnd))"

definition seq_index :: "u32 \<Rightarrow> seq_mode \<Rightarrow> (nat \<Rightarrow> nat) \<Rightarrow> seq_pb \<Rightarrow>
    (u32 \<times> seq_pb \<times> (nat \<Rightarrow> nat)) res" where
  "seq_index n mode rnd sp =
     rbind (if unat (table_size n mode) \<noteq> length (qpb_index_tbl sp) then reset_index n mode rnd sp
            else Inr (sp, rnd)) (\<lambda>(sp', rnd').
     if length (qpb_index_tbl sp') \<noteq> unat (table_size n mode) then Inl Assertion_failed
     else rbind (vec_at (qpb_index_tbl sp') (unat (qpb_pos sp'))) (\<lambda>pp.
       if pp < n then Inr (pp, sp', rnd') else Inl Assertion_failed))"

definition seq_reset :: "u32 \<Rightarrow> seq_mode \<Rightarrow> (nat \<Rightarrow> nat) \<Rightarrow> seq_pb \<Rightarrow>
    (seq_pb \<times> (nat \<Rightarrow> nat)) res" where
  "seq_reset n mode rnd sp = reset_index n mode rnd (sp\<lparr>qpb_pos := 0, qpb_repeats_done := 0\<rparr>)"

section \<open>Reset\<close>

text \<open>
  \<open>reset\<close> of the three classes on a playback that is not null. A sequencer resets its own
  position and table, not its children; a rotator resets its child, if it has exactly one.
\<close>

fun reset_source :: "('c, 'f, 'm) qt \<Rightarrow> nat \<Rightarrow> ('c, 'f, 'm) fsource \<Rightarrow> 'f playback \<Rightarrow> (nat \<Rightarrow> nat) \<Rightarrow>
    ('f playback \<times> (nat \<Rightarrow> nat)) res" where
  "reset_source q now (Source (Static sf) d cs) (Pb (Static_pb sp) cps) rnd =
     Inr (Pb (Static_pb (static_reset now sp)) cps, rnd)"
| "reset_source q now (Source (Sequencer sq) d cs) (Pb (Sequencer_pb sp) cps) rnd =
     rbind (seq_reset (of_nat (length cs)) (sq_mode sq) rnd sp) (\<lambda>(sp', rnd').
       Inr (Pb (Sequencer_pb sp') cps, rnd'))"
| "reset_source q now (Source (Rotator r) d [c]) (Pb (Rotator_pb p) cps) rnd =
     (let p' = p\<lparr>pulser_start_phase := f_rat q 0, rotator_start_phase := f_rat q 0\<rparr> in
      case cps of [] \<Rightarrow> Inl Assertion_failed
      | cp # cps' \<Rightarrow> rbind (reset_source q now c cp rnd) (\<lambda>(cp', rnd').
          Inr (Pb (Rotator_pb p') (cp' # cps'), rnd')))"
| "reset_source q now (Source (Rotator r) d cs) (Pb (Rotator_pb p) cps) rnd =
     Inr (Pb (Rotator_pb (p\<lparr>pulser_start_phase := f_rat q 0, rotator_start_phase := f_rat q 0\<rparr>)) cps,
       rnd)"
| "reset_source q now s p rnd = Inl Assertion_failed"

section \<open>Playing a sequencer\<close>

text \<open>
  The state of the loops of \<open>FrameSequencer::nextFrame\<close>: the children, the sequencer's part of
  the playback, the playbacks of the children, and the random numbers. \<open>nf\<close> is \<open>nextFrame\<close> of
  a child.
\<close>

type_synonym ('c, 'f, 'm) seq_state =
  "('c, 'f, 'm) fsource list \<times> seq_pb \<times> 'f playback list \<times> (nat \<Rightarrow> nat)"

type_synonym ('c, 'f, 'm) player =
  "('c, 'f, 'm) fsource \<Rightarrow> 'f playback \<Rightarrow> (nat \<Rightarrow> nat) \<Rightarrow>
     (('c, 'm) frame option \<times> ('c, 'f, 'm) fsource \<times> 'f playback \<times> (nat \<Rightarrow> nat)) res"

definition at_end :: "seq_pb \<Rightarrow> bool" where
  "at_end sp \<longleftrightarrow> qpb_index_tbl sp \<noteq> [] \<and> length (qpb_index_tbl sp) - 1 \<le> unat (qpb_pos sp)"

text \<open>
  \<open>pos >= index_tbl.size () - 1\<close> is false for an empty table, whose size minus one is the
  largest \<open>size_t\<close>.
\<close>

definition index_step :: "seq_mode \<Rightarrow> ('c, 'f, 'm) seq_state \<Rightarrow> (nat \<times> ('c, 'f, 'm) seq_state) res" where
  "index_step mode st = (case st of (cs, sp, cps, rnd) \<Rightarrow>
     rbind (seq_index (of_nat (length cs)) mode rnd sp) (\<lambda>(pp, sp', rnd').
       Inr (unat pp, (cs, sp', cps, rnd'))))"

definition child_next :: "('c, 'f, 'm) player \<Rightarrow> nat \<Rightarrow> ('c, 'f, 'm) seq_state \<Rightarrow>
    (('c, 'm) frame option \<times> ('c, 'f, 'm) seq_state) res" where
  "child_next nf pp st = (case st of (cs, sp, cps, rnd) \<Rightarrow>
     if pp < length cs \<and> pp < length cps then
       rbind (nf (cs ! pp) (cps ! pp) rnd) (\<lambda>(fr, c', p', rnd').
         Inr (fr, (cs[pp := c'], sp, cps[pp := p'], rnd')))
     else Inl Assertion_failed)"

definition child_reset :: "('c, 'f, 'm) qt \<Rightarrow> nat \<Rightarrow> nat \<Rightarrow> ('c, 'f, 'm) seq_state \<Rightarrow>
    ('c, 'f, 'm) seq_state res" where
  "child_reset q now pp st = (case st of (cs, sp, cps, rnd) \<Rightarrow>
     if pp < length cs \<and> pp < length cps then
       rbind (reset_source q now (cs ! pp) (cps ! pp) rnd) (\<lambda>(p', rnd').
         Inr (cs, sp, cps[pp := p'], rnd'))
     else Inl Assertion_failed)"

fun reset_children :: "('c, 'f, 'm) qt \<Rightarrow> nat \<Rightarrow> nat list \<Rightarrow> ('c, 'f, 'm) seq_state \<Rightarrow>
    ('c, 'f, 'm) seq_state res" where
  "reset_children q now [] st = Inr st"
| "reset_children q now (i # is) st = rbind (child_reset q now i st) (reset_children q now is)"

definition advance_pos :: "('c, 'f, 'm) seq_state \<Rightarrow> ('c, 'f, 'm) seq_state" where
  "advance_pos st = (case st of (cs, sp, cps, rnd) \<Rightarrow> (cs, sp\<lparr>qpb_pos := qpb_pos sp + 1\<rparr>, cps, rnd))"

abbreviation seq_of :: "('c, 'f, 'm) seq_state \<Rightarrow> seq_pb" where
  "seq_of st \<equiv> fst (snd st)"

abbreviation sources_of :: "('c, 'f, 'm) seq_state \<Rightarrow> ('c, 'f, 'm) fsource list" where
  "sources_of st \<equiv> fst st"

abbreviation table_fits :: "seq_mode \<Rightarrow> ('c, 'f, 'm) seq_state \<Rightarrow> bool" where
  "table_fits mode st \<equiv> length (qpb_index_tbl (seq_of st)) =
     unat (table_size (of_nat (length (sources_of st))) mode)"

lemma reset_index_keeps:
  "reset_index n mode rnd sp = Inr (sp', rnd') \<Longrightarrow>
   qpb_pos sp' = qpb_pos sp \<and> qpb_repeats_done sp' = qpb_repeats_done sp"
  by (auto simp: reset_index_def rbind_Inr_iff split: if_splits)

lemma seq_index_keeps:
  "seq_index n mode rnd sp = Inr (pp, sp', rnd') \<Longrightarrow>
   qpb_pos sp' = qpb_pos sp \<and> qpb_repeats_done sp' = qpb_repeats_done sp \<and>
   length (qpb_index_tbl sp') = unat (table_size n mode) \<and>
   unat (qpb_pos sp) < length (qpb_index_tbl sp') \<and> pp < n"
  by (auto simp: seq_index_def rbind_Inr_iff vec_at_Inr_iff split: if_splits
      dest: reset_index_keeps)

lemma index_step_keeps:
  "index_step mode st = Inr (pp, st') \<Longrightarrow>
   sources_of st' = sources_of st \<and> qpb_pos (seq_of st') = qpb_pos (seq_of st) \<and>
   qpb_repeats_done (seq_of st') = qpb_repeats_done (seq_of st) \<and> table_fits mode st' \<and>
   unat (qpb_pos (seq_of st)) < length (qpb_index_tbl (seq_of st'))"
  by (auto simp: index_step_def rbind_Inr_iff dest: seq_index_keeps split: prod.splits)

lemma child_reset_keeps:
  "child_reset q now pp st = Inr st' \<Longrightarrow> seq_of st' = seq_of st \<and> sources_of st' = sources_of st"
  by (auto simp: child_reset_def rbind_Inr_iff split: prod.splits if_splits)

lemma child_next_keeps:
  "child_next nf pp st = Inr (fr, st') \<Longrightarrow>
   seq_of st' = seq_of st \<and> length (sources_of st') = length (sources_of st)"
  by (auto simp: child_next_def rbind_Inr_iff split: prod.splits if_splits)

lemma reset_children_keeps:
  "reset_children q now is st = Inr st' \<Longrightarrow>
   seq_of st' = seq_of st \<and> sources_of st' = sources_of st"
  by (induction "is" arbitrary: st) (auto simp: rbind_Inr_iff dest!: child_reset_keeps)

text \<open>The inner \<open>while\<close>: step on through the table until a child returns a frame.\<close>

definition scan_measure :: "seq_mode \<Rightarrow> ('c, 'f, 'm) seq_state \<Rightarrow> nat \<times> nat" where
  "scan_measure mode st =
     (if table_fits mode st then 0 else 1,
      length (qpb_index_tbl (seq_of st)) - unat (qpb_pos (seq_of st)))"

function (sequential) seq_scan :: "('c, 'f, 'm) qt \<Rightarrow> nat \<Rightarrow> ('c, 'f, 'm) player \<Rightarrow> seq_mode \<Rightarrow>
    ('c, 'f, 'm) seq_state \<Rightarrow> (('c, 'm) frame option \<times> ('c, 'f, 'm) seq_state) res" where
  "seq_scan q now nf mode st =
     (if at_end (seq_of st) then Inr (None, st)
      else rbind (index_step mode (advance_pos st)) (\<lambda>(pp, st1).
        rbind (child_reset q now pp st1) (\<lambda>st2.
        rbind (child_next nf pp st2) (\<lambda>(fr, st3).
          case fr of Some f \<Rightarrow> Inr (Some f, st3)
          | None \<Rightarrow> seq_scan q now nf mode st3))))"
  by pat_completeness auto

lemma advance_pos_simps [simp]:
  "sources_of (advance_pos st) = sources_of st"
  "qpb_pos (seq_of (advance_pos st)) = qpb_pos (seq_of st) + 1"
  "qpb_index_tbl (seq_of (advance_pos st)) = qpb_index_tbl (seq_of st)"
  "qpb_repeats_done (seq_of (advance_pos st)) = qpb_repeats_done (seq_of st)"
  by (simp_all add: advance_pos_def split: prod.splits)

lemma unat_add_1_less: "unat (p :: u32) < m \<Longrightarrow> m < 2 ^ 32 \<Longrightarrow> unat (p + 1) = unat p + 1"
  by (subst unat_add_lem [THEN iffD1]) simp_all

lemma scan_step_decreases:
  assumes "\<not> at_end (seq_of st)"
    and "index_step mode (advance_pos st) = Inr (pp, st1)"
    and "child_reset q now pp st1 = Inr st2"
    and "child_next nf pp st2 = Inr (fr, st3)"
  shows "(scan_measure mode st3, scan_measure mode st) \<in> less_than <*lex*> less_than"
proof -
  let ?n = "of_nat (length (sources_of st)) :: u32"
  have s3: "seq_of st3 = seq_of st1" "length (sources_of st3) = length (sources_of st)"
    using child_next_keeps [OF assms(4)] child_reset_keeps [OF assms(3)]
      index_step_keeps [OF assms(2)] by simp_all
  have fit: "table_fits mode st1" and len: "sources_of st1 = sources_of st"
    and pos: "qpb_pos (seq_of st1) = qpb_pos (seq_of st) + 1"
    and lt: "unat (qpb_pos (seq_of st) + 1) < length (qpb_index_tbl (seq_of st1))"
    using index_step_keeps [OF assms(2)] by auto
  have fit3: "table_fits mode st3" using fit s3 len by simp
  show ?thesis
  proof (cases "table_fits mode st")
    case False
    then show ?thesis using fit3 by (simp add: scan_measure_def)
  next
    case True
    have l: "length (qpb_index_tbl (seq_of st1)) = length (qpb_index_tbl (seq_of st))"
      using True fit len by simp
    have ne: "qpb_index_tbl (seq_of st) \<noteq> []" using lt l by auto
    have p: "unat (qpb_pos (seq_of st)) < length (qpb_index_tbl (seq_of st)) - 1"
      using assms(1) ne by (simp add: at_end_def)
    have "unat (table_size ?n mode) < 2 ^ 32"
      using unsigned_less [where 'b = 32] by auto
    then have "unat (qpb_pos (seq_of st) + 1) = unat (qpb_pos (seq_of st)) + 1"
      using p True by (intro unat_add_1_less [OF p]) simp
    then show ?thesis using True fit3 p l s3 pos by (simp add: scan_measure_def)
  qed
qed

termination seq_scan
  by (relation "inv_image (less_than <*lex*> less_than) (\<lambda>(q, now, nf, mode, st). scan_measure mode st)")
     (auto intro: wf_inv_image wf_lex_prod simp: in_inv_image dest: scan_step_decreases
       simp del: in_lex_prod)

declare seq_scan.simps [simp del]

lemma seq_scan_keeps:
  "seq_scan q now nf mode st = Inr (fr, st') \<Longrightarrow>
   length (sources_of st') = length (sources_of st) \<and>
   qpb_repeats_done (seq_of st') = qpb_repeats_done (seq_of st) \<and>
   (fr = None \<longrightarrow> at_end (seq_of st'))"
proof (induction q now nf mode st arbitrary: fr st' rule: seq_scan.induct)
  case (1 q now nf mode st)
  show ?case
  proof (cases "at_end (seq_of st)")
    case True
    then show ?thesis using 1(2) by (subst (asm) seq_scan.simps) simp
  next
    case False
    then obtain pp st1 st2 fr3 st3 where
      s: "index_step mode (advance_pos st) = Inr (pp, st1)" "child_reset q now pp st1 = Inr st2"
         "child_next nf pp st2 = Inr (fr3, st3)"
      and r: "(case fr3 of Some f \<Rightarrow> Inr (Some f, st3) | None \<Rightarrow> seq_scan q now nf mode st3) =
        Inr (fr, st')"
      using 1(2) by (subst (asm) seq_scan.simps) (auto simp: rbind_Inr_iff)
    have k: "length (sources_of st3) = length (sources_of st)"
      "qpb_repeats_done (seq_of st3) = qpb_repeats_done (seq_of st)"
      using child_next_keeps [OF s(3)] child_reset_keeps [OF s(2)] index_step_keeps [OF s(1)]
      by simp_all
    show ?thesis
    proof (cases fr3)
      case None
      then show ?thesis using 1(1) [OF False s(1) refl s(2) s(3) refl None] r k by simp
    next
      case (Some f)
      then show ?thesis using r k by auto
    qed
  qed
qed

text \<open>
  The top of the \<open>do\<close> loop. At the end of the table it either resets the playback and ends the
  run (\<open>False\<close>), or starts the next round: a fresh table and a reset of every child.
\<close>

definition round_start :: "('c, 'f, 'm) qt \<Rightarrow> nat \<Rightarrow> seq_mode \<Rightarrow> u32 \<Rightarrow> ('c, 'f, 'm) seq_state \<Rightarrow>
    (bool \<times> ('c, 'f, 'm) seq_state) res" where
  "round_start q now mode repeats st = (case st of (cs, sp, cps, rnd) \<Rightarrow>
     let n = of_nat (length cs) in
     if at_end sp then
       if qpb_repeats_done sp \<ge> repeats then
         rbind (seq_reset n mode rnd sp) (\<lambda>(sp', rnd'). Inr (False, (cs, sp', cps, rnd')))
       else
         rbind (reset_index n mode rnd
             (sp\<lparr>qpb_repeats_done := qpb_repeats_done sp + 1, qpb_pos := 0\<rparr>)) (\<lambda>(sp', rnd').
         rbind (reset_children q now [0..<length cs] (cs, sp', cps, rnd')) (\<lambda>st'.
           Inr (True, st')))
     else Inr (True, st))"

lemma round_start_keeps:
  "round_start q now mode repeats st = Inr (go, st') \<Longrightarrow>
   sources_of st' = sources_of st \<and>
   (\<not> at_end (seq_of st) \<longrightarrow> st' = st) \<and>
   (at_end (seq_of st) \<and> go \<longrightarrow> qpb_repeats_done (seq_of st) < repeats \<and>
      qpb_repeats_done (seq_of st') = qpb_repeats_done (seq_of st) + 1)"
  by (auto simp: round_start_def Let_def rbind_Inr_iff split: prod.splits if_splits
      dest!: reset_children_keeps dest: reset_index_keeps)

definition loop_measure :: "u32 \<Rightarrow> ('c, 'f, 'm) seq_state \<Rightarrow> nat" where
  "loop_measure repeats st = 2 * (unat repeats - unat (qpb_repeats_done (seq_of st))) +
     (if at_end (seq_of st) then 0 else 1)"

function (sequential) seq_loop :: "('c, 'f, 'm) qt \<Rightarrow> nat \<Rightarrow> ('c, 'f, 'm) player \<Rightarrow> seq_mode \<Rightarrow>
    u32 \<Rightarrow> ('c, 'f, 'm) seq_state \<Rightarrow> (('c, 'm) frame option \<times> ('c, 'f, 'm) seq_state) res" where
  "seq_loop q now nf mode repeats st =
     rbind (round_start q now mode repeats st) (\<lambda>(go, st1).
       if \<not> go then Inr (None, st1)
       else rbind (index_step mode st1) (\<lambda>(pp, st2).
            rbind (child_next nf pp st2) (\<lambda>(fr, st3).
              case fr of Some f \<Rightarrow> Inr (Some f, st3)
              | None \<Rightarrow> rbind (seq_scan q now nf mode st3) (\<lambda>(fr', st4).
                  case fr' of Some f \<Rightarrow> Inr (Some f, st4)
                  | None \<Rightarrow> seq_loop q now nf mode repeats st4))))"
  by pat_completeness auto

lemma loop_step_decreases:
  assumes "round_start q now mode repeats st = Inr (True, st1)"
    and "index_step mode st1 = Inr (pp, st2)" and "child_next nf pp st2 = Inr (fr, st3)"
    and "seq_scan q now nf mode st3 = Inr (None, st4)"
  shows "loop_measure repeats st4 < loop_measure repeats st"
proof -
  have e: "at_end (seq_of st4)" and
    r: "qpb_repeats_done (seq_of st4) = qpb_repeats_done (seq_of st1)"
    using seq_scan_keeps [OF assms(4)] child_next_keeps [OF assms(3)]
      index_step_keeps [OF assms(2)] by auto
  show ?thesis
  proof (cases "at_end (seq_of st)")
    case True
    have lt: "qpb_repeats_done (seq_of st) < repeats"
      and d: "qpb_repeats_done (seq_of st4) = qpb_repeats_done (seq_of st) + 1"
      using round_start_keeps [OF assms(1)] True r by auto
    have l: "unat (qpb_repeats_done (seq_of st)) < unat repeats"
      using lt by (simp add: word_less_nat_alt)
    have "unat repeats < 2 ^ 32" using unsigned_less [where 'b = 32] by auto
    then have "unat (qpb_repeats_done (seq_of st4)) = unat (qpb_repeats_done (seq_of st)) + 1"
      unfolding d by (rule unat_add_1_less [OF l])
    then show ?thesis using True e l by (simp add: loop_measure_def)
  next
    case False
    then show ?thesis using round_start_keeps [OF assms(1)] e r by (simp add: loop_measure_def)
  qed
qed

termination seq_loop
  by (relation "measure (\<lambda>(q, now, nf, mode, repeats, st). loop_measure repeats st)")
     (auto intro: loop_step_decreases)

declare seq_loop.simps [simp del]

definition seq_next :: "('c, 'f, 'm) qt \<Rightarrow> nat \<Rightarrow> ('c, 'f, 'm) player \<Rightarrow> sequencer \<Rightarrow>
    ('c, 'f, 'm) seq_state \<Rightarrow> (('c, 'm) frame option \<times> sequencer \<times> ('c, 'f, 'm) seq_state) res" where
  "seq_next q now nf sq st = (case st of (cs, sp, cps, rnd) \<Rightarrow>
     rbind (if sq_mode sq \<noteq> sq_newMode sq then
              rbind (reset_index (of_nat (length cs)) (sq_newMode sq) rnd sp) (\<lambda>(sp', rnd').
                Inr (sq\<lparr>sq_mode := sq_newMode sq\<rparr>, (cs, sp', cps, rnd')))
            else Inr (sq, st)) (\<lambda>(sq', st1).
     rbind (seq_loop q now nf (sq_mode sq') (sq_repeats sq') st1) (\<lambda>(fr, st2).
       Inr (fr, sq', st2))))"

section \<open>The colour rotator\<close>

definition set_rgb :: "('c, 'f, 'm) qt \<Rightarrow> 'c \<Rightarrow> 'c point \<Rightarrow> 'c point" where
  "set_rgb q c p = p\<lparr>pt_colour := q_rgb q (q_red q c) (q_green q c) (q_blue q c)\<rparr>"

definition colourOverride :: "('c, 'f, 'm) qt \<Rightarrow> ('c, 'f) rotator \<Rightarrow> ('c, 'm) frame \<Rightarrow>
    ('c, 'm) frame" where
  "colourOverride q r f =
     (if colour_override r
      then f\<lparr>fr_points := map (set_rgb q (override_colour r)) (fr_points f)\<rparr> else f)"

text \<open>The loops that bring a value into the unit interval; they may not end for floats.\<close>

partial_function (option) wrap_down :: "('c, 'f, 'm) qt \<Rightarrow> 'f \<Rightarrow> 'f option" where
  "wrap_down q h = (if f_less q (f_one q) h then wrap_down q (f_sub q h (f_one q)) else Some h)"

partial_function (option) wrap_up :: "('c, 'f, 'm) qt \<Rightarrow> 'f \<Rightarrow> 'f option" where
  "wrap_up q h = (if f_less q h (f_zero q) then wrap_up q (f_add q h (f_one q)) else Some h)"

definition wrap_unit :: "('c, 'f, 'm) qt \<Rightarrow> 'f \<Rightarrow> 'f res" where
  "wrap_unit q h =
     (case wrap_down q h of None \<Rightarrow> Inl Diverges | Some h1 \<Rightarrow>
     (case wrap_up q h1 of None \<Rightarrow> Inl Diverges | Some h2 \<Rightarrow> Inr h2))"

text \<open>\<open>while (v > 1.0) v = 1.0\<close> and \<open>while (v < 0.0) v = 0.0\<close> end after at most one step each.\<close>

definition clamp_unit :: "('c, 'f, 'm) qt \<Rightarrow> 'f \<Rightarrow> 'f" where
  "clamp_unit q v =
     (let v1 = (if f_less q (f_one q) v then f_one q else v) in
      if f_less q v1 (f_zero q) then f_zero q else v1)"

definition in_unit :: "('c, 'f, 'm) qt \<Rightarrow> 'f \<Rightarrow> bool" where
  "in_unit q h \<longleftrightarrow> f_le q (f_zero q) h \<and> f_le q h (f_one q)"

definition advance_phase :: "('c, 'f, 'm) qt \<Rightarrow> 'f \<Rightarrow> 'f \<Rightarrow> 'f" where
  "advance_phase q phase incr =
     (let p1 = f_add q phase incr;
          p2 = (if f_less q (f_one q) p1 then f_sub q p1 (f_one q) else p1)
      in if f_less q p2 (f_zero q) then f_add q p2 (f_one q) else p2)"

definition advance_phase_down :: "('c, 'f, 'm) qt \<Rightarrow> 'f \<Rightarrow> 'f \<Rightarrow> 'f" where
  "advance_phase_down q phase incr =
     (let p1 = f_add q phase incr in
      if f_less q (f_one q) p1 then f_sub q p1 (f_one q) else p1)"

definition hsv_point :: "('c, 'f, 'm) qt \<Rightarrow> ('c, 'f) rotator \<Rightarrow> 'f \<Rightarrow> 'c point \<Rightarrow> 'c point res" where
  "hsv_point q r phase p =
     (let c = pt_colour p;
          h0 = (if rotate_h r then f_add q (q_hueF q c) phase else q_hueF q c);
          v0 = (if rotate_v r then f_mul q (q_valueF q c) phase else q_valueF q c);
          s0 = (if rotate_s r then f_add q (q_saturationF q c) phase else q_saturationF q c)
      in rbind (wrap_unit q h0) (\<lambda>h.
         let v = clamp_unit q v0 in
         rbind (wrap_unit q s0) (\<lambda>s.
           if in_unit q h \<and> in_unit q v \<and> in_unit q s
           then Inr (p\<lparr>pt_colour := q_setHsvF q h s v\<rparr>) else Inr p)))"

fun hsv_points :: "('c, 'f, 'm) qt \<Rightarrow> ('c, 'f) rotator \<Rightarrow> 'f \<Rightarrow> 'f \<Rightarrow> 'c point list \<Rightarrow>
    'c point list res" where
  "hsv_points q r incr phase [] = Inr []"
| "hsv_points q r incr phase (p # ps) =
     rbind (hsv_point q r phase p) (\<lambda>p'.
     rbind (hsv_points q r incr (advance_phase q phase incr) ps) (\<lambda>ps'. Inr (p' # ps')))"

definition HSVRotator :: "('c, 'f, 'm) qt \<Rightarrow> ('c, 'f) rotator \<Rightarrow> ('c, 'm) frame \<Rightarrow> 'f rot_pb \<Rightarrow>
    (('c, 'm) frame \<times> 'f rot_pb) res" where
  "HSVRotator q r f pb =
     (if getPointCount f = 0 then Inr (f, pb)
      else rbind (hsv_points q r (f_div_nat q (rotate_harmonic r) (getPointCount f))
             (rotator_start_phase pb) (fr_points f)) (\<lambda>ps.
        Inr (f\<lparr>fr_points := ps\<rparr>, pb\<lparr>rotator_start_phase :=
          advance_phase_down q (rotator_start_phase pb) (rotate_phase_advance r)\<rparr>)))"

fun pulse_points :: "('c, 'f, 'm) qt \<Rightarrow> ('c, 'f) rotator \<Rightarrow> 'f \<Rightarrow> 'f \<Rightarrow> 'c point list \<Rightarrow>
    'c point list" where
  "pulse_points q r incr phase [] = []"
| "pulse_points q r incr phase (p # ps) =
     (if f_less q phase (pulse_dutycycle r) \<and> \<not> pt_blanked p
      then set_rgb q (pulse_colour r) p else p)
     # pulse_points q r incr (advance_phase_down q phase incr) ps"

definition colourPulse :: "('c, 'f, 'm) qt \<Rightarrow> ('c, 'f) rotator \<Rightarrow> ('c, 'm) frame \<Rightarrow> 'f rot_pb \<Rightarrow>
    ('c, 'm) frame \<times> 'f rot_pb" where
  "colourPulse q r f pb =
     (if getPointCount f \<noteq> 0 \<and> f_nonzero q (pulse_harmonic r) then
        (f\<lparr>fr_points := pulse_points q r (f_inv_mul q (getPointCount f) (pulse_harmonic r))
            (pulser_start_phase pb) (fr_points f)\<rparr>,
         pb\<lparr>pulser_start_phase :=
            advance_phase q (pulser_start_phase pb) (pulse_phase_advance r)\<rparr>)
      else (f, pb))"

definition rotator_effect :: "('c, 'f, 'm) qt \<Rightarrow> ('c, 'f) rotator \<Rightarrow> ('c, 'm) frame \<Rightarrow> 'f rot_pb \<Rightarrow>
    (('c, 'm) frame \<times> 'f rot_pb) res" where
  "rotator_effect q r f pb =
     rbind (HSVRotator q r (colourOverride q r f) pb) (\<lambda>(f', pb'). Inr (colourPulse q r f' pb'))"

definition rotator_next :: "('c, 'f, 'm) qt \<Rightarrow> nat \<Rightarrow> ('c, 'f, 'm) player \<Rightarrow> ('c, 'f) rotator \<Rightarrow>
    ('c, 'f, 'm) fsource list \<Rightarrow> 'f rot_pb \<Rightarrow> 'f playback list \<Rightarrow> (nat \<Rightarrow> nat) \<Rightarrow>
    (('c, 'm) frame option \<times> ('c, 'f, 'm) fsource list \<times> 'f rot_pb \<times> 'f playback list \<times>
      (nat \<Rightarrow> nat)) res" where
  "rotator_next q now nf r cs p cps rnd =
     (case cs of
        [] \<Rightarrow> Inr (None, cs,
                p\<lparr>pulser_start_phase := f_rat q 0, rotator_start_phase := f_rat q 0\<rparr>, cps, rnd)
      | c # cs' \<Rightarrow>
        (case cps of [] \<Rightarrow> Inl Assertion_failed | cp # cps' \<Rightarrow>
          rbind (nf c cp rnd) (\<lambda>(fr, c1, cp1, rnd1).
            case fr of
              Some f \<Rightarrow> rbind (rotator_effect q r f p) (\<lambda>(f', p').
                Inr (Some f', c1 # cs', p', cp1 # cps', rnd1))
            | None \<Rightarrow>
                if cs' = [] then rbind (reset_source q now c1 cp1 rnd1) (\<lambda>(cp2, rnd2).
                  Inr (None, c1 # cs', p, cp2 # cps', rnd2))
                else Inr (None, c1 # cs', p, cp1 # cps', rnd1))))"

section \<open>nextFrame\<close>

text \<open>The virtual call: \<open>fuel\<close> bounds the depth of the tree.\<close>

fun next_frame :: "nat \<Rightarrow> ('c, 'f, 'm) qt \<Rightarrow> nat \<Rightarrow> ('c, 'f, 'm) player" where
  "next_frame 0 q now s p rnd = Inl Out_of_fuel"
| "next_frame (Suc fuel) q now (Source n d cs) (Pb pn cps) rnd =
     (case (n, pn) of
        (Static sf, Static_pb sp) \<Rightarrow>
          (let (fr, sp') = static_next q now sf sp
           in Inr (fr, Source n d cs, Pb (Static_pb sp') cps, rnd))
      | (Sequencer sq, Sequencer_pb sp) \<Rightarrow>
          rbind (seq_next q now (next_frame fuel q now) sq (cs, sp, cps, rnd))
            (\<lambda>(fr, sq', cs', sp', cps', rnd').
              Inr (fr, Source (Sequencer sq') d cs', Pb (Sequencer_pb sp') cps', rnd'))
      | (Rotator r, Rotator_pb rp) \<Rightarrow>
          rbind (rotator_next q now (next_frame fuel q now) r cs rp cps rnd)
            (\<lambda>(fr, cs', rp', cps', rnd').
              Inr (fr, Source n d cs', Pb (Rotator_pb rp') cps', rnd'))
      | _ \<Rightarrow> Inl Assertion_failed)"

fun height :: "('c, 'f, 'm) fsource \<Rightarrow> nat" where
  "height (Source n d cs) = Suc (fold max (map height cs) 0)"

definition nextFrame :: "('c, 'f, 'm) qt \<Rightarrow> nat \<Rightarrow> ('c, 'f, 'm) player" where
  "nextFrame q now s p rnd = next_frame (height s) q now s p rnd"

section \<open>Position and number of frames\<close>

fun frames :: "('c, 'f, 'm) fsource \<Rightarrow> nat" where
  "frames (Source (Static sf) d cs) = 1"
| "frames (Source (Sequencer sq) d cs) = foldl (\<lambda>f c. f + frames c) 0 cs"
| "frames (Source (Rotator r) d []) = 0"
| "frames (Source (Rotator r) d (c # cs)) = frames c"

text \<open>\<open>pos\<close>: each class follows the cast of the playback to its own class; the rotator ignores it.\<close>

definition static_pos :: "'f playback \<Rightarrow> nat res" where
  "static_pos p = (case pb_node p of
     Static_pb sp \<Rightarrow> Inr (if spb_active sp then 1 else 0) | _ \<Rightarrow> Inl Assertion_failed)"

definition sequencer_pos :: "'f playback \<Rightarrow> nat res" where
  "sequencer_pos p = (case pb_node p of
     Sequencer_pb sp \<Rightarrow> Inr (unat (qpb_pos sp)) | _ \<Rightarrow> Inl Assertion_failed)"

definition rotator_pos :: "'f playback \<Rightarrow> nat res" where
  "rotator_pos p = Inr 0"

definition source_pos :: "('c, 'f, 'm) fsource \<Rightarrow> 'f playback \<Rightarrow> nat res" where
  "source_pos s p = (case src_node s of
     Static _ \<Rightarrow> static_pos p | Sequencer _ \<Rightarrow> sequencer_pos p | Rotator _ \<Rightarrow> rotator_pos p)"

section \<open>Playback of a whole source\<close>

text \<open>
  The class \<open>Playback\<close>: a source that may be null and, if it is not, a playback made for it.
\<close>

type_synonym ('c, 'f, 'm) play = "(('c, 'f, 'm) fsource \<times> 'f playback) option"

definition Playback :: "('c, 'f, 'm) qt \<Rightarrow> ('c, 'f, 'm) fsource option \<Rightarrow> ('c, 'f, 'm) play" where
  "Playback q fs = map_option (\<lambda>s. (s, createPlayback q s)) fs"

definition play_reset :: "('c, 'f, 'm) qt \<Rightarrow> nat \<Rightarrow> ('c, 'f, 'm) play \<Rightarrow> (nat \<Rightarrow> nat) \<Rightarrow>
    (('c, 'f, 'm) play \<times> (nat \<Rightarrow> nat)) res" where
  "play_reset q now pl rnd = (case pl of
     None \<Rightarrow> Inr (None, rnd)
   | Some (s, p) \<Rightarrow> rbind (reset_source q now s p rnd) (\<lambda>(p', rnd'). Inr (Some (s, p'), rnd')))"

definition play_nextFrame :: "('c, 'f, 'm) qt \<Rightarrow> nat \<Rightarrow> ('c, 'f, 'm) play \<Rightarrow> (nat \<Rightarrow> nat) \<Rightarrow>
    (('c, 'm) frame option \<times> ('c, 'f, 'm) play \<times> (nat \<Rightarrow> nat)) res" where
  "play_nextFrame q now pl rnd = (case pl of
     None \<Rightarrow> Inr (None, None, rnd)
   | Some (s, p) \<Rightarrow> rbind (nextFrame q now s p rnd) (\<lambda>(fr, s', p', rnd').
       Inr (fr, Some (s', p'), rnd')))"

section \<open>The editors' slots\<close>

definition dewellChangedData :: "int \<Rightarrow> ('f, 'm) static_frame \<Rightarrow> ('f, 'm) static_frame" where
  "dewellChangedData v sf = sf\<lparr>sf_dewell := word_of_int v\<rparr>"

definition repeatChangedData :: "int \<Rightarrow> ('f, 'm) static_frame \<Rightarrow> ('f, 'm) static_frame" where
  "repeatChangedData v sf = sf\<lparr>sf_repeats := word_of_int v\<rparr>"

text \<open>The third component tells which entries are disabled: the dwell one and the repeat one.\<close>

definition buttonChangedData :: "int \<Rightarrow> ('f, 'm) static_frame \<Rightarrow>
    ('f, 'm) static_frame \<times> (bool \<times> bool) option" where
  "buttonChangedData i sf =
     (if i = 1 then (sf\<lparr>sf_useDewell := True\<rparr>, Some (False, True))
      else if i = 2 then (sf\<lparr>sf_useDewell := False\<rparr>, Some (True, False))
      else (sf, None))"

definition modeChangedData :: "int \<Rightarrow> sequencer \<Rightarrow> sequencer" where
  "modeChangedData i sq =
     (if i = 0 then sq\<lparr>sq_newMode := Sequential\<rparr>
      else if i = 1 then sq\<lparr>sq_newMode := Random\<rparr>
      else if i = 2 then sq\<lparr>sq_newMode := Pingpong\<rparr> else sq)"

definition repeatsChangedData :: "int \<Rightarrow> sequencer \<Rightarrow> sequencer" where
  "repeatsChangedData reps sq = sq\<lparr>sq_repeats := word_of_int reps\<rparr>"

datatype 'c rotator_edit = Override_colour 'c | Pulse_colour 'c | Pulse_harmonic int
  | Pulse_phase int | Rotator_harmonic int | Rotator_phase int | Override_switch bool
  | Bright_mod bool | Hue_mod bool | Sat_mod bool

definition rotator_edit :: "('c, 'f, 'm) qt \<Rightarrow> 'c rotator_edit \<Rightarrow> ('c, 'f) rotator \<Rightarrow>
    ('c, 'f) rotator" where
  "rotator_edit q e r = (case e of
     Override_colour col \<Rightarrow> r\<lparr>override_colour := col\<rparr>
   | Pulse_colour col \<Rightarrow> r\<lparr>pulse_colour := col\<rparr>
   | Pulse_harmonic h \<Rightarrow> r\<lparr>pulse_harmonic := f_rat q (of_int h / 1000)\<rparr>
   | Pulse_phase a \<Rightarrow> r\<lparr>pulse_phase_advance := f_rat q (of_int a / 1000)\<rparr>
   | Rotator_harmonic h \<Rightarrow> r\<lparr>rotate_harmonic := f_rat q (of_int h / 1000)\<rparr>
   | Rotator_phase a \<Rightarrow> r\<lparr>rotate_phase_advance := f_rat q (of_int a / 1000)\<rparr>
   | Override_switch f \<Rightarrow> r\<lparr>colour_override := f\<rparr>
   | Bright_mod f \<Rightarrow> r\<lparr>rotate_v := f\<rparr>
   | Hue_mod f \<Rightarrow> r\<lparr>rotate_h := f\<rparr>
   | Sat_mod f \<Rightarrow> r\<lparr>rotate_s := f\<rparr>)"

end
