(* ===== verification/Ilda_Palettes.thy ===== *)
theory Ilda_Palettes
  imports Lucifer_Prelude
begin

text \<open>
  \<open>ildapallette.h\<close>: the two built-in palettes, as the arrays of \<open>short\<close> they are: three numbers a
  colour, ended by -1. The second array is given in two parts.
\<close>

definition ilda_palette :: "int list" where
  "ilda_palette = [
    255, 0, 0, 255, 16, 0, 255, 32, 0, 255, 48, 0, 255, 64, 0, 255, 80, 0, 255, 96, 0,
    255, 112, 0, 255, 128, 0, 255, 144, 0, 255, 160, 0, 255, 176, 0, 255, 192, 0, 255, 208, 0,
    255, 224, 0, 255, 240, 0, 255, 255, 0, 224, 255, 0, 192, 255, 0, 160, 255, 0, 128, 255, 0,
    96, 255, 0, 64, 255, 0, 32, 255, 0, 0, 255, 0, 0, 255, 32, 0, 255, 64, 0, 255, 96,
    0, 255, 128, 0, 255, 160, 0, 255, 192, 0, 255, 224, 0, 130, 255, 0, 114, 255, 0, 104, 255,
    10, 96, 255, 0, 82, 255, 0, 74, 255, 0, 64, 255, 0, 32, 255, 0, 0, 255, 32, 0, 255,
    64, 0, 255, 96, 0, 255, 128, 0, 255, 160, 0, 255, 192, 0, 255, 224, 0, 255, 255, 0, 255,
    255, 32, 255, 255, 64, 255, 255, 96, 255, 255, 128, 255, 255, 160, 255, 255, 192, 255,
    255, 224, 255, 255, 255, 255, 255, 224, 224, 255, 255, 255, 255, 160, 160, 255, 128, 128,
    255, 96, 96, 255, 64, 64, 0, 0, 0, -1, -1, -1]"

definition pangolin_low :: "int list" where
  "pangolin_low = [
    0, 0, 0, 255, 255, 255, 255, 0, 0, 255, 255, 0, 0, 255, 0, 0, 255, 255, 0, 0, 255,
    255, 0, 255, 255, 128, 128, 255, 140, 128, 255, 151, 128, 255, 163, 128, 255, 174, 128,
    255, 186, 128, 255, 197, 128, 255, 209, 128, 255, 220, 128, 255, 232, 128, 255, 243, 128,
    255, 255, 128, 243, 255, 128, 232, 255, 128, 220, 255, 128, 209, 255, 128, 197, 255, 128,
    186, 255, 128, 174, 255, 128, 163, 255, 128, 151, 255, 128, 140, 255, 128, 128, 255, 128,
    128, 255, 140, 128, 255, 151, 128, 255, 163, 128, 255, 174, 128, 255, 186, 128, 255, 197,
    128, 255, 209, 128, 255, 220, 128, 255, 232, 128, 255, 243, 128, 255, 255, 128, 243, 255,
    128, 232, 255, 128, 220, 255, 128, 209, 255, 128, 197, 255, 128, 186, 255, 128, 174, 255,
    128, 163, 255, 128, 151, 255, 128, 140, 255, 128, 128, 255, 140, 128, 255, 151, 128, 255,
    163, 128, 255, 174, 128, 255, 186, 128, 255, 197, 128, 255, 209, 128, 255, 220, 128, 255,
    232, 128, 255, 243, 128, 255, 255, 128, 255, 255, 128, 243, 255, 128, 232, 255, 128, 220,
    255, 128, 209, 255, 128, 197, 255, 128, 186, 255, 128, 174, 255, 128, 163, 255, 128, 151,
    255, 128, 140, 255, 0, 0, 255, 23, 0, 255, 46, 0, 255, 70, 0, 255, 93, 0, 255, 116, 0,
    255, 139, 0, 255, 162, 0, 255, 185, 0, 255, 209, 0, 255, 232, 0, 255, 255, 0, 232, 255, 0,
    209, 255, 0, 185, 255, 0, 162, 255, 0, 139, 255, 0, 116, 255, 0, 93, 255, 0, 70, 255, 0,
    46, 255, 0, 23, 255, 0, 0, 255, 0, 0, 255, 23, 0, 255, 46, 0, 255, 70, 0, 255, 93,
    0, 255, 116, 0, 255, 139, 0, 255, 162, 0, 255, 185, 0, 255, 209, 0, 255, 232, 0, 255, 255,
    0, 232, 255, 0, 209, 255, 0, 185, 255, 0, 162, 255, 0, 139, 255, 0, 116, 255, 0, 93, 255,
    0, 70, 255, 0, 46, 255, 0, 23, 255, 0, 0, 255, 23, 0, 255, 46, 0, 255, 70, 0, 255,
    93, 0, 255, 116, 0, 255, 139, 0, 255, 162, 0, 255, 185, 0, 255, 209, 0, 255, 232, 0, 255]"

definition pangolin_high :: "int list" where
  "pangolin_high = [
    255, 0, 255, 255, 0, 232, 255, 0, 209, 255, 0, 185, 255, 0, 162, 255, 0, 139, 255, 0, 116,
    255, 0, 93, 255, 0, 70, 255, 0, 46, 255, 0, 23, 128, 0, 0, 128, 12, 0, 128, 23, 0,
    128, 35, 0, 128, 47, 0, 128, 58, 0, 128, 70, 0, 128, 81, 0, 128, 93, 0, 128, 105, 0,
    128, 116, 0, 128, 128, 0, 116, 128, 0, 105, 128, 0, 93, 128, 0, 81, 128, 0, 70, 128, 0,
    58, 128, 0, 47, 128, 0, 35, 128, 0, 23, 128, 0, 12, 128, 0, 0, 128, 0, 0, 128, 12,
    0, 128, 23, 0, 128, 35, 0, 128, 47, 0, 128, 58, 0, 128, 70, 0, 128, 81, 0, 128, 93,
    0, 128, 105, 0, 128, 116, 0, 128, 128, 0, 116, 128, 0, 105, 128, 0, 93, 128, 0, 81, 128,
    0, 70, 128, 0, 58, 128, 0, 47, 128, 0, 35, 128, 0, 23, 128, 0, 12, 128, 0, 0, 128,
    12, 0, 128, 23, 0, 128, 35, 0, 128, 47, 0, 128, 58, 0, 128, 70, 0, 128, 81, 0, 128,
    93, 0, 128, 105, 0, 128, 116, 0, 128, 128, 0, 128, 128, 0, 116, 128, 0, 105, 128, 0, 93,
    128, 0, 81, 128, 0, 70, 128, 0, 58, 128, 0, 47, 128, 0, 35, 128, 0, 23, 128, 0, 12,
    255, 192, 192, 255, 64, 64, 192, 0, 0, 64, 0, 0, 255, 255, 192, 255, 255, 64, 192, 192, 0,
    64, 64, 0, 192, 255, 192, 64, 255, 64, 0, 192, 0, 0, 64, 0, 192, 255, 255, 64, 255, 255,
    0, 192, 192, 0, 64, 64, 192, 192, 255, 64, 64, 255, 0, 0, 192, 0, 0, 64, 255, 192, 255,
    255, 64, 255, 192, 0, 192, 64, 0, 64, 255, 96, 96, 255, 255, 255, 245, 245, 245,
    235, 235, 235, 224, 224, 224, 213, 213, 213, 203, 203, 203, 192, 192, 192, 181, 181, 181,
    171, 171, 171, 160, 160, 160, 149, 149, 149, 139, 139, 139, 128, 128, 128, 117, 117, 117,
    107, 107, 107, 96, 96, 96, 85, 85, 85, 75, 75, 75, 64, 64, 64, 53, 53, 53, 43, 43, 43,
    32, 32, 32, 21, 21, 21, 11, 11, 11, 0, 0, 0, -1, -1, -1]"

definition pangolin_palette :: "int list" where
  "pangolin_palette = pangolin_low @ pangolin_high"

end
