(* ===== verification/Ilda_Loader.thy ===== *)
theory Ilda_Loader
  imports Frame_Source Ilda_Palettes
begin

unbundle bit_operations_syntax

text \<open>
  \<open>loadilda.h\<close> and \<open>loadilda.cpp\<close>: an ILDA file becomes a static frame, or, with more than one
  frame, a colour rotator over a sequencer of static frames.

  The file is read through a \<open>QDataStream\<close>, which is not part of the sources: its operations are
  the fields of the record \<open>data_stream\<close>, over a type of streams. \<open>ds_raw n\<close> gives what a buffer
  of \<open>n\<close> bytes holds after \<open>readRawData\<close>, also when fewer bytes were left. The locale \<open>big_endian\<close>
  states the documented behaviour the loader relies on, and the stream \<open>file_ops\<close> over the bytes of
  a file, with a position, is its interpretation; what \<open>skipRawData\<close> does for a negative length
  is not documented and is an argument of it.

  The loop over the sections need not end; \<open>fuel\<close> bounds the number of sections.
\<close>

section \<open>The stream\<close>

record 's data_stream =
  ds_u8 :: "'s \<Rightarrow> u8 \<times> 's"
  ds_u16 :: "'s \<Rightarrow> u16 \<times> 's"
  ds_u32 :: "'s \<Rightarrow> u32 \<times> 's"
  ds_raw :: "nat \<Rightarrow> 's \<Rightarrow> u8 list \<times> 's"
  ds_skip :: "int \<Rightarrow> 's \<Rightarrow> 's"
  ds_atEnd :: "'s \<Rightarrow> bool"

definition c_string :: "u8 list \<Rightarrow> string" where
  "c_string bs = map (\<lambda>b. char_of (unat b)) (takeWhile (\<lambda>b. b \<noteq> 0) bs)"

section \<open>The loader\<close>

record 'c ildaloader =
  ld_palette :: "'c list"
  ld_trueColour :: bool
  ld_colour :: "'c list"

definition Ildaloader :: "'c ildaloader" where
  "Ildaloader = \<lparr>ld_palette = [], ld_trueColour = False, ld_colour = []\<rparr>"

fun palette_entries :: "('c, 'f, 'm) qt \<Rightarrow> int list \<Rightarrow> 'c list res" where
  "palette_entries q [] = Inl Undefined_behaviour"
| "palette_entries q (r # pal) =
     (if r = - 1 then Inr []
      else (case pal of g # b # pal' \<Rightarrow> rbind (palette_entries q pal') (\<lambda>cs. Inr (q_rgb q r g b # cs))
            | _ \<Rightarrow> Inl Undefined_behaviour))"

definition default_palette :: "('c, 'f, 'm) qt \<Rightarrow> bool \<Rightarrow> 'c list res" where
  "default_palette q pangolin =
     rbind (palette_entries q (if pangolin then pangolin_palette else ilda_palette)) (\<lambda>p.
       Inr (p @ replicate (256 - length p) (q_rgb q 0 0 0)))"

definition readHeader :: "'s data_stream \<Rightarrow> 's \<Rightarrow> string \<times> string \<times> nat \<times> 's" where
  "readHeader ops s =
     (let (name, s1) = ds_raw ops 8 s;
          (company, s2) = ds_raw ops 8 s1;
          (pointcount, s3) = ds_u16 ops s2
      in (c_string name, c_string company, unat pointcount, ds_skip ops 6 s3))"

definition read_xyz :: "'s data_stream \<Rightarrow> bool \<Rightarrow> 's \<Rightarrow> (u16 \<times> u16 \<times> u16) \<times> 's" where
  "read_xyz ops is3DFrame s =
     (let (x, s1) = ds_u16 ops s;
          (y, s2) = ds_u16 ops s1
      in if is3DFrame then (let (z, s3) = ds_u16 ops s2 in ((x, y, z), s3))
         else ((x, y, 0), s2))"

definition blanked_bit :: "u8 \<Rightarrow> bool" where
  "blanked_bit state \<longleftrightarrow> state AND 64 = 64"

definition colour_point :: "('c, 'f, 'm) qt \<Rightarrow> u16 \<times> u16 \<times> u16 \<Rightarrow> bool \<Rightarrow> 'c \<Rightarrow> ilda_point" where
  "colour_point q xyz blanked c = (case xyz of (x, y, z) \<Rightarrow>
     \<lparr>ip_x = x, ip_y = y, ip_z = z, ip_blanked = blanked, ip_r = word_of_int (q_red q c),
      ip_g = word_of_int (q_green q c), ip_b = word_of_int (q_blue q c)\<rparr>)"

text \<open>The points of a section of format 0 or 1: \<open>n\<close> to read, the next has index \<open>i\<close>.\<close>

fun indexed_points :: "('c, 'f, 'm) qt \<Rightarrow> 's data_stream \<Rightarrow> bool \<Rightarrow> 'c ildaloader \<Rightarrow> nat \<Rightarrow> nat \<Rightarrow> 's \<Rightarrow>
    (ilda_point list \<times> 's) res" where
  "indexed_points q ops is3DFrame ld 0 i s = Inr ([], s)"
| "indexed_points q ops is3DFrame ld (Suc n) i s =
     (let (xyz, s1) = read_xyz ops is3DFrame s;
          (state, s2) = ds_u8 ops s1;
          (col, s3) = ds_u8 ops s2
      in rbind (if \<not> ld_trueColour ld then vec_at (ld_palette ld) (unat col)
                else vec_at (ld_colour ld) i) (\<lambda>c.
         rbind (indexed_points q ops is3DFrame ld n (Suc i) s3) (\<lambda>(ps, s').
           Inr (colour_point q xyz (blanked_bit state) c # ps, s'))))"

text \<open>A new static frame with its description and points.\<close>

definition ilda_frame :: "('c, 'f, 'm) qt \<Rightarrow> string \<Rightarrow> string \<Rightarrow> ilda_point list \<Rightarrow>
    ('c, 'f, 'm) fsource" where
  "ilda_frame q name company ps = (case src_node (StaticFrame q) of
     Static sf \<Rightarrow> Source (Static (sf\<lparr>sf_data := ps\<rparr>)) (''ILDA: '' @ name @ '' By '' @ company) []
   | n \<Rightarrow> Source n [] [])"

definition readFrameSection :: "('c, 'f, 'm) qt \<Rightarrow> 's data_stream \<Rightarrow> bool \<Rightarrow> 'c ildaloader \<Rightarrow> 's \<Rightarrow>
    (('c, 'f, 'm) fsource option \<times> 'c ildaloader \<times> 's) res" where
  "readFrameSection q ops is3DFrame ld s =
     (let (name, company, points, s1) = readHeader ops s in
      if points = 0 then Inr (None, ld, s1)
      else rbind (indexed_points q ops is3DFrame ld points 0 s1) (\<lambda>(ps, s2).
        Inr (Some (ilda_frame q name company ps),
             ld\<lparr>ld_colour := [], ld_trueColour := False\<rparr>, s2)))"

fun read_colours :: "('c, 'f, 'm) qt \<Rightarrow> 's data_stream \<Rightarrow> nat \<Rightarrow> 's \<Rightarrow> 'c list \<times> 's" where
  "read_colours q ops 0 s = ([], s)"
| "read_colours q ops (Suc n) s =
     (let (r, s1) = ds_u8 ops s;
          (g, s2) = ds_u8 ops s1;
          (b, s3) = ds_u8 ops s2;
          (cs, s4) = read_colours q ops n s3
      in (q_rgb q (uint r) (uint g) (uint b) # cs, s4))"

definition readTrueColorSection :: "('c, 'f, 'm) qt \<Rightarrow> 's data_stream \<Rightarrow> 'c ildaloader \<Rightarrow> 's \<Rightarrow>
    bool \<times> 'c ildaloader \<times> 's" where
  "readTrueColorSection q ops ld s =
     (let (datalen, s1) = ds_u32 ops s;
          (points, s2) = ds_u32 ops s1
      in if points > 0xFFFF then (False, ld, ds_skip ops (sint (datalen - 4)) s2)
         else if points = 0 then (True, ld, s2)
         else (let (cs, s3) = read_colours q ops (unat points) s2
               in (False, ld\<lparr>ld_colour := cs, ld_trueColour := True\<rparr>, s3)))"

fun rgb_points :: "'s data_stream \<Rightarrow> bool \<Rightarrow> nat \<Rightarrow> 's \<Rightarrow> ilda_point list \<times> 's" where
  "rgb_points ops is3DFrame 0 s = ([], s)"
| "rgb_points ops is3DFrame (Suc n) s =
     (let ((x, y, z), s1) = read_xyz ops is3DFrame s;
          (state, s2) = ds_u8 ops s1;
          (b, s3) = ds_u8 ops s2;
          (g, s4) = ds_u8 ops s3;
          (r, s5) = ds_u8 ops s4;
          (ps, s6) = rgb_points ops is3DFrame n s5
      in (\<lparr>ip_x = x, ip_y = y, ip_z = z, ip_blanked = blanked_bit state, ip_r = r, ip_g = g,
           ip_b = b\<rparr> # ps, s6))"

definition readFormat5 :: "('c, 'f, 'm) qt \<Rightarrow> 's data_stream \<Rightarrow> bool \<Rightarrow> 's \<Rightarrow>
    ('c, 'f, 'm) fsource option \<times> 's" where
  "readFormat5 q ops is3DFrame s =
     (let (name, company, points, s1) = readHeader ops s in
      if points = 0 then (None, s1)
      else (let (ps, s2) = rgb_points ops is3DFrame points s1
            in (Some (ilda_frame q name company ps), s2)))"

definition readColorTable :: "('c, 'f, 'm) qt \<Rightarrow> 's data_stream \<Rightarrow> 'c ildaloader \<Rightarrow> 's \<Rightarrow>
    bool \<times> 'c ildaloader \<times> 's" where
  "readColorTable q ops ld s =
     (let (name, s1) = ds_raw ops 8 s;
          (company, s2) = ds_raw ops 8 s1;
          (colours, s3) = ds_u16 ops s2;
          s4 = ds_skip ops 4 (ds_skip ops 2 s3);
          (cs, s5) = read_colours q ops (unat colours) s4
      in (False, ld\<lparr>ld_palette := cs\<rparr>, s5))"

text \<open>
  One section after its name: the end flag, the frame read, if any, the loader and the stream.
\<close>

definition read_section :: "('c, 'f, 'm) qt \<Rightarrow> 's data_stream \<Rightarrow> 'c ildaloader \<Rightarrow> 's \<Rightarrow>
    (bool \<times> ('c, 'f, 'm) fsource option \<times> 'c ildaloader \<times> 's) res" where
  "read_section q ops ld s =
     (let (fmt, s1) = ds_u32 ops s in
      if fmt = 0 \<or> fmt = 1 then
        rbind (readFrameSection q ops (fmt = 0) ld s1) (\<lambda>(fr, ld', s'). Inr (Option.is_none fr, fr, ld', s'))
      else if fmt = 2 then (let (eof, ld', s') = readColorTable q ops ld s1 in Inr (eof, None, ld', s'))
      else if fmt = 3 then
        (let (eof, ld', s') = readTrueColorSection q ops ld s1 in Inr (eof, None, ld', s'))
      else if fmt = 4 \<or> fmt = 5 then
        (let (fr, s') = readFormat5 q ops (fmt = 4) s1 in Inr (Option.is_none fr, fr, ld, s'))
      else
        (let (dataLength, s2) = ds_u32 ops s1;
             (numberOfPoints, s3) = ds_u32 ops s2
         in Inr (False, None, ld, ds_skip ops (sint dataLength) s3)))"

definition import_description :: "string \<Rightarrow> string" where
  "import_description filename = ''ILDA File import from : '' @ filename"

text \<open>
  The frames collected so far: \<open>frame\<close> and \<open>sequence\<close>. From the second frame on they are the
  children of a sequencer.
\<close>

definition collect_frame :: "string \<Rightarrow> ('c, 'f, 'm) fsource \<Rightarrow>
    ('c, 'f, 'm) fsource option \<times> ('c, 'f, 'm) fsource option \<Rightarrow>
    (('c, 'f, 'm) fsource option \<times> ('c, 'f, 'm) fsource option) res" where
  "collect_frame filename fr st = (case st of
     (frame, Some sequence) \<Rightarrow>
       rbind (addChild (Some fr) (- 1) sequence) (\<lambda>(_, sq). Inr (frame, Some sq))
   | (None, None) \<Rightarrow> Inr (Some fr, None)
   | (Some f, None) \<Rightarrow>
       (let sq = setDescription (import_description filename) FrameSequencer in
        rbind (addChild (Some f) (- 1) sq) (\<lambda>(_, sq1).
        rbind (addChild (Some fr) (- 1) sq1) (\<lambda>(_, sq2). Inr (Some f, Some sq2)))))"

definition ILDA_magic :: "u8 list" where
  "ILDA_magic = map (\<lambda>c. of_nat (of_char c)) ''ILDA''"

fun read_sections :: "nat \<Rightarrow> ('c, 'f, 'm) qt \<Rightarrow> 's data_stream \<Rightarrow> string \<Rightarrow> 'c ildaloader \<Rightarrow>
    ('c, 'f, 'm) fsource option \<times> ('c, 'f, 'm) fsource option \<Rightarrow> 's \<Rightarrow>
    (u32 \<times> ('c, 'f, 'm) fsource option \<times> ('c, 'f, 'm) fsource option) res" where
  "read_sections 0 q ops filename ld st s = Inl Out_of_fuel"
| "read_sections (Suc fuel) q ops filename ld st s =
     (if ds_atEnd ops s then Inr (0, st)
      else (let (buf, s1) = ds_raw ops 4 s in
        if buf \<noteq> ILDA_magic then Inr (2, st)
        else rbind (read_section q ops ld s1) (\<lambda>(eof, fr, ld', s2).
          rbind (case fr of None \<Rightarrow> Inr st | Some f \<Rightarrow> collect_frame filename f st) (\<lambda>st'.
            if eof then Inr (0, st') else read_sections fuel q ops filename ld' st' s2))))"

text \<open>\<open>load\<close>: a null stream is a file that does not open. The result is the source and the error.\<close>

definition load_ilda :: "nat \<Rightarrow> ('c, 'f, 'm) qt \<Rightarrow> 's data_stream \<Rightarrow> string \<Rightarrow> bool \<Rightarrow> 's option \<Rightarrow>
    (('c, 'f, 'm) fsource option \<times> u32) res" where
  "load_ilda fuel q ops filename pangolin infile = (case infile of
     None \<Rightarrow> Inr (None, 1)
   | Some s \<Rightarrow> rbind (default_palette q pangolin) (\<lambda>pal.
       rbind (read_sections fuel q ops filename
           \<lparr>ld_palette = pal, ld_trueColour = False, ld_colour = []\<rparr> (None, None) s)
         (\<lambda>(err, frame, sequence). case sequence of
            Some sq \<Rightarrow> rbind (addChild (Some sq) (- 1) (ColourRotator q)) (\<lambda>(_, r). Inr (Some r, err))
          | None \<Rightarrow> Inr (frame, err))))"

end
