(* ===== verification/Frame_Playing.thy ===== *)
theory Frame_Playing
  imports Frame_Source
begin

text \<open>
  What holds while a tree of frame sources is played: the index tables of the sequencers, the
  effect of the colour rotator, and the contract of \<open>nextFrame\<close>. The contract is the locale
  \<open>frame_player\<close>; the loops of the sequencer are clients of it (their children may be any player),
  and \<open>nextFrame\<close> itself is its interpretation, by induction on the depth of the tree.
\<close>

section \<open>Index tables\<close>

lemma unat_count: "N < 2 ^ 30 \<Longrightarrow> unat (of_nat N :: u32) = N"
  by (rule unat_of_nat_below) simp

lemma word_count_minus_1: "0 < N \<Longrightarrow> (of_nat N :: u32) - 1 = of_nat (N - 1)"
  by simp

lemma unat_table_size:
  assumes "0 < N" and "N < 2 ^ 30"
  shows "unat (table_size (of_nat N) mode) = (if mode = Pingpong then 2 * N - 1 else N)"
proof -
  have "(of_nat N :: u32) * 2 - 1 = of_nat (2 * N - 1)"
    using assms(1) by (simp add: of_nat_diff)
  moreover have "unat (of_nat (2 * N - 1) :: u32) = 2 * N - 1"
    by (rule unat_of_nat_below) (use assms in simp)
  ultimately show ?thesis using unat_count [OF assms(2)] by (simp add: table_size_def)
qed

lemma past_last_child:
  assumes "0 < N" and "N < 2 ^ 30" and "i < 2 ^ 31"
  shows "(of_nat N - 1 \<le> (of_nat i :: u32)) \<longleftrightarrow> N - 1 \<le> i"
proof -
  have "unat (of_nat (N - 1) :: u32) = N - 1" by (rule unat_of_nat_below) (use assms in simp)
  moreover have "unat (of_nat i :: u32) = i" by (rule unat_of_nat_below) (use assms in simp)
  ultimately show ?thesis using assms(1) by (simp only: word_count_minus_1 word_le_nat_alt)
qed

lemma fill_up:
  assumes "0 < N" and "N < 2 ^ 30" and "N \<le> M"
  shows "i \<le> N - 1 \<Longrightarrow> fill_index (of_nat N) [i..<M] 1 (int i) tbl =
    fill_index (of_nat N) [N - 1..<M] 1 (int (N - 1)) (tbl @ map of_nat [i..<N - 1])"
proof (induction "N - 1 - i" arbitrary: i tbl)
  case 0
  then have "i = N - 1" by simp
  then show ?case by simp
next
  case (Suc d)
  have i: "i < N - 1" using Suc.hyps(2) by simp
  have up: "[i..<M] = i # [Suc i..<M]" using i assms(3) by (simp add: upt_conv_Cons)
  have up': "[i..<N - 1] = i # [Suc i..<N - 1]" using i by (simp add: upt_conv_Cons)
  have nl: "\<not> of_nat N - 1 \<le> (of_nat i :: u32)"
    using i assms by (subst past_last_child) simp_all
  have "fill_index (of_nat N) [i..<M] 1 (int i) tbl =
      fill_index (of_nat N) [Suc i..<M] 1 (int (Suc i)) (tbl @ [of_nat i])"
    using i assms nl unfolding up by (simp add: Let_def add.commute)
  also have "\<dots> = fill_index (of_nat N) [N - 1..<M] 1 (int (N - 1))
      ((tbl @ [of_nat i]) @ map of_nat [Suc i..<N - 1])"
    by (rule Suc.hyps(1)) (use Suc.hyps(2) i in simp_all)
  finally show ?case unfolding up' by simp
qed

lemma fill_down:
  assumes "0 < N" and "N < 2 ^ 30" and "M < 2 ^ 31" and "k < 2 ^ 30"
  shows "N - 1 \<le> j \<Longrightarrow> j \<le> M \<Longrightarrow> int (M - j) \<le> k + 1 \<Longrightarrow> k < 2 ^ 30 \<Longrightarrow>
    fill_index (of_nat N) [j..<M] incr k tbl =
    Inr (tbl @ map (\<lambda>t. word_of_int (k - int t)) [0..<M - j])"
proof (induction "M - j" arbitrary: j k incr tbl)
  case 0
  then show ?case by simp
next
  case (Suc d)
  have j: "j < M" using Suc.hyps(2) by simp
  have up: "[j..<M] = j # [Suc j..<M]" using j by (simp add: upt_conv_Cons)
  have le: "of_nat N - 1 \<le> (of_nat j :: u32)"
    using Suc.prems(1) j assms by (subst past_last_child) simp_all
  have k: "0 \<le> k" using Suc.prems(3) j by linarith
  have "fill_index (of_nat N) [j..<M] incr k tbl =
      fill_index (of_nat N) [Suc j..<M] (- 1) (k - 1) (tbl @ [word_of_int k])"
    using le k Suc.prems(4) unfolding up by (simp add: Let_def)
  also have "\<dots> = Inr ((tbl @ [word_of_int k]) @
      map (\<lambda>t. word_of_int (k - 1 - int t)) [0..<M - Suc j])"
    by (rule Suc.hyps(1)) (use Suc.hyps(2) Suc.prems j in simp_all)
  also have "[0..<M - j] = 0 # map Suc [0..<M - Suc j]"
  proof -
    have "M - j = Suc (M - Suc j)" using j by simp
    then show ?thesis by (simp only: map_Suc_upt upt_rec [of 0 "Suc _"]) simp
  qed
  then have "(tbl @ [word_of_int k]) @ map (\<lambda>t. word_of_int (k - 1 - int t)) [0..<M - Suc j] =
      tbl @ map (\<lambda>t. word_of_int (k - int t) :: u32) [0..<M - j]"
    by (simp add: o_def algebra_simps)
  finally show ?case by simp
qed

definition table_order :: "nat \<Rightarrow> seq_mode \<Rightarrow> nat list" where
  "table_order N mode = (if mode = Pingpong then [0..<N] @ rev [0..<N - 1] else [0..<N])"

lemma countdown:
  "0 < N \<Longrightarrow> map (\<lambda>t. word_of_int (int (N - 1) - int t) :: u32) [0..<N] = map of_nat (rev [0..<N])"
  by (rule nth_equalityI) (simp_all add: rev_nth of_nat_diff)

lemma fill_index_table:
  assumes "0 < N" and "N < 2 ^ 30"
  shows "fill_index (of_nat N) [0..<unat (table_size (of_nat N) mode)] 1 0 [] =
    Inr (map of_nat (table_order N mode))"
proof -
  define M where "M = (if mode = Pingpong then 2 * N - 1 else N)"
  have M: "N \<le> M" "M < 2 ^ 31" using assms by (auto simp: M_def)
  have split_last: "[0..<N] = [0..<N - 1] @ [N - 1]"
    using assms(1) upt_Suc_append [of 0 "N - 1"] by simp
  have "fill_index (of_nat N) [0..<M] 1 (int 0) [] =
      fill_index (of_nat N) [N - 1..<M] 1 (int (N - 1)) ([] @ map of_nat [0..<N - 1])"
    by (rule fill_up) (use assms M in simp_all)
  also have "\<dots> = Inr (([] @ map of_nat [0..<N - 1]) @
      map (\<lambda>t. word_of_int (int (N - 1) - int t)) [0..<M - (N - 1)])"
    by (rule fill_down) (use assms M in \<open>auto simp: M_def\<close>)
  also have "\<dots> = Inr (map of_nat (table_order N mode))"
  proof (cases "mode = Pingpong")
    case True
    then have "M - (N - 1) = N" by (simp add: M_def)
    have "rev [0..<N] = (N - 1) # rev [0..<N - 1]" by (subst split_last) simp
    then have "[0..<N - 1] @ rev [0..<N] = table_order N mode"
      using True split_last by (simp add: table_order_def)
    then have "map of_nat [0..<N - 1] @ map of_nat (rev [0..<N]) =
        (map of_nat (table_order N mode) :: u32 list)"
      by (metis map_append)
    then show ?thesis
      using countdown [OF assms(1)] \<open>M - (N - 1) = N\<close> by (simp only: append_Nil)
  next
    case False
    then have "M - (N - 1) = 1" using assms(1) by (simp add: M_def)
    then show ?thesis using False split_last by (simp add: table_order_def)
  qed
  finally show ?thesis using unat_table_size [OF assms] by (simp add: M_def)
qed

definition table_ok :: "nat \<Rightarrow> seq_mode \<Rightarrow> u32 list \<Rightarrow> bool" where
  "table_ok N mode tbl \<longleftrightarrow>
     length tbl = length (table_order N mode) \<and> list_all (\<lambda>x. unat x < N) tbl"

lemma length_table_order:
  "0 < N \<Longrightarrow> length (table_order N mode) = (if mode = Pingpong then 2 * N - 1 else N)"
  by (auto simp: table_order_def)

lemma table_order_range: "0 < N \<Longrightarrow> i \<in> set (table_order N mode) \<Longrightarrow> i < N"
  by (auto simp: table_order_def split: if_splits)

text \<open>The table \<open>reset_index\<close> builds, for a sequencer with a child.\<close>

definition fresh_table :: "nat \<Rightarrow> seq_mode \<Rightarrow> (nat \<Rightarrow> nat) \<Rightarrow> u32 list" where
  "fresh_table N mode rnd =
     (let tbl = map of_nat (table_order N mode)
      in if mode = Random then random_shuffle rnd tbl else tbl)"

lemma reset_index_eq:
  assumes "0 < N" and "N < 2 ^ 30"
  shows "reset_index (of_nat N) mode rnd sp =
    Inr (sp\<lparr>qpb_index_tbl := fresh_table N mode rnd\<rparr>,
      if mode = Random then rand_advance (N - 1) rnd else rnd)"
  using fill_index_table [OF assms, of mode] assms(1)
  by (simp add: reset_index_def fresh_table_def length_table_order)

lemma fresh_table_ok:
  assumes "0 < N" and "N < 2 ^ 30"
  shows "table_ok N mode (fresh_table N mode rnd)"
proof -
  have "unat (of_nat i :: u32) < N" if "i \<in> set (table_order N mode)" for i
    using table_order_range [OF assms(1) that] assms(2) by (simp add: unat_count)
  then show ?thesis
    by (auto simp: table_ok_def fresh_table_def Let_def list_all_iff)
qed

section \<open>The effect of the rotator\<close>

text \<open>What is left of a frame without its colours.\<close>

type_synonym 'm skeleton = "'m \<times> (rat \<times> rat \<times> rat \<times> bool) list"

definition uncoloured :: "'c point \<Rightarrow> rat \<times> rat \<times> rat \<times> bool" where
  "uncoloured p = (pt_x p, pt_y p, pt_z p, pt_blanked p)"

definition skeleton :: "('c, 'm) frame \<Rightarrow> 'm skeleton" where
  "skeleton f = (fr_geometry f, map uncoloured (fr_points f))"

lemma uncoloured_recolour [simp]: "uncoloured (p\<lparr>pt_colour := c\<rparr>) = uncoloured p"
  by (simp add: uncoloured_def)

lemma uncoloured_set_rgb [simp]: "uncoloured (set_rgb q c p) = uncoloured p"
  by (simp add: set_rgb_def)

lemma skeleton_colourOverride [simp]: "skeleton (colourOverride q r f) = skeleton f"
  by (simp add: skeleton_def colourOverride_def)

lemma uncoloured_pulse_points [simp]:
  "map uncoloured (pulse_points q r incr phase ps) = map uncoloured ps"
  by (induction ps arbitrary: phase) simp_all

lemma skeleton_colourPulse: "colourPulse q r f pb = (f', pb') \<Longrightarrow> skeleton f' = skeleton f"
  by (auto simp: skeleton_def colourPulse_def split: if_splits)

lemma hsv_point_cases:
  "(case hsv_point q r phase p of Inl e \<Rightarrow> e = Diverges | Inr p' \<Rightarrow> uncoloured p' = uncoloured p)"
  by (simp add: hsv_point_def wrap_unit_def Let_def rbind_def split: option.splits sum.splits)

lemma hsv_points_cases:
  "(case hsv_points q r incr phase ps of Inl e \<Rightarrow> e = Diverges
    | Inr ps' \<Rightarrow> map uncoloured ps' = map uncoloured ps)"
proof (induction ps arbitrary: phase)
  case (Cons p ps)
  show ?case
    using hsv_point_cases [where q = q and r = r and phase = phase and p = p] Cons.IH [where phase = "advance_phase q phase incr"]
    by (cases "hsv_point q r phase p";
        cases "hsv_points q r incr (advance_phase q phase incr) ps") simp_all
qed simp

lemma rotator_effect_cases:
  "(case rotator_effect q r f pb of Inl e \<Rightarrow> e = Diverges
    | Inr (f', pb') \<Rightarrow> skeleton f' = skeleton f)"
proof -
  let ?f = "colourOverride q r f"
  have "case HSVRotator q r ?f pb of Inl e \<Rightarrow> e = Diverges
    | Inr (f', pb') \<Rightarrow> skeleton f' = skeleton f"
    using hsv_points_cases [where q = q and r = r and ps = "fr_points ?f"
        and incr = "f_div_nat q (rotate_harmonic r) (getPointCount ?f)"
        and phase = "rotator_start_phase pb"] skeleton_colourOverride [of q r f]
    by (auto simp: HSVRotator_def skeleton_def rbind_def split: sum.splits)
  then show ?thesis
    by (cases "HSVRotator q r ?f pb")
       (auto simp: rotator_effect_def split: prod.splits dest: skeleton_colourPulse)
qed

lemma rotator_effect_Inl: "rotator_effect q r f pb = Inl e \<Longrightarrow> e = Diverges"
  using rotator_effect_cases [where q = q and r = r and f = f and pb = pb] by simp

lemma rotator_effect_Inr: "rotator_effect q r f pb = Inr (f', pb') \<Longrightarrow> skeleton f' = skeleton f"
  using rotator_effect_cases [where q = q and r = r and f = f and pb = pb] by simp

section \<open>Trees and their playbacks\<close>

text \<open>A source up to the current mode of its sequencers, which \<open>nextFrame\<close> brings up to date.\<close>

definition settle_node :: "('c, 'f, 'm) node \<Rightarrow> ('c, 'f, 'm) node" where
  "settle_node n = (case n of Sequencer sq \<Rightarrow> Sequencer (sq\<lparr>sq_mode := sq_newMode sq\<rparr>) | _ \<Rightarrow> n)"

fun settle :: "('c, 'f, 'm) fsource \<Rightarrow> ('c, 'f, 'm) fsource" where
  "settle (Source n d cs) = Source (settle_node n) d (map settle cs)"

text \<open>The skeletons of the frames a tree can play, one for each static frame in it.\<close>

fun images :: "('c, 'f, 'm) qt \<Rightarrow> ('c, 'f, 'm) fsource \<Rightarrow> 'm skeleton list" where
  "images q (Source n d cs) =
     (case n of Static sf \<Rightarrow> [skeleton (static_image q sf)] | _ \<Rightarrow> concat (map (images q) cs))"

fun has_rotator :: "('c, 'f, 'm) fsource \<Rightarrow> bool" where
  "has_rotator (Source n d cs) =
     (case n of Rotator _ \<Rightarrow> True | _ \<Rightarrow> list_ex has_rotator cs)"

text \<open>A tree that can be played: no sequencer is empty, no rotator has two children.\<close>

fun playable :: "('c, 'f, 'm) fsource \<Rightarrow> bool" where
  "playable (Source n d cs) =
     ((case n of Static _ \<Rightarrow> True | Sequencer _ \<Rightarrow> cs \<noteq> [] \<and> length cs < 2 ^ 30
       | Rotator _ \<Rightarrow> length cs \<le> 1) \<and> list_all playable cs)"

text \<open>A playback of the form of its source, with tables that \<open>reset_index\<close> could have built.\<close>

fun playback_fits :: "('c, 'f, 'm) fsource \<Rightarrow> 'f playback \<Rightarrow> bool" where
  "playback_fits (Source n d cs) (Pb pn cps) =
     ((case (n, pn) of
         (Static _, Static_pb _) \<Rightarrow> True
       | (Sequencer sq, Sequencer_pb sp) \<Rightarrow>
           qpb_index_tbl sp = [] \<and> qpb_pos sp = 0 \<or>
           table_ok (length cs) (sq_mode sq) (qpb_index_tbl sp)
       | (Rotator _, Rotator_pb _) \<Rightarrow> True
       | _ \<Rightarrow> False)
      \<and> list_all2 playback_fits cs cps)"

lemma settle_node_simps [simp]:
  "settle_node (Static sf) = Static sf"
  "settle_node (Rotator r) = Rotator r"
  "settle_node (Sequencer sq) = Sequencer (sq\<lparr>sq_mode := sq_newMode sq\<rparr>)"
  by (simp_all add: settle_node_def)

lemma images_settle: "images q (settle s) = images q s"
  by (induction s rule: settle.induct)
     (simp add: settle_node_def o_def cong: map_cong split: node.splits)

lemma has_rotator_settle: "has_rotator (settle s) = has_rotator s"
  by (induction s rule: settle.induct)
     (simp add: settle_node_def list_ex_iff split: node.splits)

lemma height_settle: "height (settle s) = height s"
  by (induction s rule: settle.induct) (simp add: o_def cong: map_cong)

lemma playable_settle: "playable (settle s) = playable s"
  by (induction s rule: settle.induct)
     (simp add: settle_node_def list_all_iff split: node.splits)

lemma settled_same:
  assumes "settle s' = settle s"
  shows "images q s' = images q s" "has_rotator s' = has_rotator s" "height s' = height s"
    "playable s' = playable s"
  using assms images_settle [of q] has_rotator_settle height_settle playable_settle by metis+

lemma map_settled_same:
  assumes "map settle cs' = map settle cs"
  shows "length cs' = length cs" "list_ex has_rotator cs' = list_ex has_rotator cs"
    "concat (map (images q) cs') = concat (map (images q) cs)"
    "map height cs' = map height cs" "list_all playable cs' = list_all playable cs"
proof -
  show l: "length cs' = length cs" using assms by (metis length_map)
  have "map (images q) cs' = map (images q) (map settle cs')" "map (images q) (map settle cs) =
      map (images q) cs"
    by (simp_all add: images_settle)
  then show "concat (map (images q) cs') = concat (map (images q) cs)" using assms by metis
  have "map height cs' = map height (map settle cs')" "map height (map settle cs) = map height cs"
    by (simp_all add: height_settle)
  then show "map height cs' = map height cs" using assms by metis
  have "list_ex has_rotator cs' = list_ex has_rotator (map settle cs')"
    "list_ex has_rotator (map settle cs) = list_ex has_rotator cs"
    by (simp_all add: list_ex_iff has_rotator_settle)
  then show "list_ex has_rotator cs' = list_ex has_rotator cs" using assms by metis
  have "list_all playable cs' = list_all playable (map settle cs')"
    "list_all playable (map settle cs) = list_all playable cs"
    by (simp_all add: list_all_iff playable_settle)
  then show "list_all playable cs' = list_all playable cs" using assms by metis
qed

section \<open>The contract of nextFrame\<close>

text \<open>
  A player \<open>nf\<close> plays the children its owner holds: on a source and a playback that are \<open>ok\<close>
  it fails only by a loop of a rotator that does not end, it keeps them \<open>ok\<close> and the tree what
  it is, and its frames are images of the tree. The loops of the sequencer are clients.
\<close>

definition st_ok :: "(('c, 'f, 'm) fsource \<Rightarrow> 'f playback \<Rightarrow> bool) \<Rightarrow> seq_mode \<Rightarrow>
    ('c, 'f, 'm) seq_state \<Rightarrow> bool" where
  "st_ok ok mode st = (case st of (cs, sp, cps, rnd) \<Rightarrow>
     cs \<noteq> [] \<and> length cs < 2 ^ 30 \<and> list_all2 ok cs cps \<and>
     (qpb_index_tbl sp = [] \<and> qpb_pos sp = 0 \<or> table_ok (length cs) mode (qpb_index_tbl sp)))"

definition st_ready :: "seq_mode \<Rightarrow> ('c, 'f, 'm) seq_state \<Rightarrow> bool" where
  "st_ready mode st \<longleftrightarrow>
     table_ok (length (sources_of st)) mode (qpb_index_tbl (seq_of st))"

definition seq_outcome :: "('c, 'f, 'm) qt \<Rightarrow> (('c, 'f, 'm) fsource \<Rightarrow> 'f playback \<Rightarrow> bool) \<Rightarrow>
    seq_mode \<Rightarrow> ('c, 'f, 'm) fsource list \<Rightarrow>
    (('c, 'm) frame option \<times> ('c, 'f, 'm) seq_state) res \<Rightarrow> bool" where
  "seq_outcome q ok mode cs r = (case r of
     Inl e \<Rightarrow> e = Diverges \<and> list_ex has_rotator cs
   | Inr (fr, st') \<Rightarrow> st_ok ok mode st' \<and> map settle (sources_of st') = map settle cs \<and>
       (\<forall>f. fr = Some f \<longrightarrow> skeleton f \<in> set (concat (map (images q) cs))))"

lemma seq_outcome_cong:
  "map settle cs' = map settle cs \<Longrightarrow> seq_outcome q ok mode cs' r = seq_outcome q ok mode cs r"
  unfolding seq_outcome_def by (simp add: map_settled_same [of cs' cs] cong: sum.case_cong)

lemma table_ok_nonempty: "0 < N \<Longrightarrow> table_ok N mode tbl \<Longrightarrow> tbl \<noteq> []"
  by (auto simp: table_ok_def table_order_def split: if_splits)

lemma seq_index_ok:
  assumes N: "0 < N" "N < 2 ^ 30"
    and t: "qpb_index_tbl sp = [] \<and> unat (qpb_pos sp) = 0 \<or>
      table_ok N mode (qpb_index_tbl sp) \<and> unat (qpb_pos sp) < length (qpb_index_tbl sp)"
  shows "\<exists>pp sp' rnd'. seq_index (of_nat N) mode rnd sp = Inr (pp, sp', rnd') \<and> unat pp < N \<and>
    qpb_pos sp' = qpb_pos sp \<and> table_ok N mode (qpb_index_tbl sp')"
proof -
  have len: "unat (table_size (of_nat N) mode) = length (table_order N mode)"
    using N by (simp add: unat_table_size length_table_order)
  define sp1 where "sp1 = (if qpb_index_tbl sp = []
    then sp\<lparr>qpb_index_tbl := fresh_table N mode rnd\<rparr> else sp)"
  define rnd1 where "rnd1 = (if qpb_index_tbl sp = [] \<and> mode = Random
    then rand_advance (N - 1) rnd else rnd)"
  have ok1: "table_ok N mode (qpb_index_tbl sp1)"
    using t fresh_table_ok [OF N] by (auto simp: sp1_def)
  have pos1: "qpb_pos sp1 = qpb_pos sp" by (simp add: sp1_def)
  have l1: "length (qpb_index_tbl sp1) = length (table_order N mode)"
    using ok1 by (simp add: table_ok_def)
  have ne: "length (table_order N mode) > 0" using N(1) by (simp add: length_table_order)
  have lt: "unat (qpb_pos sp) < length (qpb_index_tbl sp1)"
    using t l1 ne by (auto simp: sp1_def table_ok_def)
  have built: "(if unat (table_size (of_nat N) mode) \<noteq> length (qpb_index_tbl sp)
      then reset_index (of_nat N) mode rnd sp else Inr (sp, rnd)) = Inr (sp1, rnd1)"
    using t ne len reset_index_eq [OF N, of mode rnd sp]
    by (auto simp: sp1_def rnd1_def table_ok_def)
  let ?pp = "qpb_index_tbl sp1 ! unat (qpb_pos sp)"
  have "?pp \<in> set (qpb_index_tbl sp1)" using lt by simp
  then have pp: "unat ?pp < N" using ok1 by (auto simp: table_ok_def list_all_iff)
  then have "?pp < of_nat N" using N(2) by (simp add: word_less_nat_alt unat_count)
  then have "seq_index (of_nat N) mode rnd sp = Inr (?pp, sp1, rnd1)"
    unfolding seq_index_def built using l1 len lt pos1 by simp
  then show ?thesis using pp pos1 ok1 by blast
qed

locale frame_player =
  fixes q :: "('c, 'f, 'm) qt" and now :: nat
    and nf :: "('c, 'f, 'm) player"
    and ok :: "('c, 'f, 'm) fsource \<Rightarrow> 'f playback \<Rightarrow> bool"
  assumes nf_fails: "ok s p \<Longrightarrow> nf s p rnd = Inl e \<Longrightarrow> e = Diverges \<and> has_rotator s"
    and nf_keeps: "ok s p \<Longrightarrow> nf s p rnd = Inr (fr, s', p', rnd') \<Longrightarrow>
      ok s' p' \<and> settle s' = settle s"
    and nf_frame: "ok s p \<Longrightarrow> nf s p rnd = Inr (Some f, s', p', rnd') \<Longrightarrow>
      skeleton f \<in> set (images q s)"
    and reset_ok: "ok s p \<Longrightarrow> \<exists>p' rnd'. reset_source q now s p rnd = Inr (p', rnd') \<and> ok s p'"
begin

lemma index_step_ok:
  assumes "st_ok ok mode st"
    and "st_ready mode st \<Longrightarrow> unat (qpb_pos (seq_of st)) < length (qpb_index_tbl (seq_of st))"
  shows "\<exists>pp st'. index_step mode st = Inr (pp, st') \<and> pp < length (sources_of st) \<and>
    st_ok ok mode st' \<and> st_ready mode st' \<and> sources_of st' = sources_of st"
proof -
  obtain cs sp cps rnd where st: "st = (cs, sp, cps, rnd)" by (cases st)
  have N: "0 < length cs" "length cs < 2 ^ 30" using assms(1) by (auto simp: st_ok_def st)
  have t: "qpb_index_tbl sp = [] \<and> unat (qpb_pos sp) = 0 \<or>
      table_ok (length cs) mode (qpb_index_tbl sp) \<and>
      unat (qpb_pos sp) < length (qpb_index_tbl sp)"
    using assms by (auto simp: st_ok_def st_ready_def st)
  obtain pp sp' rnd' where "seq_index (of_nat (length cs)) mode rnd sp = Inr (pp, sp', rnd')"
    "unat pp < length cs" "table_ok (length cs) mode (qpb_index_tbl sp')"
    using seq_index_ok [OF N t, of rnd] by blast
  then show ?thesis using assms(1) by (simp add: index_step_def st st_ok_def st_ready_def)
qed

lemma child_reset_ok:
  assumes "st_ok ok mode st" and "pp < length (sources_of st)"
  shows "\<exists>st'. child_reset q now pp st = Inr st' \<and> st_ok ok mode st'"
proof -
  obtain cs sp cps rnd where st: "st = (cs, sp, cps, rnd)" by (cases st)
  have l: "list_all2 ok cs cps" "pp < length cs" "pp < length cps"
    using assms by (auto simp: st_ok_def st dest: list_all2_lengthD)
  then obtain p' rnd' where "reset_source q now (cs ! pp) (cps ! pp) rnd = Inr (p', rnd')"
    "ok (cs ! pp) p'"
    using reset_ok [of "cs ! pp" "cps ! pp" rnd] list_all2_nthD by metis
  moreover have "list_all2 ok (cs[pp := cs ! pp]) (cps[pp := p'])"
    using l(1) calculation(2) by (rule list_all2_update_cong)
  ultimately show ?thesis using assms(1) l by (simp add: child_reset_def st st_ok_def)
qed

lemma reset_children_ok:
  "st_ok ok mode st \<Longrightarrow> \<forall>i \<in> set is. i < length (sources_of st) \<Longrightarrow>
   \<exists>st'. reset_children q now is st = Inr st' \<and> st_ok ok mode st'"
proof (induction "is" arbitrary: st)
  case (Cons i "is")
  obtain st1 where st1: "child_reset q now i st = Inr st1" "st_ok ok mode st1"
    using child_reset_ok [OF Cons.prems(1), of i] Cons.prems(2) by auto
  moreover have "sources_of st1 = sources_of st" using child_reset_keeps [OF st1(1)] by simp
  ultimately show ?case using Cons.IH [OF st1(2)] Cons.prems(2) by simp
qed simp

lemma child_next_outcome:
  assumes "st_ok ok mode st" and "pp < length (sources_of st)"
  shows "seq_outcome q ok mode (sources_of st) (child_next nf pp st)"
proof -
  obtain cs sp cps rnd where st: "st = (cs, sp, cps, rnd)" by (cases st)
  have l: "list_all2 ok cs cps" "pp < length cs" "pp < length cps"
    using assms by (auto simp: st_ok_def st dest: list_all2_lengthD)
  then have okp: "ok (cs ! pp) (cps ! pp)" by (auto dest: list_all2_nthD)
  have mem: "cs ! pp \<in> set cs" using l(2) by simp
  show ?thesis
  proof (cases "nf (cs ! pp) (cps ! pp) rnd")
    case (Inl e)
    then have "e = Diverges \<and> has_rotator (cs ! pp)" by (rule nf_fails [OF okp])
    then show ?thesis using Inl l mem by (auto simp: child_next_def st seq_outcome_def list_ex_iff)
  next
    case (Inr r)
    obtain fr c' p' rnd' where r: "r = (fr, c', p', rnd')" by (cases r)
    have k: "ok c' p'" "settle c' = settle (cs ! pp)" using nf_keeps [OF okp] Inr r by auto
    have a: "list_all2 ok (cs[pp := c']) (cps[pp := p'])"
      using l(1) k(1) by (rule list_all2_update_cong)
    have m: "map settle (cs[pp := c']) = map settle cs"
      using k(2) l(2) by (metis list_update_id map_update)
    have f: "skeleton f \<in> set (concat (map (images q) cs))" if "fr = Some f" for f
      using nf_frame [OF okp, of rnd f c' p' rnd'] Inr r that mem by auto
    show ?thesis using Inr r l a m f assms(1)
      by (simp add: child_next_def st seq_outcome_def st_ok_def)
  qed
qed

lemma advance_ok: "st_ok ok mode st \<Longrightarrow> st_ready mode st \<Longrightarrow> st_ok ok mode (advance_pos st)"
  by (auto simp: st_ok_def st_ready_def advance_pos_def split: prod.splits)

lemma advance_ready: "st_ready mode (advance_pos st) = st_ready mode st"
  by (simp add: st_ready_def)

lemma advance_in_table:
  assumes "st_ok ok mode st" and "st_ready mode st" and "\<not> at_end (seq_of st)"
  shows "unat (qpb_pos (seq_of (advance_pos st))) <
    length (qpb_index_tbl (seq_of (advance_pos st)))"
proof -
  obtain cs sp cps rnd where st: "st = (cs, sp, cps, rnd)" by (cases st)
  have N: "0 < length cs" "length cs < 2 ^ 30" using assms(1) by (auto simp: st_ok_def st)
  have t: "table_ok (length cs) mode (qpb_index_tbl sp)" using assms(2) by (simp add: st_ready_def st)
  have ne: "qpb_index_tbl sp \<noteq> []" using table_ok_nonempty [OF N(1) t] .
  have lt: "unat (qpb_pos sp) < length (qpb_index_tbl sp) - 1"
    using assms(3) ne by (simp add: at_end_def st)
  have "length (qpb_index_tbl sp) - 1 < 2 ^ 32"
    using t N by (auto simp: table_ok_def length_table_order)
  then have "unat (qpb_pos sp + 1) = unat (qpb_pos sp) + 1" by (rule unat_add_1_less [OF lt])
  then show ?thesis using lt by (simp add: st)
qed

lemma scan_outcome:
  "st_ok ok mode st \<Longrightarrow> st_ready mode st \<Longrightarrow>
   seq_outcome q ok mode (sources_of st) (seq_scan q now nf mode st)"
proof (induction "scan_measure mode st" arbitrary: st
    rule: wf_induct_rule [OF wf_lex_prod [OF wf_less_than wf_less_than]])
  case 1
  show ?case
  proof (cases "at_end (seq_of st)")
    case True
    then show ?thesis
      using 1(2) by (subst seq_scan.simps) (simp add: seq_outcome_def)
  next
    case False
    obtain pp st1 where s1: "index_step mode (advance_pos st) = Inr (pp, st1)"
      "pp < length (sources_of st)" "st_ok ok mode st1" "st_ready mode st1"
      "sources_of st1 = sources_of st"
      using index_step_ok [OF advance_ok [OF 1(2,3)]] advance_in_table [OF 1(2,3) False] by auto
    obtain st2 where s2: "child_reset q now pp st1 = Inr st2" "st_ok ok mode st2"
      using child_reset_ok [OF s1(3), of pp] s1(2,5) by auto
    have k2: "sources_of st2 = sources_of st" "seq_of st2 = seq_of st1"
      using child_reset_keeps [OF s2(1)] s1(5) by simp_all
    have o3: "seq_outcome q ok mode (sources_of st) (child_next nf pp st2)"
      using child_next_outcome [OF s2(2), of pp] s1(2) k2 by simp
    show ?thesis
    proof (cases "child_next nf pp st2")
      case (Inl e)
      then show ?thesis using o3 s1(1) s2(1) False
        by (subst seq_scan.simps) (simp add: seq_outcome_def)
    next
      case (Inr r)
      obtain fr st3 where r: "r = (fr, st3)" by (cases r)
      have run: "seq_scan q now nf mode st = (case fr of Some f \<Rightarrow> Inr (Some f, st3)
          | None \<Rightarrow> seq_scan q now nf mode st3)"
        using Inr r s1(1) s2(1) False by (subst seq_scan.simps) simp
      have st3: "st_ok ok mode st3" "map settle (sources_of st3) = map settle (sources_of st)"
        using o3 Inr r by (simp_all add: seq_outcome_def)
      have k3: "seq_of st3 = seq_of st1" "length (sources_of st3) = length (sources_of st1)"
        using child_next_keeps [of nf pp st2 fr st3] Inr r k2 s1(5) by auto
      have rdy: "st_ready mode st3" using s1(4) k3 by (simp add: st_ready_def)
      show ?thesis
      proof (cases fr)
        case None
        have "(scan_measure mode st3, scan_measure mode st) \<in> less_than <*lex*> less_than"
          using scan_step_decreases [OF False s1(1) s2(1)] Inr r by blast
        then have "seq_outcome q ok mode (sources_of st3) (seq_scan q now nf mode st3)"
          using 1(1) st3(1) rdy by blast
        then show ?thesis using run None seq_outcome_cong [OF st3(2)] by simp
      next
        case (Some f)
        then show ?thesis using run o3 Inr r by simp
      qed
    qed
  qed
qed

lemma round_start_ok:
  assumes "st_ok ok mode st"
  shows "\<exists>go st'. round_start q now mode repeats st = Inr (go, st') \<and> st_ok ok mode st' \<and>
    sources_of st' = sources_of st \<and>
    (go \<longrightarrow> st_ready mode st' \<longrightarrow>
      unat (qpb_pos (seq_of st')) < length (qpb_index_tbl (seq_of st')))"
proof -
  obtain cs sp cps rnd where st: "st = (cs, sp, cps, rnd)" by (cases st)
  have N: "0 < length cs" "length cs < 2 ^ 30" using assms by (auto simp: st_ok_def st)
  have okt: "st_ok ok mode (cs, sp'\<lparr>qpb_index_tbl := fresh_table (length cs) mode rnd\<rparr>, cps, rnd')"
    for sp' rnd' using assms fresh_table_ok [OF N, of mode rnd] by (simp add: st_ok_def st)
  have ready: "unat (qpb_pos sp) < length (qpb_index_tbl sp)"
    if "\<not> at_end sp" "table_ok (length cs) mode (qpb_index_tbl sp)"
    using that table_ok_nonempty [OF N(1) that(2)] by (auto simp: at_end_def)
  consider (going) "\<not> at_end sp" | (finished) "at_end sp" "qpb_repeats_done sp \<ge> repeats"
    | (again) "at_end sp" "\<not> qpb_repeats_done sp \<ge> repeats" by blast
  then show ?thesis
  proof cases
    case going
    then show ?thesis using assms ready
      by (auto simp: round_start_def st st_ready_def)
  next
    case finished
    then show ?thesis using okt
      by (auto simp: round_start_def st seq_reset_def reset_index_eq [OF N])
  next
    case again
    let ?sp = "sp\<lparr>qpb_repeats_done := qpb_repeats_done sp + 1, qpb_pos := 0,
      qpb_index_tbl := fresh_table (length cs) mode rnd\<rparr>"
    let ?rnd = "if mode = Random then rand_advance (length cs - 1) rnd else rnd"
    obtain st1 where st1: "reset_children q now [0..<length cs] (cs, ?sp, cps, ?rnd) = Inr st1"
      "st_ok ok mode st1"
      using reset_children_ok [OF okt [of "sp\<lparr>qpb_repeats_done := qpb_repeats_done sp + 1,
        qpb_pos := 0\<rparr>" ?rnd], of "[0..<length cs]"] by auto
    have k: "seq_of st1 = ?sp" "sources_of st1 = cs" using reset_children_keeps [OF st1(1)] by auto
    have "round_start q now mode repeats st = Inr (True, st1)"
      using again st1(1) by (simp add: round_start_def st reset_index_eq [OF N])
    moreover have "fresh_table (length cs) mode rnd \<noteq> []"
      using table_ok_nonempty [OF N(1) fresh_table_ok [OF N]] .
    moreover have "unat (qpb_pos (seq_of st1)) < length (qpb_index_tbl (seq_of st1))"
      using calculation(2) k by simp
    ultimately show ?thesis using st1(2) k st by (metis fst_conv)
  qed
qed

lemma loop_outcome:
  "st_ok ok mode st \<Longrightarrow>
   seq_outcome q ok mode (sources_of st) (seq_loop q now nf mode repeats st)"
proof (induction "loop_measure repeats st" arbitrary: st rule: less_induct)
  case less
  obtain go st1 where s1: "round_start q now mode repeats st = Inr (go, st1)"
    "st_ok ok mode st1" "sources_of st1 = sources_of st"
    "go \<Longrightarrow> st_ready mode st1 \<Longrightarrow> unat (qpb_pos (seq_of st1)) < length (qpb_index_tbl (seq_of st1))"
    using round_start_ok [OF less.prems, of repeats] by blast
  show ?case
  proof (cases go)
    case False
    then show ?thesis using s1 by (subst seq_loop.simps) (simp add: seq_outcome_def)
  next
    case True
    obtain pp st2 where s2: "index_step mode st1 = Inr (pp, st2)" "pp < length (sources_of st)"
      "st_ok ok mode st2" "st_ready mode st2" "sources_of st2 = sources_of st"
      using index_step_ok [OF s1(2) s1(4) [OF True]] s1(3) by auto
    have o3: "seq_outcome q ok mode (sources_of st) (child_next nf pp st2)"
      using child_next_outcome [OF s2(3), of pp] s2(2,5) by simp
    show ?thesis
    proof (cases "child_next nf pp st2")
      case (Inl e)
      then show ?thesis using o3 s1(1) s2(1) True
        by (subst seq_loop.simps) (simp add: seq_outcome_def)
    next
      case (Inr r)
      obtain fr st3 where r: "r = (fr, st3)" by (cases r)
      have run: "seq_loop q now nf mode repeats st = (case fr of Some f \<Rightarrow> Inr (Some f, st3)
          | None \<Rightarrow> rbind (seq_scan q now nf mode st3) (\<lambda>(fr', st4).
              case fr' of Some f \<Rightarrow> Inr (Some f, st4)
              | None \<Rightarrow> seq_loop q now nf mode repeats st4))"
        using Inr r s1(1) s2(1) True by (subst seq_loop.simps) simp
      have st3: "st_ok ok mode st3" "map settle (sources_of st3) = map settle (sources_of st)"
        using o3 Inr r by (simp_all add: seq_outcome_def)
      have rdy: "st_ready mode st3"
        using child_next_keeps [of nf pp st2 fr st3] Inr r s2(4,5) by (simp add: st_ready_def)
      have o4: "seq_outcome q ok mode (sources_of st) (seq_scan q now nf mode st3)"
        using scan_outcome [OF st3(1) rdy] seq_outcome_cong [OF st3(2)] by simp
      show ?thesis
      proof (cases fr)
        case (Some f)
        then show ?thesis using run o3 Inr r by simp
      next
        case None
        show ?thesis
        proof (cases "seq_scan q now nf mode st3")
          case (Inl e)
          then show ?thesis using run None o4 by (simp add: seq_outcome_def)
        next
          case (Inr r4)
          obtain fr' st4 where r4: "r4 = (fr', st4)" by (cases r4)
          have st4: "st_ok ok mode st4" "map settle (sources_of st4) = map settle (sources_of st)"
            using o4 Inr r4 by (simp_all add: seq_outcome_def)
          show ?thesis
          proof (cases fr')
            case (Some f)
            then show ?thesis using run None o4 Inr r4 by simp
          next
            case none': None
            have "loop_measure repeats st4 < loop_measure repeats st"
              using loop_step_decreases [of q now mode repeats st st1 pp st2 nf fr st3 st4]
                s1(1) True s2(1) \<open>child_next nf pp st2 = Inr r\<close> r Inr r4 none' by simp
            then have "seq_outcome q ok mode (sources_of st4) (seq_loop q now nf mode repeats st4)"
              by (rule less.hyps [OF _ st4(1)])
            then show ?thesis
              using run None Inr r4 none' seq_outcome_cong [OF st4(2)] by simp
          qed
        qed
      qed
    qed
  qed
qed

lemma seq_next_outcome:
  assumes "st_ok ok (sq_mode sq) st"
  shows "(case seq_next q now nf sq st of
      Inl e \<Rightarrow> e = Diverges \<and> list_ex has_rotator (sources_of st)
    | Inr (fr, sq', st') \<Rightarrow> sq_mode sq' = sq_newMode sq \<and> sq' = sq\<lparr>sq_mode := sq_newMode sq\<rparr> \<and>
        seq_outcome q ok (sq_newMode sq) (sources_of st) (Inr (fr, st')))"
proof -
  obtain cs sp cps rnd where st: "st = (cs, sp, cps, rnd)" by (cases st)
  have N: "0 < length cs" "length cs < 2 ^ 30" using assms by (auto simp: st_ok_def st)
  let ?m = "sq_newMode sq"
  define sp1 where "sp1 = (if sq_mode sq = ?m then sp
    else sp\<lparr>qpb_index_tbl := fresh_table (length cs) ?m rnd\<rparr>)"
  define rnd1 where "rnd1 = (if sq_mode sq \<noteq> ?m \<and> ?m = Random
    then rand_advance (length cs - 1) rnd else rnd)"
  have ok1: "st_ok ok ?m (cs, sp1, cps, rnd1)"
    using assms fresh_table_ok [OF N] by (auto simp: st_ok_def st sp1_def)
  have same: "sq = sq\<lparr>sq_mode := ?m\<rparr>" if "sq_mode sq = ?m" using that by simp
  have run: "seq_next q now nf sq st =
      rbind (seq_loop q now nf ?m (sq_repeats sq) (cs, sp1, cps, rnd1))
        (\<lambda>(fr, st2). Inr (fr, sq\<lparr>sq_mode := ?m\<rparr>, st2))"
    by (cases "sq_mode sq = ?m")
       (simp_all add: seq_next_def st sp1_def rnd1_def reset_index_eq [OF N] same [symmetric])
  have "seq_outcome q ok ?m cs (seq_loop q now nf ?m (sq_repeats sq) (cs, sp1, cps, rnd1))"
    using loop_outcome [OF ok1] by simp
  then show ?thesis
    unfolding run
    by (cases "seq_loop q now nf ?m (sq_repeats sq) (cs, sp1, cps, rnd1)")
       (auto simp: seq_outcome_def st)
qed

lemma rotator_next_outcome:
  assumes "list_all2 ok cs cps" and "length cs \<le> 1"
  shows "(case rotator_next q now nf r cs rp cps rnd of
      Inl e \<Rightarrow> e = Diverges
    | Inr (fr, cs', rp', cps', rnd') \<Rightarrow> list_all2 ok cs' cps' \<and> map settle cs' = map settle cs \<and>
        (\<forall>f. fr = Some f \<longrightarrow> skeleton f \<in> set (concat (map (images q) cs))))"
proof (cases cs)
  case Nil
  then show ?thesis using assms(1) by (simp add: rotator_next_def)
next
  case (Cons c cs')
  have cs: "cs = [c]" using Cons assms(2) by simp
  obtain cp where cps: "cps = [cp]" and okc: "ok c cp"
    using assms(1) cs by (auto simp: list_all2_Cons1)
  show ?thesis
  proof (cases "nf c cp rnd")
    case (Inl e)
    then show ?thesis using nf_fails [OF okc Inl] by (simp add: rotator_next_def cs cps)
  next
    case (Inr x)
    obtain fr c1 cp1 rnd1 where x: "x = (fr, c1, cp1, rnd1)" by (cases x)
    have k: "ok c1 cp1" "settle c1 = settle c" using nf_keeps [OF okc] Inr x by auto
    show ?thesis
    proof (cases fr)
      case None
      then show ?thesis using Inr x k reset_ok [OF k(1), of rnd1]
        by (auto simp: rotator_next_def cs cps)
    next
      case (Some f)
      have f: "skeleton f \<in> set (images q c)" using nf_frame [OF okc] Inr x Some by blast
      show ?thesis
      proof (cases "rotator_effect q r f rp")
        case (Inl e)
        then show ?thesis using Inr x Some rotator_effect_Inl [OF Inl]
          by (simp add: rotator_next_def cs cps)
      next
        case e: (Inr y)
        obtain f' rp' where y: "y = (f', rp')" by (cases y)
        have "skeleton f' = skeleton f" using rotator_effect_Inr e y by blast
        then show ?thesis using Inr x Some e y k f by (simp add: rotator_next_def cs cps)
      qed
    qed
  qed
qed

end

section \<open>nextFrame keeps the contract\<close>

lemma fold_max_le: "fold max xs a \<le> (n :: nat) \<longleftrightarrow> a \<le> n \<and> (\<forall>x \<in> set xs. x \<le> n)"
  by (induction xs arbitrary: a) auto

lemma height_le_Suc:
  "height (Source n d cs) \<le> Suc k \<longleftrightarrow> (\<forall>c \<in> set cs. height c \<le> k)"
  by (simp add: fold_max_le)

definition play_ok :: "nat \<Rightarrow> ('c, 'f, 'm) fsource \<Rightarrow> 'f playback \<Rightarrow> bool" where
  "play_ok k s p \<longleftrightarrow> playable s \<and> playback_fits s p \<and> height s \<le> k"

lemma fits_cases:
  assumes "playback_fits (Source n d cs) (Pb pn cps)"
  obtains (st) sf sp where "n = Static sf" "pn = Static_pb sp"
    | (sq) sq sp where "n = Sequencer sq" "pn = Sequencer_pb sp"
        "qpb_index_tbl sp = [] \<and> qpb_pos sp = 0 \<or>
         table_ok (length cs) (sq_mode sq) (qpb_index_tbl sp)"
    | (rot) r rp where "n = Rotator r" "pn = Rotator_pb rp"
  using assms by (cases n; cases pn) auto

lemma play_ok_children:
  assumes "play_ok (Suc k) (Source n d cs) (Pb pn cps)"
  shows "list_all2 (play_ok k) cs cps"
  using assms unfolding play_ok_def height_le_Suc
  by (auto simp: list_all2_conv_all_nth list_all_length)

lemma play_ok_reset:
  "play_ok k s p \<Longrightarrow> \<exists>p' rnd'. reset_source q now s p rnd = Inr (p', rnd') \<and> play_ok k s p'"
proof (induction k arbitrary: s p)
  case 0
  then show ?case by (cases s) (simp add: play_ok_def)
next
  case (Suc k)
  obtain n d cs where s: "s = Source n d cs" by (cases s)
  obtain pn cps where p: "p = Pb pn cps" by (cases p)
  have fits: "playback_fits (Source n d cs) (Pb pn cps)"
    and h: "height s \<le> Suc k" and pl: "playable (Source n d cs)"
    using Suc.prems by (simp_all add: play_ok_def s p)
  have ch: "list_all2 (play_ok k) cs cps"
    using Suc.prems unfolding s p by (rule play_ok_children)
  from fits show ?case
  proof (cases rule: fits_cases)
    case (st sf sp)
    then show ?thesis using Suc.prems by (simp add: play_ok_def s p)
  next
    case (sq sq sp)
    have N: "0 < length cs" "length cs < 2 ^ 30" using pl sq(1) by simp_all
    show ?thesis
      using Suc.prems sq(1,2) fresh_table_ok [OF N]
      by (simp add: play_ok_def s p seq_reset_def reset_index_eq [OF N])
  next
    case (rot r rp)
    show ?thesis
    proof (cases cs)
      case Nil
      then show ?thesis using Suc.prems rot by (simp add: play_ok_def s p)
    next
      case (Cons c cs')
      have cs: "cs = [c]" using Cons pl rot(1) by simp
      then obtain cp where cps: "cps = [cp]" and okc: "play_ok k c cp"
        using ch by (auto simp: list_all2_Cons1)
      obtain cp' rnd' where "reset_source q now c cp rnd = Inr (cp', rnd')" "play_ok k c cp'"
        using Suc.IH [OF okc] by blast
      then show ?thesis using Suc.prems rot cs cps by (simp add: play_ok_def s p Let_def)
    qed
  qed
qed

lemma play_ok_Inr_seq:
  assumes "playable (Source (Sequencer sq) d cs)" and "height (Source (Sequencer sq) d cs) \<le> Suc k"
    and "st_ok (play_ok k) (sq_newMode sq) (cs', sp', cps', rnd')"
    and "map settle cs' = map settle cs"
  shows "play_ok (Suc k) (Source (Sequencer (sq\<lparr>sq_mode := sq_newMode sq\<rparr>)) d cs')
    (Pb (Sequencer_pb sp') cps')"
proof -
  let ?s = "Source (Sequencer (sq\<lparr>sq_mode := sq_newMode sq\<rparr>)) d cs'"
  have "settle ?s = settle (Source (Sequencer sq) d cs)" using assms(4) by simp
  then have "playable ?s" "height ?s \<le> Suc k"
    using assms(1,2) settled_same by metis+
  moreover have "list_all2 playback_fits cs' cps'"
    using assms(3) by (auto simp: st_ok_def play_ok_def elim: list_all2_mono)
  ultimately show ?thesis using assms(3) by (simp add: play_ok_def st_ok_def)
qed

lemma play_ok_st:
  assumes "play_ok (Suc k) (Source (Sequencer sq) d cs) (Pb (Sequencer_pb sp) cps)"
  shows "st_ok (play_ok k) (sq_mode sq) (cs, sp, cps, rnd)"
  using assms play_ok_children [OF assms] by (simp add: st_ok_def play_ok_def)

definition step_ok :: "('c, 'f, 'm) qt \<Rightarrow> nat \<Rightarrow> ('c, 'f, 'm) fsource \<Rightarrow>
    (('c, 'm) frame option \<times> ('c, 'f, 'm) fsource \<times> 'f playback \<times> (nat \<Rightarrow> nat)) res \<Rightarrow> bool" where
  "step_ok q k s r = (case r of
     Inl e \<Rightarrow> e = Diverges \<and> has_rotator s
   | Inr (fr, s', p', rnd') \<Rightarrow> play_ok k s' p' \<and> settle s' = settle s \<and>
       (\<forall>f. fr = Some f \<longrightarrow> skeleton f \<in> set (images q s)))"

lemma frame_player_step_ok:
  assumes "\<And>s p rnd. play_ok k s p \<Longrightarrow> step_ok q k s (nf s p rnd)"
  shows "frame_player q now nf (play_ok k)"
proof
  fix s p rnd e
  assume "play_ok k s p" and "nf s p rnd = Inl e"
  then show "e = Diverges \<and> has_rotator s" using assms [of s p rnd] by (simp add: step_ok_def)
next
  fix s p rnd fr s' p' rnd'
  assume "play_ok k s p" and "nf s p rnd = Inr (fr, s', p', rnd')"
  then show "play_ok k s' p' \<and> settle s' = settle s"
    using assms [of s p rnd] by (simp add: step_ok_def)
next
  fix s p rnd f s' p' rnd'
  assume "play_ok k s p" and "nf s p rnd = Inr (Some f, s', p', rnd')"
  then show "skeleton f \<in> set (images q s)" using assms [of s p rnd] by (simp add: step_ok_def)
qed (rule play_ok_reset)

lemma next_frame_step:
  assumes pl: "frame_player q now (next_frame k q now) (play_ok k)"
    and ok: "play_ok (Suc k) s p"
  shows "step_ok q (Suc k) s (next_frame (Suc k) q now s p rnd)"
proof -
  obtain n d cs where s: "s = Source n d cs" by (cases s)
  obtain pn cps where p: "p = Pb pn cps" by (cases p)
  have fits: "playback_fits (Source n d cs) (Pb pn cps)"
    and h: "height (Source n d cs) \<le> Suc k" and plb: "playable (Source n d cs)"
    using ok by (simp_all add: play_ok_def s p del: height.simps)
  from fits show ?thesis
  proof (cases rule: fits_cases)
    case (st sf sp)
    then show ?thesis using ok
      by (auto simp: s p step_ok_def static_next_def Let_def play_ok_def)
  next
    case (sq sq sp)
    have st: "st_ok (play_ok k) (sq_mode sq) (cs, sp, cps, rnd)"
      using ok play_ok_st unfolding s p sq(1,2) by blast
    show ?thesis
    proof (cases "seq_next q now (next_frame k q now) sq (cs, sp, cps, rnd)")
      case (Inl e)
      then show ?thesis
        using frame_player.seq_next_outcome [OF pl st] by (simp add: s p sq(1,2) step_ok_def)
    next
      case (Inr x)
      obtain fr sq' cs' sp' cps' rnd' where x: "x = (fr, sq', cs', sp', cps', rnd')" by (cases x)
      have o: "sq' = sq\<lparr>sq_mode := sq_newMode sq\<rparr>"
        "seq_outcome q (play_ok k) (sq_newMode sq) cs (Inr (fr, cs', sp', cps', rnd'))"
        using frame_player.seq_next_outcome [OF pl st] Inr x by simp_all
      have "play_ok (Suc k) (Source (Sequencer sq') d cs') (Pb (Sequencer_pb sp') cps')"
        unfolding o(1)
        by (rule play_ok_Inr_seq [where rnd' = rnd', OF plb [unfolded sq(1)] h [unfolded sq(1)]])
           (use o(2) in \<open>simp_all add: seq_outcome_def\<close>)
      then show ?thesis using Inr x o by (simp add: s p sq(1,2) step_ok_def seq_outcome_def)
    qed
  next
    case (rot r rp)
    have l: "list_all2 (play_ok k) cs cps" "length cs \<le> 1"
      using ok play_ok_children plb rot(1) unfolding s p by auto
    note oc = frame_player.rotator_next_outcome [OF pl l, where r = r and rp = rp and rnd = rnd]
    show ?thesis
    proof (cases "rotator_next q now (next_frame k q now) r cs rp cps rnd")
      case (Inl e)
      then show ?thesis using oc by (simp add: s p rot step_ok_def)
    next
      case (Inr x)
      obtain fr cs' rp' cps' rnd' where x: "x = (fr, cs', rp', cps', rnd')" by (cases x)
      have o: "list_all2 (play_ok k) cs' cps'" "map settle cs' = map settle cs"
        "\<forall>f. fr = Some f \<longrightarrow> skeleton f \<in> set (concat (map (images q) cs))"
        using oc Inr x by simp_all
      let ?s = "Source (Rotator r) d cs'"
      have same: "settle ?s = settle s" using o(2) by (simp add: s rot(1))
      then have "playable ?s" "height ?s \<le> Suc k"
        using plb h s settled_same by metis+
      moreover have "list_all2 playback_fits cs' cps'"
        using o(1) by (auto simp: play_ok_def elim: list_all2_mono)
      ultimately have "play_ok (Suc k) ?s (Pb (Rotator_pb rp') cps')"
        by (simp add: play_ok_def del: height.simps)
      then show ?thesis using Inr x o same by (simp add: s p rot step_ok_def)
    qed
  qed
qed

lemma play_ok_0 [simp]: "\<not> play_ok 0 s p"
  by (cases s) (simp add: play_ok_def)

lemma next_frame_player: "frame_player q now (next_frame k q now) (play_ok k)"
proof (induction k)
  case 0
  show ?case by (intro frame_player_step_ok) simp
next
  case (Suc k)
  show ?case by (intro frame_player_step_ok next_frame_step [OF Suc])
qed

definition fits :: "('c, 'f, 'm) fsource \<Rightarrow> 'f playback \<Rightarrow> bool" where
  "fits s p \<longleftrightarrow> playable s \<and> playback_fits s p"

lemma fits_play_ok: "fits s p \<longleftrightarrow> play_ok (height s) s p"
  by (simp add: fits_def play_ok_def)

interpretation playing: frame_player q now "nextFrame q now" fits for q now
proof
  fix s p rnd e
  assume "fits s p" and "nextFrame q now s p rnd = Inl e"
  then show "e = Diverges \<and> has_rotator s"
    using frame_player.nf_fails [OF next_frame_player] by (simp add: nextFrame_def fits_play_ok)
next
  fix s p rnd fr s' p' rnd'
  assume "fits s p" and "nextFrame q now s p rnd = Inr (fr, s', p', rnd')"
  then show "fits s' p' \<and> settle s' = settle s"
    using frame_player.nf_keeps [OF next_frame_player, of "height s" s p]
    by (simp add: nextFrame_def fits_def play_ok_def) 
next
  fix s p rnd f s' p' rnd'
  assume "fits s p" and "nextFrame q now s p rnd = Inr (Some f, s', p', rnd')"
  then show "skeleton f \<in> set (images q s)"
    using frame_player.nf_frame [OF next_frame_player] by (simp add: nextFrame_def fits_play_ok)
next
  fix s :: "('a, 'b, 'c) fsource" and p :: "'b playback" and rnd
  assume "fits s p"
  then show "\<exists>p' rnd'. reset_source q now s p rnd = Inr (p', rnd') \<and> fits s p'"
    using play_ok_reset [of "height s" s p] by (auto simp: fits_play_ok)
qed

section \<open>Runs\<close>

datatype play_op = Next nat | Reset nat \<comment> \<open>with the reading of the clock\<close>

fun play_run :: "('c, 'f, 'm) qt \<Rightarrow> play_op list \<Rightarrow> ('c, 'f, 'm) fsource \<Rightarrow> 'f playback \<Rightarrow>
    (nat \<Rightarrow> nat) \<Rightarrow> (('c, 'm) frame option list \<times> ('c, 'f, 'm) fsource \<times> 'f playback \<times>
      (nat \<Rightarrow> nat)) res" where
  "play_run q [] s p rnd = Inr ([], s, p, rnd)"
| "play_run q (Next now # ops) s p rnd =
     rbind (nextFrame q now s p rnd) (\<lambda>(fr, s', p', rnd').
     rbind (play_run q ops s' p' rnd') (\<lambda>(frs, r). Inr (fr # frs, r)))"
| "play_run q (Reset now # ops) s p rnd =
     rbind (reset_source q now s p rnd) (\<lambda>(p', rnd'). play_run q ops s p' rnd')"

lemma createPlayback_Pb:
  "createPlayback q (Source n d cs) =
     Pb (pb_node (newPlayback q n)) (map (createPlayback q) cs)"
proof -
  have "foldl (\<lambda>p c. snd (pb_addChild (createPlayback q c) (- 1) p)) (Pb pn cps) cs =
      Pb pn (cps @ map (createPlayback q) cs)" for pn cps
    by (induction cs arbitrary: cps) (simp_all add: pb_addChild_def)
  moreover have "newPlayback q n = Pb (pb_node (newPlayback q n)) []"
    by (simp add: newPlayback_defs split: node.splits)
  ultimately show ?thesis by (metis append_Nil createPlayback.simps)
qed

lemma createPlayback_fits: "playback_fits s (createPlayback q s)"
proof (induction s)
  case (Source n d cs)
  then have "list_all2 playback_fits cs (map (createPlayback q) cs)"
    by (auto simp: list_all2_conv_all_nth)
  then show ?case
    unfolding createPlayback_Pb by (cases n) (simp_all add: newPlayback_defs)
qed

lemma play_run_outcome:
  "fits s p \<Longrightarrow> (case play_run q ops s p rnd of
     Inl e \<Rightarrow> e = Diverges \<and> has_rotator s
   | Inr (frs, s', p', rnd') \<Rightarrow> fits s' p' \<and> settle s' = settle s \<and>
       (\<forall>f. Some f \<in> set frs \<longrightarrow> skeleton f \<in> set (images q s)))"
proof (induction ops arbitrary: s p rnd)
  case (Cons op ops)
  show ?case
  proof (cases op)
    case (Next now)
    show ?thesis
    proof (cases "nextFrame q now s p rnd")
      case (Inl e)
      then show ?thesis using playing.nf_fails [OF Cons.prems] Next by simp
    next
      case (Inr x)
      obtain fr s1 p1 rnd1 where x: "x = (fr, s1, p1, rnd1)" by (cases x)
      have k: "fits s1 p1" "settle s1 = settle s"
        using playing.nf_keeps [OF Cons.prems] Inr x by blast+
      have f: "fr = Some f \<Longrightarrow> skeleton f \<in> set (images q s)" for f
        using playing.nf_frame [OF Cons.prems] Inr x by blast
      show ?thesis
        using Cons.IH [OF k(1), of rnd1] f Next Inr x k(2) settled_same(1,2) [OF k(2)]
        by (cases "play_run q ops s1 p1 rnd1") auto
    qed
  next
    case (Reset now)
    obtain p1 rnd1 where "reset_source q now s p rnd = Inr (p1, rnd1)" "fits s p1"
      using playing.reset_ok [OF Cons.prems] by blast
    then show ?thesis using Cons.IH Reset by simp
  qed
qed simp

section \<open>Properties\<close>

text \<open>
  C2. A playable tree never fails an assertion, never reads outside a table and never runs out of
  the fuel of the model, whatever calls of nextFrame and reset are made on the playback created
  for it: the only way not to return is a loop of a colour rotator that does not end. The tree
  is the same afterwards up to the current mode of its sequencers, and every frame played has
  the geometry, the positions and the blanking of a static frame of the tree.
\<close>

theorem playing_is_safe:
  assumes "playable s"
  shows "(case play_run q ops s (createPlayback q s) rnd of
     Inl e \<Rightarrow> e = Diverges \<and> has_rotator s
   | Inr (frs, s', p', rnd') \<Rightarrow> settle s' = settle s \<and>
       (\<forall>f. Some f \<in> set frs \<longrightarrow> skeleton f \<in> set (images q s)))"
proof -
  have "fits s (createPlayback q s)"
    using assms createPlayback_fits by (simp add: fits_def)
  from play_run_outcome [OF this, where q = q and ops = ops and rnd = rnd]
  show ?thesis by (auto split: sum.splits)
qed

text \<open>A tree for the examples: a sequencer over a static frame and a rotator.\<close>

definition demo_point :: ilda_point where
  "demo_point = ILDAPoint\<lparr>ip_x := 16384, ip_blanked := False, ip_r := 255\<rparr>"

definition demo_sf :: "u32 \<Rightarrow> (rat, rat) static_frame" where
  "demo_sf r = \<lparr>sf_data = [demo_point, ILDAPoint, demo_point], sf_repeats = r,
     sf_dewell = 100, sf_useDewell = False, sf_scale = 1, sf_geometry = 1\<rparr>"

lemma demo_sf_simps [simp]:
  "sf_repeats (demo_sf r) = r" "sf_useDewell (demo_sf r) = False" "sf_dewell (demo_sf r) = 100"
  by (simp_all add: demo_sf_def)

definition demo_frame :: "u32 \<Rightarrow> (int \<times> int \<times> int, rat, rat) fsource" where
  "demo_frame r = Source (Static (demo_sf r)) ''demo'' []"

definition demo_tree :: "(int \<times> int \<times> int, rat, rat) fsource" where
  "demo_tree = Source (src_node FrameSequencer) ''demo''
     [demo_frame 2, Source (src_node (ColourRotator exact_qt)) ''demo'' [demo_frame 1]]"

lemma demo_tree_playable: "playable demo_tree"
  by (simp add: demo_tree_def demo_frame_def FrameSequencer_def ColourRotator_def)

theorem playing_is_safe_witness:
  "playable demo_tree \<and>
   (case play_run exact_qt [Next 0, Reset 3, Next 40] demo_tree
       (createPlayback exact_qt demo_tree) (\<lambda>i. i) of
      Inl e \<Rightarrow> e = Diverges \<and> has_rotator demo_tree
    | Inr (frs, s', p', rnd') \<Rightarrow> settle s' = settle demo_tree \<and>
        (\<forall>f. Some f \<in> set frs \<longrightarrow> skeleton f \<in> set (images exact_qt demo_tree)))"
  using demo_tree_playable playing_is_safe [OF demo_tree_playable] by (rule conjI)

text \<open>
  C20. The index table of a sequencer with children: in ping-pong mode the children in order and
  back again without repeating the last one, in random mode a permutation of the children, and
  in every other mode the children in order.
\<close>

theorem index_table_by_mode:
  assumes "0 < N" and "N < 2 ^ 30"
  shows "\<exists>tbl rnd'. reset_index (of_nat N) mode rnd sp =
      Inr (sp\<lparr>qpb_index_tbl := map of_nat tbl\<rparr>, rnd') \<and>
    (mode = Pingpong \<longrightarrow> tbl = [0..<N] @ rev [0..<N - 1]) \<and>
    (mode = Random \<longrightarrow> mset tbl = mset [0..<N]) \<and>
    (mode \<noteq> Pingpong \<and> mode \<noteq> Random \<longrightarrow> tbl = [0..<N])"
proof -
  let ?tbl = "if mode = Random then random_shuffle rnd [0..<N] else table_order N mode"
  have "fresh_table N mode rnd = map of_nat ?tbl"
    by (simp add: fresh_table_def table_order_def random_shuffle_map)
  then show ?thesis
    using reset_index_eq [OF assms, of mode rnd sp]
    by (intro exI [of _ ?tbl]) (auto simp: table_order_def)
qed

theorem index_table_by_mode_witness:
  "(0 :: nat) < 3 \<and> (3 :: nat) < 2 ^ 30 \<and>
   (\<exists>tbl rnd'. reset_index (of_nat 3) Pingpong (\<lambda>i. i)
        \<lparr>qpb_pos = 4, qpb_repeats_done = 1, qpb_index_tbl = []\<rparr> =
      Inr (\<lparr>qpb_pos = 4, qpb_repeats_done = 1, qpb_index_tbl = map of_nat tbl\<rparr>, rnd') \<and>
      tbl = [0, 1, 2, 1, 0])"
proof -
  have r: "[0..<3] @ rev [0..<3 - 1] = [0, 1, 2, 1, 0 :: nat]" by (simp add: upt_rec)
  show ?thesis
    using index_table_by_mode [of 3 Pingpong "\<lambda>i. i"
        "\<lparr>qpb_pos = 4, qpb_repeats_done = 1, qpb_index_tbl = []\<rparr>"] unfolding r by simp
qed

text \<open>
  C21. A static frame that counts repeats is played exactly that many times and then ends once,
  after which its playback is as it was: the run can be repeated for ever.
\<close>

theorem static_frame_plays_its_repeats:
  assumes "sf_useDewell sf = False" and "length nows = unat (sf_repeats sf) + 1"
    and "spb_active sp" and "spb_repeatsDone sp = 0"
  shows "play_run q (map Next nows) (Source (Static sf) d []) (Pb (Static_pb sp) cps) rnd =
    Inr (replicate (unat (sf_repeats sf)) (Some (static_image q sf)) @ [None],
      Source (Static sf) d [], Pb (Static_pb sp) cps, rnd)"
proof -
  let ?s = "Source (Static sf) d []"
  let ?R = "unat (sf_repeats sf)"
  have go: "play_run q (map Next nows) ?s (Pb (Static_pb (sp\<lparr>spb_repeatsDone := of_nat k\<rparr>)) cps) rnd =
      Inr (replicate (?R - k) (Some (static_image q sf)) @ [None], ?s, Pb (Static_pb sp) cps, rnd)"
    if "k \<le> ?R" "length nows = ?R - k + 1" for k nows
    using that
  proof (induction nows arbitrary: k)
    case (Cons now nows)
    have R: "?R < 2 ^ 32" using unsigned_less [where 'b = 32] by auto
    have k: "unat (of_nat k :: u32) = k"
      by (rule unat_of_nat_below) (use Cons.prems(1) R in simp)
    show ?case
    proof (cases "k = ?R")
      case True
      then have "nows = []" using Cons.prems(2) by simp
      moreover have "sf_repeats sf \<le> of_nat k" using True k by (simp add: word_le_nat_alt)
      ultimately show ?thesis
        using True assms by (simp add: nextFrame_def static_next_def static_tick_def Let_def)
    next
      case False
      then have lt: "k < ?R" using Cons.prems(1) by simp
      then have "\<not> sf_repeats sf \<le> of_nat k" using k by (simp add: word_le_nat_alt)
      moreover have "?R - k = Suc (?R - Suc k)" using lt by simp
      ultimately show ?thesis
        using Cons.IH [of "Suc k"] Cons.prems(2) lt assms
        by (simp add: nextFrame_def static_next_def static_tick_def Let_def add.commute)
    qed
  qed simp
  have "sp\<lparr>spb_repeatsDone := of_nat 0\<rparr> = sp" using assms(4) by (cases sp) simp
  then show ?thesis using go [of 0 nows] assms(2) by simp
qed

theorem static_frame_plays_its_repeats_witness:
  "play_run exact_qt (map Next [0, 40, 80]) (demo_frame 2)
     (createPlayback exact_qt (demo_frame 2)) (\<lambda>i. i) =
   Inr (replicate 2 (Some (static_image exact_qt (demo_sf 2))) @ [None],
     demo_frame 2, createPlayback exact_qt (demo_frame 2), (\<lambda>i. i))"
proof -
  have p: "createPlayback exact_qt (demo_frame 2) =
      Pb (Static_pb \<lparr>spb_active = True, spb_dewellStart = None, spb_repeatsDone = 0\<rparr>) []"
    by (simp add: demo_frame_def newPlayback_defs)
  have "unat (2 :: u32) = 2" by simp
  then show ?thesis
    unfolding p unfolding demo_frame_def
    using static_frame_plays_its_repeats [where q = exact_qt and nows = "[0, 40, 80]"
        and sf = "demo_sf 2"] by simp
qed



text \<open>
  A sequencer as the editor creates it, without children, must not be played: the first call
  of nextFrame on a new playback reads the first entry of an empty table.
\<close>

theorem empty_sequencer_reads_outside:
  "nextFrame q now FrameSequencer (createPlayback q FrameSequencer) rnd = Inl Undefined_behaviour"
  by (simp add: nextFrame_def FrameSequencer_def newPlayback_defs seq_next_def seq_loop.simps
      round_start_def at_end_def index_step_def seq_index_def table_size_def vec_at_def)

text \<open>
  A source may not get a child while one of its playbacks is running: a playback has no
  playback for the new child, and when the sequence reaches it an assertion fails.
\<close>

theorem child_added_while_playing_fails:
  "(let rot = Source (src_node (ColourRotator exact_qt)) [] [] in
    rbind (nextFrame exact_qt 0 (Source (src_node FrameSequencer) [] [rot])
       (createPlayback exact_qt (Source (src_node FrameSequencer) [] [rot])) (\<lambda>i. i))
     (\<lambda>(fr, s, p, rnd). rbind (addChild (Some rot) (- 1) s)
       (\<lambda>(added, s'). rbind (play_run exact_qt [Next 0, Next 0] s' p rnd)
         (\<lambda>(frs, _). Inr frs)))) = Inl Assertion_failed"
  by code_simp

end
