(* ===== verification/Ilda_Files.thy ===== *)
theory Ilda_Files
  imports Ilda_Loader Frame_Playing
begin

unbundle bit_operations_syntax

text \<open>
  What the ILDA loader makes of the bytes of a file: the contract of the stream as a locale, its
  interpretation over a file, the true colour format as an encoder, and the properties of the
  loader.
\<close>

section \<open>The contract of the stream\<close>

definition be16 :: "u8 \<Rightarrow> u8 \<Rightarrow> u16" where
  "be16 a b = of_nat (unat a * 256 + unat b)"

definition be32 :: "u8 \<Rightarrow> u8 \<Rightarrow> u8 \<Rightarrow> u8 \<Rightarrow> u32" where
  "be32 a b c d = of_nat (((unat a * 256 + unat b) * 256 + unat c) * 256 + unat d)"

text \<open>\<open>rest s\<close> are the bytes not yet read. Reading past the end leaves nothing to read.\<close>

locale big_endian =
  fixes ops :: "'s data_stream" and rest :: "'s \<Rightarrow> u8 list"
  assumes atEnd: "ds_atEnd ops s \<longleftrightarrow> rest s = []"
    and u8: "rest s = a # bs \<Longrightarrow> \<exists>s'. ds_u8 ops s = (a, s') \<and> rest s' = bs"
    and u16: "rest s = a # b # bs \<Longrightarrow> \<exists>s'. ds_u16 ops s = (be16 a b, s') \<and> rest s' = bs"
    and u32: "rest s = a # b # c # d # bs \<Longrightarrow>
      \<exists>s'. ds_u32 ops s = (be32 a b c d, s') \<and> rest s' = bs"
    and raw: "n \<le> length (rest s) \<Longrightarrow>
      \<exists>s'. ds_raw ops n s = (take n (rest s), s') \<and> rest s' = drop n (rest s)"
    and skip: "0 \<le> k \<Longrightarrow> rest (ds_skip ops k s) = drop (nat k) (rest s)"
    and raw_length: "length (rest (snd (ds_raw ops n s))) = length (rest s) - n"
    and u8_length: "length (rest (snd (ds_u8 ops s))) \<le> length (rest s)"
    and u16_length: "length (rest (snd (ds_u16 ops s))) \<le> length (rest s)"
    and u32_length: "length (rest (snd (ds_u32 ops s))) \<le> length (rest s)"

section \<open>A file\<close>

record byte_file =
  bf_data :: "u8 list"
  bf_pos :: nat

definition bf_rest :: "byte_file \<Rightarrow> u8 list" where
  "bf_rest f = drop (bf_pos f) (bf_data f)"

definition bf_advance :: "nat \<Rightarrow> byte_file \<Rightarrow> byte_file" where
  "bf_advance n f = f\<lparr>bf_pos := min (bf_pos f + n) (length (bf_data f))\<rparr>"

text \<open>
  A number is zero if the file ends before its last byte; \<open>junk\<close> fills the part of a buffer that
  was not read; \<open>behind\<close> is the position after skipping a negative number of bytes.
\<close>

definition file_ops :: "u8 \<Rightarrow> (int \<Rightarrow> byte_file \<Rightarrow> nat) \<Rightarrow> byte_file data_stream" where
  "file_ops junk behind = \<lparr>
     ds_u8 = (\<lambda>f. (case bf_rest f of a # _ \<Rightarrow> a | _ \<Rightarrow> 0, bf_advance 1 f)),
     ds_u16 = (\<lambda>f. (case bf_rest f of a # b # _ \<Rightarrow> be16 a b | _ \<Rightarrow> 0, bf_advance 2 f)),
     ds_u32 = (\<lambda>f. (case bf_rest f of a # b # c # d # _ \<Rightarrow> be32 a b c d | _ \<Rightarrow> 0, bf_advance 4 f)),
     ds_raw = (\<lambda>n f. (take n (bf_rest f) @ replicate (n - length (bf_rest f)) junk, bf_advance n f)),
     ds_skip = (\<lambda>k f. if 0 \<le> k then bf_advance (nat k) f else f\<lparr>bf_pos := behind k f\<rparr>),
     ds_atEnd = (\<lambda>f. bf_rest f = [])\<rparr>"

lemma bf_rest_advance: "bf_rest (bf_advance n f) = drop n (bf_rest f)"
proof -
  have "drop (min (bf_pos f + n) (length (bf_data f))) (bf_data f) =
      drop (bf_pos f + n) (bf_data f)"
    by (simp add: min_def)
  then show ?thesis by (simp add: bf_rest_def bf_advance_def add.commute)
qed

interpretation disc: big_endian "file_ops junk behind" bf_rest for junk behind
  by unfold_locales (simp_all add: file_ops_def bf_rest_advance)

section \<open>The true colour sections, encoded\<close>

definition hi :: "u16 \<Rightarrow> u8" where
  "hi w = of_nat (unat w div 256)"

definition lo :: "u16 \<Rightarrow> u8" where
  "lo w = of_nat (unat w mod 256)"

lemma be16_hi_lo: "be16 (hi w) (lo w) = w"
proof -
  have w: "unat w < 65536" using unsigned_less [of w] by simp
  have "unat (hi w) = unat w div 256"
    unfolding hi_def by (rule unat_of_nat_below) (use w in \<open>simp add: less_mult_imp_div_less\<close>)
  moreover have "unat (lo w) = unat w mod 256"
    unfolding lo_def by (rule unat_of_nat_below) simp
  ultimately show ?thesis by (simp add: be16_def)
qed

definition encode_point :: "bool \<Rightarrow> ilda_point \<Rightarrow> u8 list" where
  "encode_point is3D p =
     [hi (ip_x p), lo (ip_x p), hi (ip_y p), lo (ip_y p)] @
     (if is3D then [hi (ip_z p), lo (ip_z p)] else []) @
     [if ip_blanked p then 64 else 0, ip_b p, ip_g p, ip_r p]"

definition encode_section :: "bool \<Rightarrow> u8 list \<Rightarrow> u8 list \<Rightarrow> ilda_point list \<Rightarrow> u8 list" where
  "encode_section is3D name company ps =
     ILDA_magic @ [0, 0, 0, if is3D then 4 else 5] @ name @ company @
     [hi (of_nat (length ps)), lo (of_nat (length ps))] @ replicate 6 0 @
     concat (map (encode_point is3D) ps)"

text \<open>A section of a 2D format has no z coordinate; the loader sets it to zero.\<close>

definition flat :: "bool \<Rightarrow> ilda_point \<Rightarrow> bool" where
  "flat is3D p \<longleftrightarrow> is3D \<or> ip_z p = 0"

record ilda_section =
  se_3d :: bool
  se_name :: "u8 list"
  se_company :: "u8 list"
  se_points :: "ilda_point list"

definition section_ok :: "ilda_section \<Rightarrow> bool" where
  "section_ok se \<longleftrightarrow> length (se_name se) = 8 \<and> length (se_company se) = 8 \<and>
     0 < length (se_points se) \<and> length (se_points se) < 65536 \<and>
     list_all (flat (se_3d se)) (se_points se)"

definition section_bytes :: "ilda_section \<Rightarrow> u8 list" where
  "section_bytes se = encode_section (se_3d se) (se_name se) (se_company se) (se_points se)"

definition section_frame :: "('c, 'f, 'm) qt \<Rightarrow> ilda_section \<Rightarrow> ('c, 'f, 'm) fsource" where
  "section_frame q se =
     ilda_frame q (c_string (se_name se)) (c_string (se_company se)) (se_points se)"

section \<open>The frames of a file\<close>

definition import_sequence :: "string \<Rightarrow> ('c, 'f, 'm) fsource list \<Rightarrow> ('c, 'f, 'm) fsource" where
  "import_sequence filename frs =
     Source (src_node FrameSequencer) (import_description filename) frs"

fun collected :: "string \<Rightarrow> ('c, 'f, 'm) fsource list \<Rightarrow>
    ('c, 'f, 'm) fsource option \<times> ('c, 'f, 'm) fsource option" where
  "collected filename [] = (None, None)"
| "collected filename [f] = (Some f, None)"
| "collected filename (f # g # fs) = (Some f, Some (import_sequence filename (f # g # fs)))"

lemma addChild_sequence:
  "addChild (Some f) (- 1) (import_sequence filename frs) =
     Inr (True, import_sequence filename (frs @ [f]))"
  by (simp add: addChild_def import_sequence_def FrameSequencer_def numPossibleChildren_def Let_def)

lemma new_sequence:
  "setDescription (import_description filename) FrameSequencer = import_sequence filename []"
  by (simp add: setDescription_def FrameSequencer_def import_sequence_def)

lemma collect_collected:
  "collect_frame filename f (collected filename frs) = Inr (collected filename (frs @ [f]))"
  by (cases "(filename, frs)" rule: collected.cases)
     (auto simp: collect_frame_def new_sequence addChild_sequence)

context big_endian
begin

lemma rgb_points_decode:
  "rest s = concat (map (encode_point is3D) ps) @ bs \<Longrightarrow> list_all (flat is3D) ps \<Longrightarrow>
   \<exists>s'. rgb_points ops is3D (length ps) s = (ps, s') \<and> rest s' = bs"
proof (induction ps arbitrary: s)
  case (Cons p ps)
  let ?more = "concat (map (encode_point is3D) ps) @ bs"
  let ?tail = "(if ip_blanked p then 64 else 0) # ip_b p # ip_g p # ip_r p # ?more"
  have r0: "rest s = hi (ip_x p) # lo (ip_x p) # hi (ip_y p) # lo (ip_y p) #
      (if is3D then [hi (ip_z p), lo (ip_z p)] else []) @ ?tail"
    using Cons.prems(1) by (simp add: encode_point_def [of is3D p])
  obtain s1 where s1: "ds_u16 ops s = (ip_x p, s1)"
    "rest s1 = hi (ip_y p) # lo (ip_y p) # (if is3D then [hi (ip_z p), lo (ip_z p)] else []) @ ?tail"
    using u16 [OF r0] by (auto simp: be16_hi_lo)
  obtain s2 where s2: "ds_u16 ops s1 = (ip_y p, s2)"
    "rest s2 = (if is3D then [hi (ip_z p), lo (ip_z p)] else []) @ ?tail"
    using u16 [OF s1(2)] by (auto simp: be16_hi_lo)
  have "\<exists>s3. read_xyz ops is3D s = ((ip_x p, ip_y p, ip_z p), s3) \<and> rest s3 = ?tail"
  proof (cases is3D)
    case True
    then have "rest s2 = hi (ip_z p) # lo (ip_z p) # ?tail" using s2(2) by simp
    from u16 [OF this] True s1(1) s2(1) show ?thesis by (auto simp: read_xyz_def be16_hi_lo)
  next
    case False
    then show ?thesis using s1(1) s2 Cons.prems(2) by (simp add: read_xyz_def flat_def)
  qed
  then obtain s3 where s3: "read_xyz ops is3D s = ((ip_x p, ip_y p, ip_z p), s3)" "rest s3 = ?tail"
    by blast
  obtain s4 where s4: "ds_u8 ops s3 = (if ip_blanked p then 64 else 0, s4)"
    "rest s4 = ip_b p # ip_g p # ip_r p # ?more" using u8 [OF s3(2)] by auto
  obtain s5 where s5: "ds_u8 ops s4 = (ip_b p, s5)" "rest s5 = ip_g p # ip_r p # ?more"
    using u8 [OF s4(2)] by auto
  obtain s6 where s6: "ds_u8 ops s5 = (ip_g p, s6)" "rest s6 = ip_r p # ?more"
    using u8 [OF s5(2)] by auto
  obtain s7 where s7: "ds_u8 ops s6 = (ip_r p, s7)" "rest s7 = ?more"
    using u8 [OF s6(2)] by auto
  obtain s' where "rgb_points ops is3D (length ps) s7 = (ps, s')" "rest s' = bs"
    using Cons.IH [OF s7(2)] Cons.prems(2) by auto
  moreover have "blanked_bit (if ip_blanked p then 64 else 0) = ip_blanked p"
    by (simp add: blanked_bit_def)
  ultimately show ?case using s3(1) s4(1) s5(1) s6(1) s7(1) by (cases p) simp
qed simp

lemma readHeader_decode:
  assumes "rest s = name @ company @ [hi (of_nat n), lo (of_nat n)] @ replicate 6 0 @ bs"
    and "length name = 8" and "length company = 8" and "n < 65536"
  shows "\<exists>s'. readHeader ops s = (c_string name, c_string company, n, s') \<and> rest s' = bs"
proof -
  obtain s1 where s1: "ds_raw ops 8 s = (name, s1)"
    "rest s1 = company @ [hi (of_nat n), lo (of_nat n)] @ replicate 6 0 @ bs"
    using raw [of 8 s] assms by auto
  obtain s2 where s2: "ds_raw ops 8 s1 = (company, s2)"
    "rest s2 = hi (of_nat n) # lo (of_nat n) # replicate 6 0 @ bs"
    using raw [of 8 s1] s1 assms(3) by auto
  obtain s3 where s3: "ds_u16 ops s2 = (of_nat n, s3)" "rest s3 = replicate 6 0 @ bs"
    using u16 [OF s2(2)] by (auto simp: be16_hi_lo)
  have "rest (ds_skip ops 6 s3) = bs" using skip [of 6 s3] s3(2) by simp
  moreover have "unat (of_nat n :: u16) = n" by (rule unat_of_nat_below) (use assms(4) in simp)
  ultimately show ?thesis using s1(1) s2(1) s3(1) by (simp add: readHeader_def)
qed

lemma read_section_decode:
  assumes "rest s = section_bytes se @ bs" and "section_ok se"
  shows "\<exists>s1 s2. ds_raw ops 4 s = (ILDA_magic, s1) \<and> \<not> ds_atEnd ops s \<and>
    read_section q ops ld s1 = Inr (False, Some (section_frame q se), ld, s2) \<and> rest s2 = bs"
proof -
  let ?f = "if se_3d se then 4 else 5 :: u8"
  have m: "length ILDA_magic = 4" by (simp add: ILDA_magic_def)
  have all: "rest s = ILDA_magic @ 0 # 0 # 0 # ?f # se_name se @ se_company se @
      [hi (of_nat (length (se_points se))), lo (of_nat (length (se_points se)))] @ replicate 6 0 @
      concat (map (encode_point (se_3d se)) (se_points se)) @ bs"
    using assms(1) by (simp add: section_bytes_def encode_section_def)
  have ne: "\<not> ds_atEnd ops s" using m by (auto simp: atEnd all)
  obtain s1 where s1: "ds_raw ops 4 s = (ILDA_magic, s1)" "rest s1 = drop 4 (rest s)"
    using raw [of 4 s] m by (auto simp: all)
  have r1: "rest s1 = 0 # 0 # 0 # ?f # se_name se @ se_company se @
      [hi (of_nat (length (se_points se))), lo (of_nat (length (se_points se)))] @ replicate 6 0 @
      concat (map (encode_point (se_3d se)) (se_points se)) @ bs"
    using s1(2) m by (simp add: all)
  obtain s2 where s2: "ds_u32 ops s1 = (be32 0 0 0 ?f, s2)"
    "rest s2 = se_name se @ se_company se @
      [hi (of_nat (length (se_points se))), lo (of_nat (length (se_points se)))] @ replicate 6 0 @
      concat (map (encode_point (se_3d se)) (se_points se)) @ bs"
    using u32 [OF r1] by blast
  have f: "be32 0 0 0 ?f = (if se_3d se then 4 else 5)" by (simp add: be32_def)
  obtain s3 where s3: "readHeader ops s2 =
      (c_string (se_name se), c_string (se_company se), length (se_points se), s3)"
    "rest s3 = concat (map (encode_point (se_3d se)) (se_points se)) @ bs"
    using readHeader_decode [OF s2(2)] assms(2) by (auto simp: section_ok_def)
  obtain s4 where s4: "rgb_points ops (se_3d se) (length (se_points se)) s3 = (se_points se, s4)"
    "rest s4 = bs"
    using rgb_points_decode [OF s3(2)] assms(2) by (auto simp: section_ok_def)
  have "read_section q ops ld s1 = Inr (False, Some (section_frame q se), ld, s4)"
    using s2(1) s3(1) s4(1) f assms(2)
    by (auto simp: read_section_def readFormat5_def section_ok_def section_frame_def)
  then show ?thesis using s1(1) ne s4(2) by blast
qed

lemma read_sections_decode:
  "list_all section_ok ses \<Longrightarrow> rest s = concat (map section_bytes ses) \<Longrightarrow> length ses < fuel \<Longrightarrow>
   read_sections fuel q ops filename ld (collected filename frs) s =
     Inr (0, collected filename (frs @ map (section_frame q) ses))"
proof (induction ses arbitrary: fuel s frs)
  case Nil
  then show ?case by (cases fuel) (simp_all add: atEnd)
next
  case (Cons se ses)
  obtain k where k: "fuel = Suc k" using Cons.prems(3) by (cases fuel) auto
  obtain s1 s2 where s: "ds_raw ops 4 s = (ILDA_magic, s1)" "\<not> ds_atEnd ops s"
    "read_section q ops ld s1 = Inr (False, Some (section_frame q se), ld, s2)"
    "rest s2 = concat (map section_bytes ses)"
    using read_section_decode [of s se "concat (map section_bytes ses)" q ld] Cons.prems by auto
  have "read_sections k q ops filename ld (collected filename (frs @ [section_frame q se])) s2 =
      Inr (0, collected filename ((frs @ [section_frame q se]) @ map (section_frame q) ses))"
    by (rule Cons.IH) (use Cons.prems k s(4) in simp_all)
  then show ?case using s k by (simp add: collect_collected)
qed

end

lemma palette_loads:
  "\<exists>p. palette_entries q (if pangolin then pangolin_palette else ilda_palette) = Inr p \<and>
     length p \<le> 256"
proof (cases pangolin)
  case True
  then show ?thesis
    by (simp add: pangolin_palette_def pangolin_low_def pangolin_high_def)
next
  case False
  then show ?thesis by (simp add: ilda_palette_def)
qed

lemma default_palette_256: "\<exists>p. default_palette q pangolin = Inr p \<and> length p = 256"
  using palette_loads [of q pangolin] by (auto simp: default_palette_def)

section \<open>A stream that only moves forward\<close>

locale forward_stream = big_endian +
  assumes skip_length: "length (rest (ds_skip ops k s)) \<le> length (rest s)"
begin

lemma shrink_pair:
  "ds_u8 ops s = (b, s') \<Longrightarrow> length (rest s') \<le> length (rest s)"
  "ds_u16 ops s = (w, s') \<Longrightarrow> length (rest s') \<le> length (rest s)"
  "ds_u32 ops s = (d, s') \<Longrightarrow> length (rest s') \<le> length (rest s)"
  "ds_raw ops n s = (bs, s') \<Longrightarrow> length (rest s') \<le> length (rest s)"
  using u8_length [of s] u16_length [of s] u32_length [of s] raw_length [of n s] by simp_all

lemma readHeader_shrink:
  "readHeader ops s = (name, company, n, s') \<Longrightarrow> length (rest s') \<le> length (rest s)"
  by (auto simp: readHeader_def split: prod.splits dest!: shrink_pair
      intro!: order_trans [OF skip_length])

lemma read_xyz_shrink: "read_xyz ops is3D s = (xyz, s') \<Longrightarrow> length (rest s') \<le> length (rest s)"
  by (auto simp: read_xyz_def split: prod.splits if_splits dest!: shrink_pair)

lemma indexed_points_shrink:
  "indexed_points q ops is3D ld n i s = Inr (ps, s') \<Longrightarrow> length (rest s') \<le> length (rest s)"
proof (induction n arbitrary: i s ps)
  case (Suc n)
  obtain xyz s1 where 1: "read_xyz ops is3D s = (xyz, s1)" by (metis surj_pair)
  obtain st s2 where 2: "ds_u8 ops s1 = (st, s2)" by (metis surj_pair)
  obtain col s3 where 3: "ds_u8 ops s2 = (col, s3)" by (metis surj_pair)
  obtain ps' where "indexed_points q ops is3D ld n (Suc i) s3 = Inr (ps', s')"
    using Suc.prems 1 2 3 by (auto simp: rbind_Inr_iff)
  from Suc.IH [OF this] read_xyz_shrink [OF 1] shrink_pair(1) [OF 2] shrink_pair(1) [OF 3]
  show ?case by linarith
qed simp

lemma read_colours_shrink:
  "read_colours q ops n s = (cs, s') \<Longrightarrow> length (rest s') \<le> length (rest s)"
proof (induction n arbitrary: s cs)
  case (Suc n)
  then show ?case by (auto split: prod.splits dest!: shrink_pair(1) Suc.IH)
qed simp

lemma rgb_points_shrink:
  "rgb_points ops is3D n s = (ps, s') \<Longrightarrow> length (rest s') \<le> length (rest s)"
proof (induction n arbitrary: s ps)
  case (Suc n)
  then show ?case by (auto split: prod.splits dest!: shrink_pair(1) read_xyz_shrink Suc.IH)
qed simp

lemma readColorTable_shrink:
  assumes "readColorTable q ops ld s = (eof, ld', s')"
  shows "length (rest s') \<le> length (rest s)"
proof -
  obtain n s1 where 1: "ds_raw ops 8 s = (n, s1)" by (metis surj_pair)
  obtain c s2 where 2: "ds_raw ops 8 s1 = (c, s2)" by (metis surj_pair)
  obtain k s3 where 3: "ds_u16 ops s2 = (k, s3)" by (metis surj_pair)
  obtain cs s5 where 5: "read_colours q ops (unat k) (ds_skip ops 4 (ds_skip ops 2 s3)) = (cs, s5)"
    by (metis surj_pair)
  have e: "s' = s5" using assms 1 2 3 5 by (simp add: readColorTable_def)
  from shrink_pair(4) [OF 1] shrink_pair(4) [OF 2] shrink_pair(2) [OF 3]
    skip_length [of 2 s3] skip_length [of 4 "ds_skip ops 2 s3"] read_colours_shrink [OF 5]
  show ?thesis unfolding e by linarith
qed

lemma read_section_shrink:
  assumes "read_section q ops ld s = Inr (eof, fr, ld', s')"
  shows "length (rest s') \<le> length (rest s)"
proof -
  obtain fmt s1 where f: "ds_u32 ops s = (fmt, s1)" by (metis surj_pair)
  have "length (rest s') \<le> length (rest s1)"
    using assms f
    by (auto simp: read_section_def readFrameSection_def readFormat5_def
        readTrueColorSection_def Let_def rbind_Inr_iff split: prod.splits if_splits
        dest!: shrink_pair readHeader_shrink indexed_points_shrink rgb_points_shrink
          read_colours_shrink readColorTable_shrink
        intro: order_trans [OF skip_length])
  then show ?thesis using shrink_pair(3) [OF f] by linarith
qed

lemma indexed_points_fails:
  "indexed_points q ops is3D ld n i s = Inl e \<Longrightarrow> e = Undefined_behaviour"
proof (induction n arbitrary: i s)
  case (Suc n)
  then show ?case by (auto simp: rbind_Inl_iff vec_at_def split: prod.splits if_splits)
qed simp

lemma read_section_fails: "read_section q ops ld s = Inl e \<Longrightarrow> e = Undefined_behaviour"
  by (auto simp: read_section_def readFrameSection_def Let_def rbind_Inl_iff
      dest: indexed_points_fails split: prod.splits if_splits)

lemma read_section_static:
  "read_section q ops ld s = Inr (eof, Some f, ld', s') \<Longrightarrow> playable f"
  by (auto simp: read_section_def readFrameSection_def readFormat5_def ilda_frame_def
      StaticFrame_def Let_def rbind_Inr_iff split: prod.splits if_splits)

lemma read_sections_ends:
  "length (rest s) < fuel \<Longrightarrow> list_all playable frs \<Longrightarrow>
   (case read_sections fuel q ops filename ld (collected filename frs) s of
      Inl e \<Rightarrow> e = Undefined_behaviour
    | Inr (err, st) \<Rightarrow> \<exists>frs'. st = collected filename frs' \<and>
        length frs' < length frs + fuel \<and> list_all playable frs')"
proof (induction fuel arbitrary: s frs ld)
  case (Suc fuel)
  show ?case
  proof (cases "rest s = []")
    case True
    then show ?thesis using Suc.prems(2) by (auto simp: atEnd)
  next
    case False
    obtain buf s1 where r: "ds_raw ops 4 s = (buf, s1)" by (metis surj_pair)
    have lt: "length (rest s1) < length (rest s)"
      using raw_length [of 4 s] r False by (cases "rest s") simp_all
    show ?thesis
    proof (cases "buf = ILDA_magic")
      case False
      then show ?thesis using r \<open>rest s \<noteq> []\<close> Suc.prems(2) by (auto simp: atEnd)
    next
      case magic: True
      show ?thesis
      proof (cases "read_section q ops ld s1")
        case (Inl e)
        then show ?thesis using r \<open>rest s \<noteq> []\<close> magic read_section_fails [OF Inl] by (simp add: atEnd)
      next
        case (Inr x)
        obtain eof fr ld' s2 where x: "x = (eof, fr, ld', s2)" by (cases x)
        define frs1 where "frs1 = frs @ (case fr of None \<Rightarrow> [] | Some f \<Rightarrow> [f])"
        have st: "(case fr of None \<Rightarrow> Inr (collected filename frs)
            | Some f \<Rightarrow> collect_frame filename f (collected filename frs)) =
            Inr (collected filename frs1)"
          by (cases fr) (simp_all add: frs1_def collect_collected)
        have p1: "list_all playable frs1"
          using Suc.prems(2) Inr x read_section_static
          by (auto simp: frs1_def split: option.splits)
        have l1: "length frs1 \<le> Suc (length frs)" by (cases fr) (simp_all add: frs1_def)
        have "length (rest s2) \<le> length (rest s1)" using read_section_shrink Inr x by blast
        then have lt2: "length (rest s2) < fuel" using lt Suc.prems(1) by linarith
        have run: "read_sections (Suc fuel) q ops filename ld (collected filename frs) s =
            (if eof then Inr (0, collected filename frs1)
             else read_sections fuel q ops filename ld' (collected filename frs1) s2)"
          using r \<open>rest s \<noteq> []\<close> magic Inr x st by (simp add: atEnd)
        show ?thesis
        proof (cases eof)
          case True
          then show ?thesis using run l1 lt2 p1 by auto
        next
          case False
          then show ?thesis using run l1 Suc.IH [OF lt2 p1, where ld = ld']
            by (auto split: sum.splits)
        qed
      qed
    qed
  qed
qed simp

end

interpretation forward: forward_stream "file_ops junk (\<lambda>k f. bf_pos f)" bf_rest for junk
  by unfold_locales (simp add: file_ops_def bf_rest_advance)

lemma forward_file:
  assumes "\<forall>k f. bf_pos f \<le> behind k f"
  shows "forward_stream (file_ops junk behind) bf_rest"
proof (intro forward_stream.intro forward_stream_axioms.intro disc.big_endian_axioms)
  fix k s
  show "length (bf_rest (ds_skip (file_ops junk behind) k s)) \<le> length (bf_rest s)"
    using assms diff_le_mono2 [of "bf_pos s" "behind k s"]
    by (simp add: file_ops_def bf_rest_advance) (simp add: bf_rest_def)
qed

section \<open>Properties\<close>

text \<open>
  C6. Round trip: a file of true colour sections, each with at least one point, is loaded without
  an error into the frames that were written, with every coordinate, blanking bit and colour and
  in their order. A single section becomes a static frame, several become the children of a
  sequencer below a colour rotator.
\<close>

theorem true_colour_file_round_trip:
  assumes "list_all section_ok ses" and "ses \<noteq> []" and "length ses < fuel"
  shows "load_ilda fuel q (file_ops junk behind) filename pangolin
      (Some \<lparr>bf_data = concat (map section_bytes ses), bf_pos = 0\<rparr>) =
    Inr (Some (case ses of [se] \<Rightarrow> section_frame q se
      | _ \<Rightarrow> Source (src_node (ColourRotator q)) (getDescription (ColourRotator q))
          [import_sequence filename (map (section_frame q) ses)]), 0)"
proof -
  obtain pal where p: "default_palette q pangolin = Inr pal" using default_palette_256 by blast
  have r: "read_sections fuel q (file_ops junk behind) filename ld (None, None)
      \<lparr>bf_data = concat (map section_bytes ses), bf_pos = 0\<rparr> =
      Inr (0, collected filename (map (section_frame q) ses))" for ld
    using disc.read_sections_decode [OF assms(1) _ assms(3), where frs = "[]" and q = q and
        s = "\<lparr>bf_data = concat (map section_bytes ses), bf_pos = 0\<rparr>" and ld = ld and
        filename = filename and junk = junk and behind = behind]
    by (simp add: bf_rest_def)
  show ?thesis
  proof (cases "(filename, map (section_frame q) ses)" rule: collected.cases)
    case (1 fn)
    then show ?thesis using assms(2) by simp
  next
    case (2 fn f)
    then obtain se where "ses = [se]" by auto
    then show ?thesis using r by (simp add: load_ilda_def p)
  next
    case (3 fn f g fs)
    then obtain se se' ses' where s: "ses = se # se' # ses'" by auto
    have "addChild (Some sq) (- 1) (ColourRotator q) =
        Inr (True, Source (src_node (ColourRotator q)) (getDescription (ColourRotator q)) [sq])" for sq
      by (simp add: addChild_def ColourRotator_def numPossibleChildren_def Let_def)
    then show ?thesis using r by (simp add: load_ilda_def p s)
  qed
qed

definition demo_section :: "bool \<Rightarrow> ilda_section" where
  "demo_section d = \<lparr>se_3d = d, se_name = replicate 8 65, se_company = replicate 8 0,
     se_points = [demo_point, ILDAPoint]\<rparr>"

lemma demo_section_ok: "section_ok (demo_section d)"
  by (simp add: section_ok_def demo_section_def flat_def demo_point_def ILDAPoint_def)

theorem true_colour_file_round_trip_witness:
  "load_ilda 5 exact_qt (file_ops 0 (\<lambda>k f. bf_pos f)) ''a.ild'' False
      (Some \<lparr>bf_data = concat (map section_bytes [demo_section True, demo_section False]),
             bf_pos = 0\<rparr>) =
    Inr (Some (Source (src_node (ColourRotator exact_qt)) (getDescription (ColourRotator exact_qt))
      [import_sequence ''a.ild'' (map (section_frame exact_qt)
         [demo_section True, demo_section False])]), 0)"
  using true_colour_file_round_trip [of "[demo_section True, demo_section False]" 5 exact_qt 0
      "\<lambda>k f. bf_pos f" "''a.ild''" False] demo_section_ok by simp

text \<open>
  C3. Any file whatever is loaded in finite time, one more section than it has bytes being enough
  fuel, if the stream never moves backwards; the only failure is a colour index outside a colour
  table; and what is loaded can be played.
\<close>

theorem any_file_loads_and_plays:
  assumes "\<forall>k f. bf_pos f \<le> behind k f" and "length data < fuel" and "fuel \<le> 2 ^ 30"
  shows "(case load_ilda fuel q (file_ops junk behind) filename pangolin
      (Some \<lparr>bf_data = data, bf_pos = 0\<rparr>) of
      Inl e \<Rightarrow> e = Undefined_behaviour
    | Inr (s, err) \<Rightarrow> (\<forall>t. s = Some t \<longrightarrow> playable t))"
proof -
  obtain pal where p: "default_palette q pangolin = Inr pal" using default_palette_256 by blast
  let ?ld = "\<lparr>ld_palette = pal, ld_trueColour = False, ld_colour = []\<rparr>"
  let ?run = "read_sections fuel q (file_ops junk behind) filename ?ld (None, None)
      \<lparr>bf_data = data, bf_pos = 0\<rparr>"
  have "case ?run of Inl e \<Rightarrow> e = Undefined_behaviour
    | Inr (err, st) \<Rightarrow> \<exists>frs'. st = collected filename frs' \<and> length frs' < fuel \<and> list_all playable frs'"
    using forward_stream.read_sections_ends [OF forward_file [OF assms(1), of junk],
        where s = "\<lparr>bf_data = data, bf_pos = 0\<rparr>" and frs = "[]" and fuel = fuel and ld = ?ld
        and q = q and filename = filename]
      assms(2) by (auto simp: bf_rest_def split: sum.splits)
  then consider (bad) "?run = Inl Undefined_behaviour"
    | (good) err frs' where "?run = Inr (err, collected filename frs')" "length frs' < fuel"
        "list_all playable frs'"
    by (cases ?run) auto
  then show ?thesis
  proof cases
    case bad
    then show ?thesis by (simp add: load_ilda_def p)
  next
    case good
    have r: "\<exists>r. addChild (Some (import_sequence filename frs')) (- 1) (ColourRotator q) =
        Inr (True, r) \<and> playable r" if "frs' \<noteq> []"
      using that good(2,3) assms(3)
      by (simp add: addChild_def ColourRotator_def numPossibleChildren_def Let_def
          import_sequence_def FrameSequencer_def)
    then show ?thesis
    proof (cases "(filename, frs')" rule: collected.cases)
      case (3 fn f g fs)
      then show ?thesis using r good(1) by (auto simp: load_ilda_def p)
    qed (use good in \<open>auto simp: load_ilda_def p\<close>)
  qed
qed

theorem any_file_loads_and_plays_witness:
  "(case load_ilda 4 exact_qt (file_ops 0 (\<lambda>k f. bf_pos f)) ''a.ild'' False
      (Some \<lparr>bf_data = [1, 2, 3], bf_pos = 0\<rparr>) of
      Inl e \<Rightarrow> e = Undefined_behaviour
    | Inr (s, err) \<Rightarrow> (\<forall>t. s = Some t \<longrightarrow> playable t))"
  using any_file_loads_and_plays [of "\<lambda>k f. bf_pos f" "[1, 2, 3]" 4 exact_qt 0 "''a.ild''" False]
  by simp


definition short_table_file :: "u8 list" where
  "short_table_file =
     ILDA_magic @ [0, 0, 0, 2] @ replicate 16 0 @ [0, 1] @ replicate 6 0 @ [255, 0, 0] @
     ILDA_magic @ [0, 0, 0, 1] @ replicate 16 0 @ [0, 1] @ replicate 6 0 @ [0, 0, 0, 0, 0, 5]"

text \<open>
  A colour table shorter than 256 entries makes the colour look-up of the next indexed frame
  run past its end: a table of one colour followed by a frame with a point of colour 5.
\<close>

theorem short_colour_table_is_overrun:
  "load_ilda 3 exact_qt (file_ops 0 (\<lambda>k f. bf_pos f)) ''a.ild'' False
     (Some \<lparr>bf_data = short_table_file, bf_pos = 0\<rparr>) = Inl Undefined_behaviour"
proof -
  obtain pal where p: "default_palette exact_qt False = Inr pal" using default_palette_256 by blast
  have "read_sections 3 exact_qt (file_ops 0 (\<lambda>k f. bf_pos f)) ''a.ild''
      \<lparr>ld_palette = pal, ld_trueColour = False, ld_colour = []\<rparr> (None, None)
      \<lparr>bf_data = short_table_file, bf_pos = 0\<rparr> = Inl Undefined_behaviour"
    by (simp add: short_table_file_def ILDA_magic_def file_ops_def bf_rest_def bf_advance_def
        numeral_3_eq_3 read_section_def readColorTable_def readFrameSection_def readHeader_def
        be16_def be32_def read_xyz_def vec_at_def)
  then show ?thesis by (simp add: load_ilda_def p)
qed

definition endless_file :: "u8 list" where
  "endless_file = ILDA_magic @ [0, 0, 0, 99] @ [255, 255, 255, 240] @ [0, 0, 0, 0]"

text \<open>
  The length of an unknown section is not checked: with a stream that honours a negative skip,
  a section of sixteen bytes that announces -16 is read again and again, and the import never ends.
\<close>

theorem negative_section_length_loops:
  "load_ilda fuel exact_qt (file_ops 0 (\<lambda>k f. nat (int (bf_pos f) + k))) ''a.ild'' False
     (Some \<lparr>bf_data = endless_file, bf_pos = 0\<rparr>) = Inl Out_of_fuel"
proof -
  obtain pal where p: "default_palette exact_qt False = Inr pal" using default_palette_256 by blast
  have len: "sint (be32 255 255 255 240) = - 16" by (simp add: be32_def)
  have "read_sections fuel exact_qt (file_ops 0 (\<lambda>k f. nat (int (bf_pos f) + k))) ''a.ild'' ld
      (None, None) \<lparr>bf_data = endless_file, bf_pos = 0\<rparr> = Inl Out_of_fuel" for ld
  proof (induction fuel)
    case (Suc fuel)
    have "be32 0 0 0 99 = 99" by (simp add: be32_def)
    then show ?case using Suc len
      by (simp add: endless_file_def ILDA_magic_def file_ops_def bf_rest_def bf_advance_def
          read_section_def)
  qed simp
  then show ?thesis by (simp add: load_ilda_def p)
qed

end
