(* ===== verification/Driver.thy ===== *)
theory Driver
  imports Factory_Registry
begin

unbundle bit_operations_syntax

text \<open>
  \<open>driver.h\<close>, \<open>driver.cpp\<close> and the two drivers of the program, \<open>driver_dummy_ilda.cpp\<close> and
  \<open>driver_portaudio_ilda.cpp\<close>. The base class answers every operation a driver does not
  overload; the two drivers overload the ILDA ones. A \<open>pointf\<close> is generic in the type of its
  floats, which the drivers only move, but for the intensity channel of the sound card.

  The locale \<open>ilda_buffer\<close> is what the laser head relies on: the space a driver reports, the
  points it takes, and how the one changes the other. Both drivers and the virtual dispatch over
  them are interpreted.

  PortAudio is not part of the sources: the device table, the supported formats and the result
  of opening a stream are arguments.
\<close>

record 'f pointf =
  pf_x :: 'f
  pf_y :: 'f
  pf_r :: 'f
  pf_g :: 'f
  pf_b :: 'f

section \<open>The capability flags and the base class\<close>

definition OUTPUTS_ILDA :: u32 where "OUTPUTS_ILDA = 1"
definition OUTPUTS_MIDI :: u32 where "OUTPUTS_MIDI = 2"
definition OUTPUTS_DMX :: u32 where "OUTPUTS_DMX = 4"
definition OUTPUTS_AUDIO :: u32 where "OUTPUTS_AUDIO = 8"
definition OUTPUTS_GPO :: u32 where "OUTPUTS_GPO = 16"
definition INPUTS_MIDI :: u32 where "INPUTS_MIDI = 32"
definition INPUTS_AUDIO :: u32 where "INPUTS_AUDIO = 64"
definition INPUTS_GPI :: u32 where "INPUTS_GPI = 128"
definition INPUTS_DMX :: u32 where "INPUTS_DMX = 256"

text \<open>\<open>assert (!(flags () & cap))\<close> followed by a default result.\<close>

definition unless_claimed :: "u32 \<Rightarrow> u32 \<Rightarrow> 'a \<Rightarrow> 'a res" where
  "unless_claimed flags cap v = (if flags AND cap \<noteq> 0 then Inl Assertion_failed else Inr v)"

definition base_getDMX :: "u32 \<Rightarrow> u8 list res" where
  "base_getDMX flags = unless_claimed flags INPUTS_DMX []"

definition base_setDMX :: "u32 \<Rightarrow> u8 list \<Rightarrow> unit res" where
  "base_setDMX flags dmx = unless_claimed flags OUTPUTS_DMX ()"

definition base_readGPI :: "u32 \<Rightarrow> bool list res" where
  "base_readGPI flags = unless_claimed flags INPUTS_GPI []"

definition base_setGPO :: "u32 \<Rightarrow> u32 \<Rightarrow> bool \<Rightarrow> bool res" where
  "base_setGPO flags pin state = unless_claimed flags OUTPUTS_GPO False"

definition base_readMIDI :: "u32 \<Rightarrow> u8 list res" where
  "base_readMIDI flags = unless_claimed flags INPUTS_MIDI []"

definition base_sendMIDI :: "u32 \<Rightarrow> u8 list \<Rightarrow> bool res" where
  "base_sendMIDI flags data = unless_claimed flags OUTPUTS_MIDI False"

definition base_ILDAShutter :: "bool \<Rightarrow> bool res" where
  "base_ILDAShutter state = Inl Assertion_failed"

definition base_ILDAInterlock :: "bool \<Rightarrow> bool res" where
  "base_ILDAInterlock state = Inl Assertion_failed"

definition base_ILDAHwPointsPerSecond :: "u32 res" where
  "base_ILDAHwPointsPerSecond = Inl Assertion_failed"

definition base_ILDABufferFillStatus :: "nat res" where
  "base_ILDABufferFillStatus = Inl Assertion_failed"

definition base_ILDANewPoints :: "'f pointf list \<Rightarrow> nat \<Rightarrow> nat res" where
  "base_ILDANewPoints pts offset = Inl Assertion_failed"

definition base_readAudio :: "'f list res" where
  "base_readAudio = Inl Assertion_failed"

definition base_writeAudio :: "'f list \<Rightarrow> bool res" where
  "base_writeAudio samples = Inl Assertion_failed"

definition base_audioBufferSpaceFrames :: "nat res" where
  "base_audioBufferSpaceFrames = Inl Assertion_failed"

definition base_audioChannels :: nat where "base_audioChannels = 0"

definition base_audioSampleRate :: nat where "base_audioSampleRate = 0"

definition base_getGPICount :: u32 where "base_getGPICount = 0"

definition base_getGPOCount :: u32 where "base_getGPOCount = 0"

definition base_audioMoreframesAvailable :: "bool res" where
  "base_audioMoreframesAvailable = Inl Assertion_failed"

definition base_audioRequestMoreframes :: bool where
  "base_audioRequestMoreframes = True"

definition base_connected :: bool where
  "base_connected = False"

section \<open>The dummy driver\<close>

text \<open>The timer is the interval it runs at, if it runs.\<close>

record dummy_ilda =
  dm_connected :: bool
  dm_timer :: "nat option"
  dm_fill :: nat

definition dummy_BUFFER_SZ :: nat where
  "dummy_BUFFER_SZ = 2000"

definition Dummy_ILDA :: dummy_ilda where
  "Dummy_ILDA = \<lparr>dm_connected = False, dm_timer = None, dm_fill = 0\<rparr>"

definition dummy_connect :: "nat \<Rightarrow> dummy_ilda \<Rightarrow> bool \<times> dummy_ilda" where
  "dummy_connect index d =
     (if index \<noteq> 0 then (False, d)
      else (True, d\<lparr>dm_connected := True, dm_fill := 0, dm_timer := Some 33\<rparr>))"

definition dummy_enumerateHardware :: "string list" where
  "dummy_enumerateHardware = [''Dummy ILDA Driver'']"

definition dummy_disconnect :: "dummy_ilda \<Rightarrow> bool \<times> dummy_ilda" where
  "dummy_disconnect d = (True, d\<lparr>dm_connected := False, dm_timer := None\<rparr>)"

text \<open>
  Sizes are \<open>size_t\<close>: the subtractions wrap at 64 bits when the offset is past the end of the
  points or the buffer holds more than its size.
\<close>

definition size_sub :: "nat \<Rightarrow> nat \<Rightarrow> nat" where
  "size_sub a b = unat (of_nat a - of_nat b :: u64)"

definition dummy_NewPoints :: "'f pointf list \<Rightarrow> nat \<Rightarrow> dummy_ilda \<Rightarrow> nat \<times> dummy_ilda" where
  "dummy_NewPoints pts offset d =
     (let space = size_sub dummy_BUFFER_SZ (dm_fill d);
          used = size_sub (length pts) offset;
          used = (if space < used then space else used)
      in (used, d\<lparr>dm_fill := dm_fill d + used\<rparr>))"

definition dummy_BufferFillStatus :: "dummy_ilda \<Rightarrow> nat" where
  "dummy_BufferFillStatus d = size_sub dummy_BUFFER_SZ (dm_fill d)"

text \<open>The timer slot; the request for more points it emits is the caller's next event.\<close>

definition dummy_timeout :: "dummy_ilda \<Rightarrow> dummy_ilda" where
  "dummy_timeout d = (if dm_fill d > 1000 then d\<lparr>dm_fill := dm_fill d - 1000\<rparr> else d\<lparr>dm_fill := 0\<rparr>)"

section \<open>The sound card driver\<close>

record device_info =
  dev_name :: string
  dev_max_output :: nat

record pa_env =
  pa_devices :: "device_info list"
  pa_format_ok :: "nat \<Rightarrow> nat \<Rightarrow> nat \<Rightarrow> bool" \<comment> \<open>device, channels, sample rate\<close>
  pa_open_ok :: "nat \<Rightarrow> nat \<Rightarrow> bool" \<comment> \<open>device, sample rate\<close>
  pa_count_negative :: bool \<comment> \<open>\<open>Pa_GetDeviceCount\<close> reports an error\<close>

record 'f pa_ilda =
  pa_stream :: bool
  pa_valid :: "nat list"
  pa_sr :: nat
  pa_shutter :: bool
  pa_channels :: nat
  pa_ring :: "'f pointf list"

definition pa_BUFFER_SZ :: nat where
  "pa_BUFFER_SZ = 1024"

text \<open>The constructor; \<open>channels\<close> is not initialised there, its value is an argument.\<close>

definition PA_ILDA :: "nat \<Rightarrow> 'f pa_ilda" where
  "PA_ILDA junk = \<lparr>pa_stream = False, pa_valid = [], pa_sr = 44100, pa_shutter = False,
                   pa_channels = junk, pa_ring = []\<rparr>"

text \<open>
  The global use count, and whether the library is initialised: the constructor initialises it
  (with the result \<open>ok\<close>) when the count is zero, the destructor ends it when the count is zero
  after the decrement.
\<close>

record pa_global =
  pa_usecount :: nat
  pa_initialised :: bool

definition pa_construct :: "bool \<Rightarrow> pa_global \<Rightarrow> pa_global" where
  "pa_construct ok g =
     (if pa_usecount g = 0
      then (if ok then g\<lparr>pa_usecount := 1, pa_initialised := True\<rparr> else g)
      else g)"

definition pa_destroy :: "pa_global \<Rightarrow> pa_global" where
  "pa_destroy g =
     (let c = (if pa_usecount g \<noteq> 0 then pa_usecount g - 1 else 0) in
      if c = 0 then g\<lparr>pa_usecount := c, pa_initialised := False\<rparr> else g\<lparr>pa_usecount := c\<rparr>)"

definition usable_devices :: "pa_env \<Rightarrow> nat list" where
  "usable_devices env =
     filter (\<lambda>i. 2 \<le> dev_max_output (pa_devices env ! i)) [0..<length (pa_devices env)]"

definition pa_enumerateHardware :: "pa_env \<Rightarrow> nat \<Rightarrow> 'f pa_ilda \<Rightarrow> string list \<times> 'f pa_ilda" where
  "pa_enumerateHardware env usecount d =
     (if usecount = 0 \<or> pa_count_negative env then ([], d)
      else (map (\<lambda>i. dev_name (pa_devices env ! i)) (usable_devices env),
            d\<lparr>pa_valid := pa_valid d @ usable_devices env\<rparr>))"

definition srates :: "nat list" where
  "srates = [192000, 176400, 96000, 88200, 48000, 44100]"

text \<open>
  \<open>connect\<close>: the first supported rate of \<open>srates\<close>; with none the rate is left at the 0 that
  ends the table. The result names the rate announced by \<open>ILDAHwPPSChanged\<close>, if any.
\<close>

definition pa_connect :: "pa_env \<Rightarrow> nat \<Rightarrow> 'f pa_ilda \<Rightarrow> bool \<times> 'f pa_ilda \<times> nat option" where
  "pa_connect env index d =
     (if length (pa_valid d) \<le> index then (False, d, None)
      else (let dev = pa_valid d ! index;
                ch = min 6 (dev_max_output (pa_devices env ! dev));
                d1 = d\<lparr>pa_channels := ch\<rparr>
            in case find (pa_format_ok env dev ch) srates of
                 None \<Rightarrow> (False, d1\<lparr>pa_sr := 0\<rparr>, None)
               | Some r \<Rightarrow>
                   (if pa_open_ok env dev r then (True, d1\<lparr>pa_sr := r, pa_stream := True\<rparr>, Some r)
                    else (False, d1\<lparr>pa_sr := r\<rparr>, Some r))))"

definition pa_connnected :: "'f pa_ilda \<Rightarrow> bool" where
  "pa_connnected d = pa_stream d"

definition pa_Interlock :: "bool \<Rightarrow> bool" where
  "pa_Interlock state = state"

definition pa_Shutter :: "bool \<Rightarrow> 'f pa_ilda \<Rightarrow> bool \<times> 'f pa_ilda" where
  "pa_Shutter state d = (state, d\<lparr>pa_shutter := state\<rparr>)"

definition pa_disconnect :: "'f pa_ilda \<Rightarrow> bool \<times> 'f pa_ilda" where
  "pa_disconnect d = (if pa_stream d then (True, d\<lparr>pa_stream := False\<rparr>) else (False, d))"

definition pa_BufferFillStatus :: "'f pa_ilda \<Rightarrow> nat" where
  "pa_BufferFillStatus d = size_sub pa_BUFFER_SZ (length (pa_ring d))"

text \<open>\<open>push_back\<close> of a \<open>boost::circular_buffer\<close> drops the oldest entry when it is full.\<close>

definition ring_push :: "'f pointf list \<Rightarrow> 'f pointf \<Rightarrow> 'f pointf list" where
  "ring_push r p = (if length r < pa_BUFFER_SZ then r @ [p] else tl r @ [p])"

definition pa_NewPoints :: "'f pointf list \<Rightarrow> nat \<Rightarrow> 'f pa_ilda \<Rightarrow> nat \<times> 'f pa_ilda" where
  "pa_NewPoints pts offset d =
     (let transfer = size_sub (length pts) offset;
          room = size_sub pa_BUFFER_SZ (length (pa_ring d));
          transfer = (if transfer > room then room else transfer)
      in (transfer,
          d\<lparr>pa_ring := fold (\<lambda>i r. ring_push r (pts ! (i + offset))) [0..<transfer] (pa_ring d)\<rparr>))"

text \<open>
  One frame of the audio callback: a sample per channel. \<open>mean\<close> is the float expression
  \<open>(p.r + p.g + p.b) / 3.0\<close> of the intensity channel, \<open>old\<close> what the buffer of the sound
  system holds at the places past the sixth channel, which the code does not write.
\<close>

definition pa_sample :: "('f \<Rightarrow> 'f \<Rightarrow> 'f \<Rightarrow> 'f) \<Rightarrow> 'f \<Rightarrow> 'f pointf \<Rightarrow> nat \<Rightarrow> 'f" where
  "pa_sample mean old p j =
     (if j = 0 then pf_x p else if j = 1 then pf_y p else if j = 2 then pf_r p
      else if j = 3 then pf_g p else if j = 4 then pf_b p
      else if j = 5 then mean (pf_r p) (pf_g p) (pf_b p) else old)"

definition paCallback ::
  "('f \<Rightarrow> 'f \<Rightarrow> 'f \<Rightarrow> 'f) \<Rightarrow> 'f \<Rightarrow> 'f \<Rightarrow> nat \<Rightarrow> 'f pa_ilda \<Rightarrow> 'f list \<times> 'f pa_ilda" where
  "paCallback mean zero old framesPerBuffer t =
     (let nf = min (length (pa_ring t)) framesPerBuffer;
          frames = map (\<lambda>p. map (pa_sample mean old p) [0..<pa_channels t]) (take nf (pa_ring t))
      in (concat frames @ replicate (pa_channels t * (framesPerBuffer - nf)) zero,
          t\<lparr>pa_ring := drop nf (pa_ring t)\<rparr>))"

section \<open>The contract of the output buffer\<close>

locale ilda_buffer =
  fixes fill :: "'s \<Rightarrow> nat"
    and new_points :: "'f pointf list \<Rightarrow> nat \<Rightarrow> 's \<Rightarrow> nat \<times> 's"
    and ok :: "'s \<Rightarrow> bool"
  assumes taken: "ok s \<Longrightarrow> offset \<le> length pts \<Longrightarrow> length pts < 2 ^ 64 \<Longrightarrow>
      fst (new_points pts offset s) = min (fill s) (length pts - offset)"
    and space_left: "ok s \<Longrightarrow> offset \<le> length pts \<Longrightarrow> length pts < 2 ^ 64 \<Longrightarrow>
      fill (snd (new_points pts offset s)) = fill s - fst (new_points pts offset s)"
    and still_ok: "ok s \<Longrightarrow> offset \<le> length pts \<Longrightarrow> length pts < 2 ^ 64 \<Longrightarrow>
      ok (snd (new_points pts offset s))"
begin

lemma taken_in_range:
  "ok s \<Longrightarrow> offset \<le> length pts \<Longrightarrow> length pts < 2 ^ 64 \<Longrightarrow>
   offset + fst (new_points pts offset s) \<le> length pts"
  by (simp add: taken)

text \<open>With space left, a call either takes a point or there was none to take.\<close>

lemma progress:
  "ok s \<Longrightarrow> offset < length pts \<Longrightarrow> length pts < 2 ^ 64 \<Longrightarrow> 0 < fill s \<Longrightarrow>
   fill (snd (new_points pts offset s)) < fill s"
  by (simp add: taken space_left)

lemma all_or_full:
  "ok s \<Longrightarrow> offset \<le> length pts \<Longrightarrow> length pts < 2 ^ 64 \<Longrightarrow>
   offset + fst (new_points pts offset s) < length pts \<Longrightarrow>
   fill (snd (new_points pts offset s)) = 0"
  using taken [of s offset pts] space_left [of s offset pts] by linarith

end

lemma size_sub_le: "b \<le> a \<Longrightarrow> a < 2 ^ 64 \<Longrightarrow> size_sub a b = a - b"
proof -
  assume b: "b \<le> a" and a: "a < 2 ^ 64"
  have ua: "unat (of_nat a :: u64) = a" using a by (simp add: unat_of_nat)
  have ub: "unat (of_nat b :: u64) = b" using a b by (simp add: unat_of_nat)
  have "(of_nat b :: u64) \<le> of_nat a" using ua ub b by (simp add: word_le_nat_alt)
  then have "unat (of_nat a - of_nat b :: u64) = unat (of_nat a :: u64) - unat (of_nat b :: u64)"
    by (rule unat_sub)
  with ua ub show ?thesis by (simp add: size_sub_def)
qed

definition dummy_ok :: "dummy_ilda \<Rightarrow> bool" where
  "dummy_ok d \<longleftrightarrow> dm_fill d \<le> dummy_BUFFER_SZ"

lemma dummy_fill: "dummy_ok d \<Longrightarrow> dummy_BufferFillStatus d = dummy_BUFFER_SZ - dm_fill d"
  by (simp add: dummy_BufferFillStatus_def dummy_ok_def dummy_BUFFER_SZ_def size_sub_le)

lemma dummy_NewPoints_eq:
  "dummy_ok d \<Longrightarrow> offset \<le> length pts \<Longrightarrow> length pts < 2 ^ 64 \<Longrightarrow>
   dummy_NewPoints pts offset d =
     (min (dummy_BUFFER_SZ - dm_fill d) (length pts - offset),
      d\<lparr>dm_fill := dm_fill d + min (dummy_BUFFER_SZ - dm_fill d) (length pts - offset)\<rparr>)"
  by (simp add: dummy_NewPoints_def Let_def dummy_ok_def dummy_BUFFER_SZ_def size_sub_le)

interpretation dummy: ilda_buffer dummy_BufferFillStatus dummy_NewPoints dummy_ok
  by unfold_locales
     (simp_all add: dummy_NewPoints_eq dummy_fill dummy_ok_def)

definition pa_ok :: "'f pa_ilda \<Rightarrow> bool" where
  "pa_ok d \<longleftrightarrow> length (pa_ring d) \<le> pa_BUFFER_SZ"

lemma pa_fill: "pa_ok d \<Longrightarrow> pa_BufferFillStatus d = pa_BUFFER_SZ - length (pa_ring d)"
  by (simp add: pa_BufferFillStatus_def pa_ok_def pa_BUFFER_SZ_def size_sub_le)

lemma ring_push_fold:
  "length r + n \<le> pa_BUFFER_SZ \<Longrightarrow> n + offset \<le> length pts \<Longrightarrow>
   fold (\<lambda>i r. ring_push r (pts ! (i + offset))) [0..<n] r = r @ take n (drop offset pts)"
proof (induction n)
  case (Suc n)
  then show ?case
    by (simp add: ring_push_def take_Suc_conv_app_nth add.commute)
qed simp

lemma pa_NewPoints_eq:
  assumes "pa_ok d" and "offset \<le> length pts" and "length pts < 2 ^ 64"
  shows "pa_NewPoints pts offset d =
     (min (pa_BUFFER_SZ - length (pa_ring d)) (length pts - offset),
      d\<lparr>pa_ring := pa_ring d @
          take (min (pa_BUFFER_SZ - length (pa_ring d)) (length pts - offset)) (drop offset pts)\<rparr>)"
proof -
  have "size_sub pa_BUFFER_SZ (length (pa_ring d)) = pa_BUFFER_SZ - length (pa_ring d)"
    using assms(1) by (simp add: size_sub_le pa_ok_def pa_BUFFER_SZ_def)
  moreover have "length (pa_ring d) \<le> pa_BUFFER_SZ" using assms(1) by (simp add: pa_ok_def)
  ultimately show ?thesis
    using assms(2,3) by (auto simp: pa_NewPoints_def Let_def size_sub_le ring_push_fold min_def)
qed

interpretation pa: ilda_buffer pa_BufferFillStatus pa_NewPoints pa_ok
  by unfold_locales
     (simp_all add: pa_NewPoints_eq pa_fill pa_ok_def)

section \<open>The virtual dispatch\<close>

datatype 'f driver = Dummy_driver dummy_ilda | Sound_driver "'f pa_ilda"

definition driver_flags :: "'f driver \<Rightarrow> u32" where
  "driver_flags d = (case d of Dummy_driver _ \<Rightarrow> OUTPUTS_ILDA | Sound_driver _ \<Rightarrow> OUTPUTS_ILDA)"

definition driver_fill :: "'f driver \<Rightarrow> nat" where
  "driver_fill d = (case d of Dummy_driver a \<Rightarrow> dummy_BufferFillStatus a
                            | Sound_driver b \<Rightarrow> pa_BufferFillStatus b)"

definition driver_new_points :: "'f pointf list \<Rightarrow> nat \<Rightarrow> 'f driver \<Rightarrow> nat \<times> 'f driver" where
  "driver_new_points pts offset d =
     (case d of
        Dummy_driver a \<Rightarrow> map_prod id Dummy_driver (dummy_NewPoints pts offset a)
      | Sound_driver b \<Rightarrow> map_prod id Sound_driver (pa_NewPoints pts offset b))"

definition driver_shutter :: "bool \<Rightarrow> 'f driver \<Rightarrow> bool \<times> 'f driver" where
  "driver_shutter state d =
     (case d of
        Dummy_driver a \<Rightarrow> (True, d)
      | Sound_driver b \<Rightarrow> map_prod id Sound_driver (pa_Shutter state b))"

definition driver_interlock :: "bool \<Rightarrow> 'f driver \<Rightarrow> bool" where
  "driver_interlock state d =
     (case d of Dummy_driver _ \<Rightarrow> True | Sound_driver _ \<Rightarrow> pa_Interlock state)"

definition driver_pps :: "'f driver \<Rightarrow> nat" where
  "driver_pps d = (case d of Dummy_driver _ \<Rightarrow> 30000 | Sound_driver b \<Rightarrow> pa_sr b)"

text \<open>Neither driver overloads \<open>connected\<close>: their methods are named \<open>connnected\<close>.\<close>

definition driver_connected :: "'f driver \<Rightarrow> bool" where
  "driver_connected d = base_connected"

definition dummy_connnected :: "dummy_ilda \<Rightarrow> bool" where
  "dummy_connnected d = dm_connected d"

definition driver_ok :: "'f driver \<Rightarrow> bool" where
  "driver_ok d = (case d of Dummy_driver a \<Rightarrow> dummy_ok a | Sound_driver b \<Rightarrow> pa_ok b)"

interpretation hw: ilda_buffer driver_fill driver_new_points driver_ok
proof unfold_locales
  fix s :: "'f driver" and offset :: nat and pts :: "'f pointf list"
  assume h: "driver_ok s" "offset \<le> length pts" "length pts < 2 ^ 64"
  show "fst (driver_new_points pts offset s) = min (driver_fill s) (length pts - offset)"
    using h by (cases s) (simp_all add: driver_ok_def driver_new_points_def driver_fill_def
        dummy.taken pa.taken)
  show "driver_fill (snd (driver_new_points pts offset s)) =
      driver_fill s - fst (driver_new_points pts offset s)"
    using h by (cases s) (simp_all add: driver_ok_def driver_new_points_def driver_fill_def
        dummy.space_left pa.space_left)
  show "driver_ok (snd (driver_new_points pts offset s))"
    using h by (cases s) (simp_all add: driver_ok_def driver_new_points_def
        dummy.still_ok pa.still_ok)
qed

section \<open>The sound card's ring buffer as a queue\<close>

datatype 'f pa_event = Points "'f pointf list" nat | Callback nat

text \<open>The state, the points the driver has accepted and the points it has played, so far.\<close>

fun pa_step :: "('f \<Rightarrow> 'f \<Rightarrow> 'f \<Rightarrow> 'f) \<Rightarrow> 'f \<Rightarrow> 'f \<Rightarrow> 'f pa_event \<Rightarrow> 'f pa_ilda \<times> 'f pointf list \<times> 'f pointf list \<Rightarrow>
    'f pa_ilda \<times> 'f pointf list \<times> 'f pointf list" where
  "pa_step mean zero old (Points pts offset) (d, accepted, played) =
     (let (n, d1) = pa_NewPoints pts offset d in
      (d1, accepted @ take n (drop offset pts), played))"
| "pa_step mean zero old (Callback n) (d, accepted, played) =
     (let d1 = snd (paCallback mean zero old n d) in
      (d1, accepted, played @ take n (pa_ring d)))"

definition sane_event :: "'f pa_event \<Rightarrow> bool" where
  "sane_event e = (case e of Points pts offset \<Rightarrow> offset \<le> length pts \<and> length pts < 2 ^ 64
                           | Callback _ \<Rightarrow> True)"

lemma pa_step_queue:
  assumes "sane_event e" and "pa_ok d" and "accepted = played @ pa_ring d"
    and "pa_step mean zero old e (d, accepted, played) = (d', accepted', played')"
  shows "pa_ok d' \<and> accepted' = played' @ pa_ring d'"
proof (cases e)
  case (Points pts offset)
  with assms(1) have o: "offset \<le> length pts" "length pts < 2 ^ 64" by (simp_all add: sane_event_def)
  from assms(4) Points pa.still_ok [OF assms(2) o] show ?thesis
    by (auto simp: pa_NewPoints_eq [OF assms(2) o] assms(3))
next
  case (Callback n)
  with assms show ?thesis
    by (auto simp: paCallback_def Let_def pa_ok_def min_def)
qed

lemma pa_run_queue:
  "\<forall>e \<in> set es. sane_event e \<Longrightarrow> pa_ok d \<Longrightarrow> accepted = played @ pa_ring d \<Longrightarrow>
   fold (pa_step mean zero old) es (d, accepted, played) = (d', accepted', played') \<Longrightarrow>
   pa_ok d' \<and> accepted' = played' @ pa_ring d'"
proof (induction es arbitrary: d accepted played)
  case (Cons e es)
  obtain d1 a1 p1 where s: "pa_step mean zero old e (d, accepted, played) = (d1, a1, p1)"
    by (metis prod_cases3)
  have "pa_ok d1 \<and> a1 = p1 @ pa_ring d1"
    using Cons.prems by (intro pa_step_queue [OF _ _ _ s]) auto
  with Cons.prems s show ?case by (intro Cons.IH [of d1 a1 p1]) auto
qed simp

section \<open>Properties\<close>

text \<open>
  C28. The ring buffer between the laser head and the audio callback is a bounded queue: whatever
  the two sides do, the points played are those accepted, in order and without loss or
  repetition, what is accepted and not yet played is what the buffer holds, and it never holds
  more than 1024 points.
\<close>

theorem ring_buffer_is_fifo:
  assumes "\<forall>e \<in> set es. sane_event e"
    and "fold (pa_step mean zero old) es (PA_ILDA junk, [], []) = (d, accepted, played)"
  shows "accepted = played @ pa_ring d \<and> length (pa_ring d) \<le> 1024"
  using pa_run_queue [OF assms(1) _ _ assms(2)]
  by (simp add: PA_ILDA_def pa_ok_def pa_BUFFER_SZ_def)

definition sample_point :: "nat \<Rightarrow> nat pointf" where
  "sample_point n = \<lparr>pf_x = n, pf_y = n, pf_r = n, pf_g = n, pf_b = n\<rparr>"

definition fifo_events :: "nat pa_event list" where
  "fifo_events = [Points [sample_point 1, sample_point 2, sample_point 3] 1, Callback 1]"

theorem ring_buffer_is_fifo_witness:
  "fold (pa_step (\<lambda>r g b. r) 0 0) fifo_events (PA_ILDA 6, [], []) =
     ((PA_ILDA 6)\<lparr>pa_ring := [sample_point 3]\<rparr>, [sample_point 2, sample_point 3], [sample_point 2]) \<and>
   [sample_point 2, sample_point 3] = [sample_point 2] @ [sample_point 3]"
proof -
  have e: "\<forall>e \<in> set fifo_events. sane_event e" by (simp add: fifo_events_def sane_event_def)
  have f: "fold (pa_step (\<lambda>r g b. r) 0 0) fifo_events (PA_ILDA 6, [], []) =
     ((PA_ILDA 6)\<lparr>pa_ring := [sample_point 3]\<rparr>, [sample_point 2, sample_point 3], [sample_point 2])"
    by (simp add: fifo_events_def pa_NewPoints_eq pa_ok_def PA_ILDA_def pa_BUFFER_SZ_def
        paCallback_def min_def)
  from ring_buffer_is_fifo [OF e f] f show ?thesis by simp
qed

lemma nth_concat_rows:
  "\<forall>xs \<in> set xss. length xs = c \<Longrightarrow> i < length xss \<Longrightarrow> j < c \<Longrightarrow>
   concat xss ! (c * i + j) = xss ! i ! j"
proof (induction xss arbitrary: i)
  case (Cons xs xss)
  then show ?case by (cases i) (auto simp: nth_append)
qed simp

text \<open>The block as rows, one for each frame.\<close>

lemma paCallback_rows:
  "fst (paCallback mean zero old n t) = concat (map (\<lambda>i. map (\<lambda>j.
     if i < length (pa_ring t) then pa_sample mean old (pa_ring t ! i) j else zero)
     [0..<pa_channels t]) [0..<n])"
proof -
  let ?c = "pa_channels t" and ?r = "pa_ring t" and ?nf = "min (length (pa_ring t)) n"
  let ?row = "\<lambda>i. map (\<lambda>j. if i < length ?r then pa_sample mean old (?r ! i) j else zero) [0..<?c]"
  have "map (\<lambda>p. map (pa_sample mean old p) [0..<?c]) (take ?nf ?r) = map ?row [0..<?nf]"
    by (rule nth_equalityI) simp_all
  moreover have "replicate (?c * (n - ?nf)) zero = concat (map ?row [?nf..<n])"
  proof -
    have "map ?row [?nf..<n] = replicate (n - ?nf) (replicate ?c zero)"
      by (rule nth_equalityI) (auto intro: nth_equalityI)
    moreover have "replicate (?c * m) zero = concat (replicate m (replicate ?c zero))" for m
      by (induction m) (simp_all add: replicate_add)
    ultimately show ?thesis by simp
  qed
  moreover have "[0..<n] = [0..<?nf] @ [?nf..<n]"
    using upt_add_eq_append [of 0 ?nf "n - ?nf"] by simp
  ultimately show ?thesis by (simp add: paCallback_def Let_def)
qed

text \<open>
  C25. The audio callback writes exactly the block it was asked for, a sample for each channel of
  each frame: the points the ring holds, in their order, the coordinates, colours and the mean of
  the colours in the first six channels; silence once the ring is empty. The points written are
  taken out of the ring, the others stay.
\<close>

theorem callback_plays_the_points:
  assumes "paCallback mean zero old n t = (out, t')"
  shows "length out = pa_channels t * n \<and> pa_ring t' = drop n (pa_ring t) \<and>
    (\<forall>i < n. \<forall>j < pa_channels t. out ! (pa_channels t * i + j) =
       (if i < length (pa_ring t) then pa_sample mean old (pa_ring t ! i) j else zero))"
proof -
  let ?row = "\<lambda>i. map (\<lambda>j. if i < length (pa_ring t) then pa_sample mean old (pa_ring t ! i) j
    else zero) [0..<pa_channels t]"
  have out: "out = concat (map ?row [0..<n])" using paCallback_rows [of mean zero old n t] assms by simp
  have "length (concat (map ?row xs)) = pa_channels t * length xs" for xs by (induction xs) simp_all
  then have "length out = pa_channels t * n" unfolding out by simp
  moreover have "pa_ring t' = drop n (pa_ring t)"
    using assms by (auto simp: paCallback_def Let_def min_def)
  moreover have "out ! (pa_channels t * i + j) =
      (if i < length (pa_ring t) then pa_sample mean old (pa_ring t ! i) j else zero)"
    if "i < n" "j < pa_channels t" for i j
    using nth_concat_rows [of "map ?row [0..<n]" "pa_channels t" i j] that unfolding out by simp
  ultimately show ?thesis by blast
qed

theorem callback_plays_the_points_witness:
  "let t = (PA_ILDA 2)\<lparr>pa_ring := [sample_point 7]\<rparr>; out = fst (paCallback (\<lambda>r g b. r) 0 9 2 t)
   in length out = 4 \<and> out ! 1 = 7 \<and> out ! 2 = 0"
proof -
  let ?t = "(PA_ILDA 2)\<lparr>pa_ring := [sample_point 7]\<rparr>"
  obtain out t' where c: "paCallback (\<lambda>r g b. r) 0 9 2 ?t = (out, t')" by (metis surj_pair)
  have t: "pa_channels ?t = 2" "pa_ring ?t = [sample_point 7]" by (simp_all add: PA_ILDA_def)
  note p = callback_plays_the_points [OF c, unfolded t]
  then have q: "out ! (2 * i + j) = (if i = 0 then pa_sample (\<lambda>r g b. r) 9 ([sample_point 7] ! i) j else 0)"
    if "i < 2" "j < 2" for i j using that by simp
  have "out ! 1 = 7" "out ! 2 = 0"
    using q [of 0 1] q [of 1 0] by (simp_all add: pa_sample_def sample_point_def)
  then show ?thesis using p by (simp add: c)
qed

text \<open>
  C24. A sound card that connects runs at the highest of the six sample rates it supports, with at
  most six channels.
\<close>

theorem connect_takes_the_highest_rate:
  assumes "pa_connect env index d = (True, d', announced)"
  shows "pa_channels d' \<le> 6 \<and> announced = Some (pa_sr d') \<and> pa_sr d' \<in> set srates \<and>
    pa_format_ok env (pa_valid d ! index) (pa_channels d') (pa_sr d') \<and>
    (\<forall>r \<in> set srates. pa_sr d' < r \<longrightarrow> \<not> pa_format_ok env (pa_valid d ! index) (pa_channels d') r)"
proof -
  let ?dev = "pa_valid d ! index"
  let ?ch = "min 6 (dev_max_output (pa_devices env ! ?dev))"
  obtain r where r: "find (pa_format_ok env ?dev ?ch) srates = Some r"
    "d' = d\<lparr>pa_channels := ?ch, pa_sr := r, pa_stream := True\<rparr>" "announced = Some r"
    using assms by (auto simp: pa_connect_def Let_def split: if_splits option.splits)
  then obtain i where i: "i < length srates" "pa_format_ok env ?dev ?ch (srates ! i)"
    "r = srates ! i" "\<forall>j < i. \<not> pa_format_ok env ?dev ?ch (srates ! j)"
    by (auto simp: find_Some_iff)
  have "\<not> pa_format_ok env ?dev ?ch q" if "q \<in> set srates" "r < q" for q
  proof -
    from that(1) obtain j where j: "j < length srates" "q = srates ! j"
      by (auto simp: in_set_conv_nth)
    have "sorted (rev srates)" by (simp add: srates_def)
    then have "j < i"
      using that(2) i(1,3) j by (metis leD not_le_imp_less sorted_rev_nth_mono)
    with i(4) j(2) show ?thesis by simp
  qed
  with i r show ?thesis by simp
qed

definition one_card :: pa_env where
  "one_card = \<lparr>pa_devices = [\<lparr>dev_name = ''card'', dev_max_output = 8\<rparr>],
               pa_format_ok = (\<lambda>dev ch r. r \<le> 96000), pa_open_ok = (\<lambda>dev r. True),
               pa_count_negative = False\<rparr>"

theorem connect_takes_the_highest_rate_witness:
  "(let (ok, d, r) = pa_connect one_card 0 ((PA_ILDA 0 :: nat pa_ilda)\<lparr>pa_valid := [0]\<rparr>)
    in ok \<and> pa_sr d = 96000 \<and> pa_channels d = 6)"
proof -
  have c: "pa_connect one_card 0 ((PA_ILDA 0 :: nat pa_ilda)\<lparr>pa_valid := [0]\<rparr>) =
    (True, (PA_ILDA 0)\<lparr>pa_valid := [0], pa_channels := 6, pa_sr := 96000, pa_stream := True\<rparr>,
     Some 96000)"
    by (simp add: pa_connect_def one_card_def PA_ILDA_def srates_def)
  from connect_takes_the_highest_rate [OF c] c show ?thesis by simp
qed

text \<open>
  Closing the shutter of the sound card driver has no effect on what it plays: the callback
  never reads the flag, so the points already in the buffer go out after an emergency stop.
\<close>

theorem shutter_does_not_stop_the_callback:
  "fst (paCallback mean zero old n (snd (pa_Shutter False t))) = fst (paCallback mean zero old n t)"
  by (simp add: paCallback_def pa_Shutter_def Let_def)

text \<open>
  The use count does not count the drivers: with two sound card drivers alive, deleting one
  ends the PortAudio library under the other.
\<close>

theorem second_driver_loses_portaudio:
  "pa_initialised (pa_destroy (pa_construct True (pa_construct True
     \<lparr>pa_usecount = 0, pa_initialised = False\<rparr>))) = False"
  by (simp add: pa_construct_def pa_destroy_def)

end
