(* ===== verification/Resampler.thy ===== *)
theory Resampler
  imports Frame_Model Driver
begin

text \<open>
  \<open>resampler.h\<close> and \<open>resampler.cpp\<close>: from the points of a frame to the points the hardware
  plays, at its rate. The resampling filter itself is the zita library, not part of the sources:
  its \<open>setup\<close> and \<open>process\<close> are the fields of the record \<open>zita\<close>. \<open>process\<close> takes the samples
  still to read (five floats a point) and the room in the output, and gives its new state, the
  number of points read and the floats it wrote.

  The inner loop of \<open>run\<close> calls \<open>process\<close> until all input is read; \<open>fuel\<close> bounds the calls for one
  block of 1024 points.
\<close>

record ('c, 'f, 'z) zita =
  z_setup :: "nat \<Rightarrow> nat \<Rightarrow> 'z"
  z_process :: "'z \<Rightarrow> 'f list \<Rightarrow> nat \<Rightarrow> 'z \<times> nat \<times> 'f list"
  z_rgbF :: "'c \<Rightarrow> 'f \<times> 'f \<times> 'f" \<comment> \<open>\<open>getRgbF\<close>, converted to float\<close>
  z_coord :: "rat \<Rightarrow> 'f" \<comment> \<open>a coordinate as a float\<close>
  z_junk :: 'f \<comment> \<open>what a fresh buffer holds\<close>

record ('f, 'z) resample =
  rs_input_pps :: nat
  rs_output_pps :: nat
  rs_filter :: 'z
  rs_output :: "'f list" \<comment> \<open>\<open>output_buffer\<close>, which keeps its contents between calls\<close>

definition RESAMPLE_SZ :: nat where
  "RESAMPLE_SZ = 1024"

definition set_resampler :: "('c, 'f, 'z) zita \<Rightarrow> ('f, 'z) resample \<Rightarrow> ('f, 'z) resample res" where
  "set_resampler e r =
     (let divisor = gcd (rs_input_pps r) (rs_output_pps r) in
      if divisor = 0 then Inl Undefined_behaviour
      else Inr (r\<lparr>rs_filter :=
        z_setup e (rs_input_pps r div divisor) (rs_output_pps r div divisor)\<rparr>))"

definition Resample :: "('c, 'f, 'z) zita \<Rightarrow> ('f, 'z) resample" where
  "Resample e = \<lparr>rs_input_pps = 30000, rs_output_pps = 30000, rs_filter = z_setup e 1 1,
     rs_output = replicate (5 * RESAMPLE_SZ) (z_junk e)\<rparr>"

definition setInputPPS :: "('c, 'f, 'z) zita \<Rightarrow> nat \<Rightarrow> ('f, 'z) resample \<Rightarrow> ('f, 'z) resample res" where
  "setInputPPS e pps r = set_resampler e (r\<lparr>rs_input_pps := pps\<rparr>)"

definition setOutputPPS :: "('c, 'f, 'z) zita \<Rightarrow> nat \<Rightarrow> ('f, 'z) resample \<Rightarrow> ('f, 'z) resample res" where
  "setOutputPPS e pps r = set_resampler e (r\<lparr>rs_output_pps := pps\<rparr>)"

text \<open>The five samples of a point; a blanked one is black.\<close>

definition point_samples :: "('c, 'f, 'z) zita \<Rightarrow> 'c point \<Rightarrow> 'f list" where
  "point_samples e p =
     (case z_rgbF e (pt_colour p) of (r, g, b) \<Rightarrow>
       [z_coord e (pt_x p), z_coord e (pt_y p)] @
       (if pt_blanked p then [z_coord e 0, z_coord e 0, z_coord e 0] else [r, g, b]))"

text \<open>The points made of the output: point \<open>i\<close> is read from index \<open>i\<close> of the buffer.\<close>

definition read_output :: "'f list \<Rightarrow> nat \<Rightarrow> 'f pointf" where
  "read_output out i =
     \<lparr>pf_x = out ! i, pf_y = out ! (i + 1), pf_r = out ! (i + 2), pf_g = out ! (i + 3),
      pf_b = out ! (i + 4)\<rparr>"

fun feed_block :: "nat \<Rightarrow> ('c, 'f, 'z) zita \<Rightarrow> 'z \<Rightarrow> 'f list \<Rightarrow> 'f list \<Rightarrow> 'f pointf list \<Rightarrow>
    ('z \<times> 'f list \<times> 'f pointf list) res" where
  "feed_block 0 e z inp out acc = Inl Out_of_fuel"
| "feed_block (Suc k) e z inp out acc =
     (if inp = [] then Inr (z, out, acc)
      else (case z_process e z inp RESAMPLE_SZ of (z', n, w) \<Rightarrow>
        let out' = w @ drop (length w) out in
        feed_block k e z' (drop (5 * n) inp) out'
          (acc @ map (read_output out') [0..<length w div 5])))"

function (sequential) run_blocks :: "nat \<Rightarrow> ('c, 'f, 'z) zita \<Rightarrow> 'z \<Rightarrow> 'f list \<Rightarrow> 'c point list \<Rightarrow>
    'f pointf list \<Rightarrow> ('z \<times> 'f list \<times> 'f pointf list) res" where
  "run_blocks fuel e z out input acc =
     (if input = [] then Inr (z, out, acc)
      else rbind (feed_block fuel e z (concat (map (point_samples e) (take RESAMPLE_SZ input)))
             out acc) (\<lambda>(z', out', acc').
        run_blocks fuel e z' out' (drop RESAMPLE_SZ input) acc'))"
  by pat_completeness auto
termination
  by (relation "measure (\<lambda>(fuel, e, z, out, input, acc). length input)")
     (auto simp: RESAMPLE_SZ_def)

declare run_blocks.simps [simp del]

definition resample_run :: "nat \<Rightarrow> ('c, 'f, 'z) zita \<Rightarrow> 'c point list \<Rightarrow> ('f, 'z) resample \<Rightarrow>
    ('f pointf list \<times> ('f, 'z) resample) res" where
  "resample_run fuel e input r =
     (if rs_input_pps r = 0 then Inl Undefined_behaviour
      else rbind (run_blocks fuel e (rs_filter r) (rs_output r) input []) (\<lambda>(z, out, res).
        Inr (res, r\<lparr>rs_filter := z, rs_output := out\<rparr>)))"

section \<open>A filter that changes nothing\<close>

text \<open>
  The unit filter copies its input; for equal rates this is what a resampler does. It is the
  instance the examples use.
\<close>

definition unit_filter :: "(int \<times> int \<times> int, rat, unit) zita" where
  "unit_filter = \<lparr>z_setup = (\<lambda>_ _. ()), z_process = (\<lambda>z inp room.
       ((), min room (length inp div 5), take (5 * min room (length inp div 5)) inp)),
     z_rgbF = (\<lambda>(r, g, b). (of_int r / 255, of_int g / 255, of_int b / 255)),
     z_coord = (\<lambda>r. r), z_junk = 0\<rparr>"

lemma length_point_samples [simp]: "length (point_samples e p) = 5"
  by (simp add: point_samples_def split: prod.splits)

lemma length_samples [simp]: "length (concat (map (point_samples e) ps)) = 5 * length ps"
  by (induction ps) simp_all

section \<open>Properties\<close>

text \<open>
  The filter is set up with the two rates in lowest terms: their quotient is the quotient of
  the rates and they have no common factor. Only two rates of zero have no filter.
\<close>

theorem filter_set_up_in_lowest_terms:
  assumes "rs_input_pps r \<noteq> 0 \<or> rs_output_pps r \<noteq> 0"
  shows "\<exists>a b. set_resampler e r = Inr (r\<lparr>rs_filter := z_setup e a b\<rparr>) \<and> coprime a b \<and>
    a * rs_output_pps r = b * rs_input_pps r"
proof -
  let ?g = "gcd (rs_input_pps r) (rs_output_pps r)"
  let ?a = "rs_input_pps r div ?g" and ?b = "rs_output_pps r div ?g"
  have g: "?g \<noteq> 0" using assms by simp
  have "coprime ?a ?b" using assms by (rule div_gcd_coprime)
  moreover have "?a * rs_output_pps r = ?b * rs_input_pps r"
    by (metis dvd_div_mult gcd_dvd1 gcd_dvd2 mult.commute)
  ultimately show ?thesis using g by (intro exI [of _ ?a] exI [of _ ?b]) (simp add: set_resampler_def Let_def)
qed

theorem filter_set_up_in_lowest_terms_witness:
  "setInputPPS unit_filter 12000 (Resample unit_filter) =
     Inr ((Resample unit_filter)\<lparr>rs_input_pps := 12000, rs_filter := ()\<rparr>)"
proof -
  have "rs_input_pps ((Resample unit_filter)\<lparr>rs_input_pps := 12000\<rparr>) \<noteq> 0 \<or>
      rs_output_pps ((Resample unit_filter)\<lparr>rs_input_pps := 12000\<rparr>) \<noteq> 0" by simp
  from filter_set_up_in_lowest_terms [OF this, of unit_filter]
  show ?thesis by (auto simp: setInputPPS_def)
qed

text \<open>
  The output of the filter is read one float further for each point, not one point further:
  two lit points come out of the unit filter with the second one made of the first one's
  vertical coordinate and colours.
\<close>

theorem output_points_overlap:
  "rbind (resample_run 2 unit_filter
      [(Point 1 2 0 (255, 255, 0))\<lparr>pt_blanked := False\<rparr>, (Point 3 4 0 (0, 0, 255))\<lparr>pt_blanked := False\<rparr>]
      (Resample unit_filter)) (\<lambda>(pts, _). Inr pts) =
   Inr [\<lparr>pf_x = 1, pf_y = 2, pf_r = 1, pf_g = 1, pf_b = 0\<rparr>,
        \<lparr>pf_x = 2, pf_y = 1, pf_r = 1, pf_g = 0, pf_b = 3\<rparr>]"
proof -
  have two: "feed_block 2 e z inp out acc = feed_block (Suc (Suc 0)) e z inp out acc"
    for e :: "(int \<times> int \<times> int, rat, unit) zita" and z inp out acc
    by (simp add: numeral_2_eq_2)
  show ?thesis
    by (simp add: resample_run_def run_blocks.simps two unit_filter_def Resample_def
        RESAMPLE_SZ_def point_samples_def Point_def read_output_def upt_rec Let_def)
qed

end
