(* ===== verification/Playback_List.thy ===== *)
theory Playback_List
  imports Lucifer_Prelude
begin

text \<open>
  \<open>playbacklist.h\<close> and \<open>playbacklist.cpp\<close>: the list of selected frame sources of one laser
  head. The record holds the members of the class; the lock is recursive and held for the
  length of each operation, so an operation is one step. An operation returns the new state
  and the Qt signals it emitted, in order. \<open>currentIndex\<close> and the result of \<open>next\<close> are C++
  \<open>int\<close>s that only ever hold \<open>-1\<close> or a converted \<open>unsigned int\<close>: the 32-bit word of that
  value. The values of \<open>rand ()\<close> still to come are part of the state.
\<close>

datatype selection_modes = SINGLE | MULTIPLE | SHUFFLE

datatype step_modes = ONCE | LOOP | MANUAL | BEAT

datatype pl_signal =
    SelectionChanged u32 bool
  | Load u32
  | DumpCurrentSelection

record playback_list =
  selections :: "u32 list"
  selMode :: selection_modes
  stepMode :: step_modes
  currentIndex :: u32
  pl_rand :: "nat \<Rightarrow> nat"

definition PlaybackList :: "(nat \<Rightarrow> nat) \<Rightarrow> playback_list" where
  "PlaybackList rnd =
     \<lparr>selections = [], selMode = SINGLE, stepMode = LOOP, currentIndex = -1, pl_rand = rnd\<rparr>"

section \<open>The operations\<close>

text \<open>The value \<open>next\<close> ends with: the first selection, or -1.\<close>

definition first_selection :: "playback_list \<Rightarrow> u32" where
  "first_selection s = (case selections s of [] \<Rightarrow> -1 | x # _ \<Rightarrow> x)"

definition load_signal :: "playback_list \<Rightarrow> pl_signal list" where
  "load_signal s = (case selections s of [] \<Rightarrow> [] | x # _ \<Rightarrow> [Load x])"

text \<open>The cases LOOP, MANUAL and BEAT of \<open>next\<close>: the first selection goes to the end, and in
  shuffle mode the whole vector is shuffled.\<close>

definition rotate_selections :: "playback_list \<Rightarrow> playback_list" where
  "rotate_selections s =
     (let r = tl (selections s) @ [hd (selections s)] in
      if selMode s = SHUFFLE
      then s\<lparr>selections := random_shuffle (pl_rand s) r,
             pl_rand := rand_advance (length r - 1) (pl_rand s)\<rparr>
      else s\<lparr>selections := r\<rparr>)"

function (sequential) select :: "u32 \<Rightarrow> bool \<Rightarrow> playback_list \<Rightarrow> playback_list \<times> pl_signal list"
  and next_source :: "bool \<Rightarrow> playback_list \<Rightarrow> u32 \<times> playback_list \<times> pl_signal list" where
  "select pos False s =
     (case find_index (\<lambda>x. x = pos) (selections s) of
        None \<Rightarrow> (s, [])
      | Some i \<Rightarrow>
          (let s1 = s\<lparr>selections := erase_at i (selections s)\<rparr> in
           if i = 0
           then (let (r, s2, e) = next_source False (s1\<lparr>currentIndex := -1\<rparr>) in
                 (s2, [SelectionChanged pos False, DumpCurrentSelection] @ e))
           else (s1, [SelectionChanged pos False])))"
| "select pos True s =
     (let (s1, e1) = (if pos \<in> set (selections s) then select pos False s else (s, [])) in
      if selMode s1 = SINGLE
      then (let e2 = map (\<lambda>x. SelectionChanged x False) (selections s1) @ [DumpCurrentSelection];
                (r, s2, e3) = next_source False (s1\<lparr>selections := [pos], currentIndex := -1\<rparr>) in
            (s2, e1 @ e2 @ e3 @ [SelectionChanged pos True]))
      else (s1\<lparr>selections := selections s1 @ [pos]\<rparr>, e1 @ [SelectionChanged pos True]))"
| "next_source running s =
     (if selections s = [] then (-1, s, [])
      else (case stepMode s of
              ONCE \<Rightarrow>
                (let oldsel = hd (selections s);
                     (s1, e1) = (if running then select oldsel False s else (s, [])) in
                 (first_selection s1, s1,
                  e1 @ load_signal s1 @ [SelectionChanged oldsel False]))
            | _ \<Rightarrow>
                (let s1 = rotate_selections s in (first_selection s1, s1, load_signal s1))))"
  by pat_completeness auto
termination
  by (relation "measure (\<lambda>x. case x of Inl (pos, active, s) \<Rightarrow> if active then 3 else 1
                                     | Inr (running, s) \<Rightarrow> if running then 2 else (0::nat))")
     auto

definition getSelectionMode :: "playback_list \<Rightarrow> selection_modes" where
  "getSelectionMode s = selMode s"

definition getStepMode :: "playback_list \<Rightarrow> step_modes" where
  "getStepMode s = stepMode s"

text \<open>The loop that erases the last entry until one is left, one signal for each.\<close>

definition drop_all_but_first :: "playback_list \<Rightarrow> playback_list \<times> pl_signal list" where
  "drop_all_but_first s =
     (s\<lparr>selections := take 1 (selections s)\<rparr>,
      map (\<lambda>x. SelectionChanged x False) (rev (drop 1 (selections s))))"

definition setSelectionMode :: "selection_modes \<Rightarrow> playback_list \<Rightarrow> playback_list \<times> pl_signal list" where
  "setSelectionMode mode s =
     (let (s1, e) = (if mode = SINGLE then drop_all_but_first s else (s, [])) in
      (s1\<lparr>selMode := mode\<rparr>, e))"

definition setStepMode :: "step_modes \<Rightarrow> playback_list \<Rightarrow> playback_list \<times> pl_signal list" where
  "setStepMode mode s = (s\<lparr>stepMode := mode\<rparr>, [])"

definition step_now :: "playback_list \<Rightarrow> playback_list \<times> pl_signal list" where
  "step_now s =
     (let (r, s1, e) = next_source True s in
      (s1\<lparr>currentIndex := r\<rparr>, e @ [DumpCurrentSelection]))"

definition beatDetected :: "playback_list \<Rightarrow> playback_list \<times> pl_signal list" where
  "beatDetected s = (if stepMode s = BEAT then step_now s else (s, []))"

definition manualStepClicked :: "playback_list \<Rightarrow> playback_list \<times> pl_signal list" where
  "manualStepClicked s = (if stepMode s = MANUAL then step_now s else (s, []))"

definition clear_list :: "playback_list \<Rightarrow> playback_list \<times> pl_signal list" where
  "clear_list s =
     (let (s1, e) = drop_all_but_first s in
      (s1\<lparr>currentIndex := -1\<rparr>, e @ [DumpCurrentSelection]))"

definition getNextFramesource :: "playback_list \<Rightarrow> u32 \<times> playback_list \<times> pl_signal list" where
  "getNextFramesource s =
     (let (s2, e) =
        (if stepMode s = ONCE \<or> stepMode s = LOOP \<or> currentIndex s = -1
         then (let (r, s1, e1) = next_source (currentIndex s \<noteq> -1) s in
               (s1\<lparr>currentIndex := r\<rparr>, e1))
         else (s, [])) in
      (currentIndex s2, s2, e))"

definition getFrameSource :: "playback_list \<Rightarrow> u32" where
  "getFrameSource s = currentIndex s"

definition isSelected :: "u32 \<Rightarrow> playback_list \<Rightarrow> bool" where
  "isSelected sel s \<longleftrightarrow> sel \<in> set (selections s)"

definition selectionModeList :: "string list" where
  "selectionModeList = [''Single'', ''Multiple'', ''Shuffle'']"

definition stepModeList :: "string list" where
  "stepModeList = [''Once'', ''Loop'', ''Manual'', ''Beat'']"

section \<open>Any sequence of calls\<close>

datatype pl_op =
    Select u32 bool
  | Set_selection_mode selection_modes
  | Set_step_mode step_modes
  | Manual_step
  | Beat
  | Next_framesource
  | Clear

fun pl_step :: "pl_op \<Rightarrow> playback_list \<Rightarrow> playback_list \<times> pl_signal list" where
  "pl_step (Select pos active) s = select pos active s"
| "pl_step (Set_selection_mode m) s = setSelectionMode m s"
| "pl_step (Set_step_mode m) s = setStepMode m s"
| "pl_step Manual_step s = manualStepClicked s"
| "pl_step Beat s = beatDetected s"
| "pl_step Next_framesource s = (let (r, s1, e) = getNextFramesource s in (s1, e))"
| "pl_step Clear s = clear_list s"

fun pl_run :: "pl_op list \<Rightarrow> playback_list \<Rightarrow> playback_list \<times> pl_signal list" where
  "pl_run [] s = (s, [])"
| "pl_run (p # ps) s = (let (s1, e1) = pl_step p s; (s2, e2) = pl_run ps s1 in (s2, e1 @ e2))"

text \<open>\<open>n\<close> requests of the head for the next source, and the answers it gets.\<close>

fun pl_answers :: "nat \<Rightarrow> playback_list \<Rightarrow> u32 list \<times> playback_list" where
  "pl_answers 0 s = ([], s)"
| "pl_answers (Suc n) s =
     (let (r, s1, e) = getNextFramesource s; (rs, s2) = pl_answers n s1 in (r # rs, s2))"

section \<open>Invariant\<close>

text \<open>
  No source is selected twice, the single mode holds at most one selection, and the current
  source is the head of the vector or none.
\<close>

definition pl_inv :: "playback_list \<Rightarrow> bool" where
  "pl_inv s \<longleftrightarrow>
     distinct (selections s) \<and>
     (selMode s = SINGLE \<longrightarrow> length (selections s) \<le> 1) \<and>
     (currentIndex s = -1 \<or> (selections s \<noteq> [] \<and> currentIndex s = hd (selections s)))"

lemma rotate_selections_simps [simp]:
  "selMode (rotate_selections s) = selMode s"
  "stepMode (rotate_selections s) = stepMode s"
  "currentIndex (rotate_selections s) = currentIndex s"
  by (simp_all add: rotate_selections_def Let_def)

lemma mset_rotate_selections:
  "selections s \<noteq> [] \<Longrightarrow> mset (selections (rotate_selections s)) = mset (selections s)"
  by (cases "selections s") (simp_all add: rotate_selections_def Let_def)

lemma rotate_selections_list:
  assumes "selections s \<noteq> []"
  shows "set (selections (rotate_selections s)) = set (selections s)"
    and "length (selections (rotate_selections s)) = length (selections s)"
    and "distinct (selections (rotate_selections s)) = distinct (selections s)"
    and "selections (rotate_selections s) \<noteq> []"
proof -
  note m = mset_rotate_selections [OF assms]
  from m show "set (selections (rotate_selections s)) = set (selections s)"
    by (rule mset_eq_setD)
  from m show l: "length (selections (rotate_selections s)) = length (selections s)"
    by (rule mset_eq_length)
  from m show "distinct (selections (rotate_selections s)) = distinct (selections s)"
    by (rule mset_eq_imp_distinct_iff)
  from l assms show "selections (rotate_selections s) \<noteq> []"
    by (metis length_0_conv)
qed

lemma first_selection_eq:
  "first_selection s = (if selections s = [] then -1 else hd (selections s))"
  by (simp add: first_selection_def split: list.splits)

declare select.simps [simp del] next_source.simps [simp del]

text \<open>What every call of \<open>next\<close> and \<open>select\<close> keeps, whatever the modes.\<close>

definition same_modes :: "playback_list \<Rightarrow> playback_list \<Rightarrow> bool" where
  "same_modes s t \<longleftrightarrow> selMode t = selMode s \<and> stepMode t = stepMode s"

lemma next_idle:
  assumes "next_source False s = (r, t, e)"
  shows "mset (selections t) = mset (selections s)"
    and "same_modes s t"
    and "currentIndex t = currentIndex s"
    and "r = first_selection t"
  using assms
  by (auto simp: same_modes_def Let_def first_selection_eq mset_rotate_selections
      rotate_selections_list(4) next_source.simps split: if_splits step_modes.splits)

lemma next_idle_list:
  assumes "next_source False s = (r, t, e)"
  shows "set (selections t) = set (selections s)"
    and "length (selections t) = length (selections s)"
    and "distinct (selections t) = distinct (selections s)"
  by (rule mset_eq_setD [OF next_idle(1) [OF assms]],
      rule mset_eq_length [OF next_idle(1) [OF assms]],
      rule mset_eq_imp_distinct_iff [OF next_idle(1) [OF assms]])

lemma deselect_cases:
  assumes "select pos False s = (t, e)"
  obtains (absent) "pos \<notin> set (selections s)" "t = s" "e = []"
  | (first) r e' where
      "selections s \<noteq> []" "hd (selections s) = pos"
      "next_source False (s\<lparr>selections := tl (selections s), currentIndex := -1\<rparr>) = (r, t, e')"
      "e = [SelectionChanged pos False, DumpCurrentSelection] @ e'"
  | (later) i where
      "0 < i" "i < length (selections s)" "selections s ! i = pos"
      "t = s\<lparr>selections := erase_at i (selections s)\<rparr>"
      "e = [SelectionChanged pos False]"
proof (cases "find_index (\<lambda>x. x = pos) (selections s)")
  case None
  then have "pos \<notin> set (selections s)" by (auto simp: find_index_None_iff)
  moreover from None assms have "t = s" "e = []" by (simp_all add: select.simps)
  ultimately show ?thesis by (rule absent)
next
  case (Some i)
  note i = find_index_SomeD [OF Some]
  show ?thesis
  proof (cases "i = 0")
    case True
    then have "selections s \<noteq> []" "hd (selections s) = pos"
      using i by (auto simp: hd_conv_nth)
    with True assms Some show ?thesis
      by (auto simp: Let_def select.simps split: prod.splits intro: first)
  next
    case False
    with assms Some i show ?thesis by (auto simp: Let_def select.simps intro: later)
  qed
qed

lemma deselect_inv:
  assumes "pl_inv s" and "select pos False s = (t, e)"
  shows "pl_inv t" and "same_modes s t" and "set (selections t) = set (selections s) - {pos}"
proof -
  from assms(1) have d: "distinct (selections s)" by (simp add: pl_inv_def)
  from assms(2)
  have "pl_inv t \<and> same_modes s t \<and> set (selections t) = set (selections s) - {pos}"
  proof (cases rule: deselect_cases)
    case absent
    with assms(1) show ?thesis by (auto simp: same_modes_def)
  next
    case (first r e')
    note n = next_idle [OF first(3)] next_idle_list [OF first(3)]
    from first(1,2) have "set (tl (selections s)) = set (selections s) - {pos}"
      using d by (cases "selections s") auto
    moreover have "distinct (tl (selections s))" using d by (rule distinct_tl)
    moreover have "length (tl (selections s)) \<le> length (selections s)" by simp
    ultimately show ?thesis
      using n(2-3) n(5-7) assms(1) by (simp add: pl_inv_def same_modes_def)
  next
    case (later i)
    have "length (erase_at i (selections s)) = length (selections s) - 1"
      using later(2) by (rule length_erase_at)
    moreover from this later(1,2) have "erase_at i (selections s) \<noteq> []" by auto
    moreover have "set (erase_at i (selections s)) = set (selections s) - {pos}"
      using set_erase_at [OF d later(2)] later(3) by simp
    ultimately show ?thesis
      using later(4) assms(1) hd_erase_at [OF later(1,2)] erase_at_distinct [OF d, of i]
      by (auto simp: pl_inv_def same_modes_def)
  qed
  then show "pl_inv t" and "same_modes s t" and "set (selections t) = set (selections s) - {pos}"
    by simp_all
qed

lemma pl_inv_first: "pl_inv t \<Longrightarrow> pl_inv (t\<lparr>currentIndex := first_selection t\<rparr>)"
  by (auto simp: pl_inv_def first_selection_eq)

lemma next_source_running:
  "stepMode s \<noteq> ONCE \<Longrightarrow> next_source True s = next_source False s"
  by (cases "stepMode s") (simp_all add: next_source.simps)

lemma next_source_once:
  "stepMode s = ONCE \<Longrightarrow> selections s \<noteq> [] \<Longrightarrow> select (hd (selections s)) False s = (t, e) \<Longrightarrow>
   next_source True s =
     (first_selection t, t, e @ load_signal t @ [SelectionChanged (hd (selections s)) False])"
  by (simp add: next_source.simps)

lemma next_idle_inv:
  assumes "pl_inv s" and "next_source False s = (r, t, e)"
  shows "pl_inv (t\<lparr>currentIndex := r\<rparr>)" and "same_modes s t"
    and "set (selections t) = set (selections s)"
proof -
  note n = next_idle [OF assms(2)] next_idle_list [OF assms(2)]
  show "same_modes s t" and "set (selections t) = set (selections s)"
    using n by simp_all
  show "pl_inv (t\<lparr>currentIndex := r\<rparr>)"
    using n(2,4,6,7) assms(1) by (simp add: pl_inv_def same_modes_def first_selection_eq)
qed

lemma next_source_inv:
  assumes "pl_inv s" and "next_source running s = (r, t, e)"
  shows "pl_inv (t\<lparr>currentIndex := r\<rparr>)" and "same_modes s t"
    and "set (selections t) \<subseteq> set (selections s)"
proof -
  have "pl_inv (t\<lparr>currentIndex := r\<rparr>) \<and> same_modes s t \<and> set (selections t) \<subseteq> set (selections s)"
  proof (cases "running \<and> stepMode s = ONCE \<and> selections s \<noteq> []")
    case False
    then have "next_source running s = next_source False s"
      by (cases running; cases "stepMode s") (auto simp: next_source.simps)
    with assms next_idle_inv show ?thesis by (metis order_refl)
  next
    case True
    obtain t' e' where d: "select (hd (selections s)) False s = (t', e')" by fastforce
    from True d assms(2) have "t = t'" "r = first_selection t'"
      by (auto simp: next_source_once)
    with deselect_inv [OF assms(1) d] show ?thesis by (auto simp: pl_inv_first)
  qed
  then show "pl_inv (t\<lparr>currentIndex := r\<rparr>)" and "same_modes s t"
    and "set (selections t) \<subseteq> set (selections s)" by simp_all
qed

lemma deselect_if_member:
  assumes "pl_inv s"
    and "(s1, e1) = (if pos \<in> set (selections s) then select pos False s else (s, []))"
  shows "pl_inv s1" and "same_modes s s1" and "set (selections s1) = set (selections s) - {pos}"
  using assms deselect_inv [OF assms(1), of pos s1 e1]
  by (auto simp: same_modes_def split: if_splits)

lemma select_active_cases:
  assumes "select pos True s = (t, e)"
  obtains (single) s1 e1 r e3 where
      "(s1, e1) = (if pos \<in> set (selections s) then select pos False s else (s, []))"
      "selMode s1 = SINGLE"
      "next_source False (s1\<lparr>selections := [pos], currentIndex := -1\<rparr>) = (r, t, e3)"
      "e = e1 @ (map (\<lambda>x. SelectionChanged x False) (selections s1) @ [DumpCurrentSelection])
             @ e3 @ [SelectionChanged pos True]"
  | (multi) s1 e1 where
      "(s1, e1) = (if pos \<in> set (selections s) then select pos False s else (s, []))"
      "selMode s1 \<noteq> SINGLE"
      "t = s1\<lparr>selections := selections s1 @ [pos]\<rparr>"
      "e = e1 @ [SelectionChanged pos True]"
proof -
  obtain s1 e1 where s1: "(if pos \<in> set (selections s) then select pos False s else (s, [])) = (s1, e1)"
    by fastforce
  show ?thesis
  proof (cases "selMode s1 = SINGLE")
    case True
    obtain r t' e3 where "next_source False (s1\<lparr>selections := [pos], currentIndex := -1\<rparr>) = (r, t', e3)"
      by (cases "next_source False (s1\<lparr>selections := [pos], currentIndex := -1\<rparr>)") auto
    with True assms s1 show ?thesis
      by (intro single [of s1 e1 r e3]) (simp_all add: select.simps Let_def)
  next
    case False
    with assms s1 show ?thesis
      by (intro multi [of s1 e1]) (simp_all add: select.simps Let_def)
  qed
qed

lemma select_active_inv:
  assumes "pl_inv s" and "select pos True s = (t, e)"
  shows "pl_inv t" and "same_modes s t" and "pos \<in> set (selections t)"
proof -
  from assms(2) have "pl_inv t \<and> same_modes s t \<and> pos \<in> set (selections t)"
  proof (cases rule: select_active_cases)
    case (single s1 e1 r e3)
    note d = deselect_if_member [OF assms(1) single(1)]
    note n = next_idle [OF single(3)] next_idle_list [OF single(3)]
    have "set (selections t) = {pos}" "length (selections t) = 1" "distinct (selections t)"
      using n(5-7) by simp_all
    moreover have "currentIndex t = -1" "same_modes s t"
      using n(2,3) d(2) by (simp_all add: same_modes_def)
    ultimately show ?thesis by (simp add: pl_inv_def)
  next
    case (multi s1 e1)
    note d = deselect_if_member [OF assms(1) multi(1)]
    have "distinct (selections s1 @ [pos])" using d(1,3) by (simp add: pl_inv_def)
    moreover have "currentIndex s1 = -1 \<or> currentIndex s1 = hd (selections s1 @ [pos])"
      using d(1) by (auto simp: pl_inv_def)
    ultimately have "pl_inv t" using multi(2,3) by (simp add: pl_inv_def)
    moreover have "same_modes s t" using d(2) multi(3) by (simp add: same_modes_def)
    ultimately show ?thesis using multi(3) by simp
  qed
  then show "pl_inv t" and "same_modes s t" and "pos \<in> set (selections t)" by simp_all
qed

lemma drop_all_but_first_inv:
  "pl_inv s \<Longrightarrow> pl_inv (fst (drop_all_but_first s))"
  "length (selections (fst (drop_all_but_first s))) \<le> 1"
  by (auto simp: pl_inv_def drop_all_but_first_def)

lemma pl_step_inv: "pl_inv s \<Longrightarrow> pl_inv (fst (pl_step p s))"
proof (cases p)
  case (Select pos active)
  assume "pl_inv s"
  with Select show ?thesis
    by (cases active; cases "select pos active s") (auto dest: deselect_inv select_active_inv)
next
  case (Set_selection_mode m)
  assume i: "pl_inv s"
  show ?thesis
  proof (cases "m = SINGLE")
    case True
    with Set_selection_mode i drop_all_but_first_inv [of s] show ?thesis
      by (auto simp: setSelectionMode_def pl_inv_def split: prod.splits)
  next
    case False
    with Set_selection_mode i show ?thesis
      by (simp add: setSelectionMode_def pl_inv_def)
  qed
next
  case Next_framesource
  assume i: "pl_inv s"
  then show ?thesis
    using Next_framesource next_source_inv(1) [OF i]
    by (auto simp: getNextFramesource_def Let_def split: prod.splits if_splits)
next
  case Clear
  assume "pl_inv s"
  with Clear show ?thesis
    by (auto simp: clear_list_def drop_all_but_first_def pl_inv_def)
qed (auto simp: setStepMode_def manualStepClicked_def beatDetected_def step_now_def
        pl_inv_def [of "s\<lparr>stepMode := _\<rparr>"] pl_inv_def [of s] Let_def
     split: prod.splits dest!: next_source_inv(1) [rotated])

lemma pl_run_preserves_inv: "pl_inv s \<Longrightarrow> pl_inv (fst (pl_run ps s))"
proof (induction ps arbitrary: s)
  case (Cons p ps)
  from pl_step_inv [OF Cons.prems, of p] show ?case
    by (auto split: prod.splits dest: Cons.IH)
qed simp

lemma pl_inv_init: "pl_inv (PlaybackList rnd)"
  by (simp add: pl_inv_def PlaybackList_def)

section \<open>The indicators the signals drive\<close>

text \<open>
  A listener that switches an indicator per \<open>selectionChanged\<close> signal sees the set that
  \<open>indicators\<close> computes from the signals.
\<close>

fun indicator :: "u32 set \<Rightarrow> pl_signal \<Rightarrow> u32 set" where
  "indicator V (SelectionChanged x True) = insert x V"
| "indicator V (SelectionChanged x False) = V - {x}"
| "indicator V (Load x) = V"
| "indicator V DumpCurrentSelection = V"

definition indicators :: "u32 set \<Rightarrow> pl_signal list \<Rightarrow> u32 set" where
  "indicators V e = foldl indicator V e"

lemma indicators_simps [simp]:
  "indicators V [] = V"
  "indicators V (x # e) = indicators (indicator V x) e"
  "indicators V (e1 @ e2) = indicators (indicators V e1) e2"
  by (simp_all add: indicators_def)

lemma indicators_off: "indicators V (map (\<lambda>x. SelectionChanged x False) xs) = V - set xs"
  by (induction xs arbitrary: V) auto

lemma indicators_load_signal [simp]: "indicators V (load_signal s) = V"
  by (simp add: load_signal_def split: list.splits)

lemma next_source_indicators:
  "stepMode s \<noteq> ONCE \<Longrightarrow> next_source running s = (r, t, e) \<Longrightarrow> indicators V e = V"
  by (auto simp: next_source.simps Let_def split: if_splits step_modes.splits)

lemma deselect_indicators:
  assumes "stepMode s \<noteq> ONCE" and "select pos False s = (t, e)"
  shows "indicators V e = (if pos \<in> set (selections s) then V - {pos} else V)"
  using assms(2)
proof (cases rule: deselect_cases)
  case (first r e')
  have "indicators W e' = W" for W
    by (rule next_source_indicators [OF _ first(3)]) (simp add: assms(1))
  with first show ?thesis by (auto simp: hd_in_set)
qed auto

lemma select_active_indicators:
  assumes "pl_inv s" and "stepMode s \<noteq> ONCE" and "select pos True s = (t, e)"
  shows "indicators (set (selections s)) e = set (selections t)"
proof -
  have before: "indicators (set (selections s)) e1 = set (selections s1)"
    if h: "(s1, e1) = (if pos \<in> set (selections s) then select pos False s else (s, []))" for s1 e1
  proof (cases "pos \<in> set (selections s)")
    case True
    with h have d: "select pos False s = (s1, e1)" by simp
    from True deselect_indicators [OF assms(2) d] deselect_inv(3) [OF assms(1) d]
    show ?thesis by simp
  next
    case False
    with h show ?thesis by simp
  qed
  from assms(3) show ?thesis
  proof (cases rule: select_active_cases)
    case (single s1 e1 r e3)
    have "stepMode s1 \<noteq> ONCE"
      using deselect_if_member(2) [OF assms(1) single(1)] assms(2) by (simp add: same_modes_def)
    then have "indicators W e3 = W" for W
      by (intro next_source_indicators [OF _ single(3)]) simp
    moreover have "set (selections t) = {pos}"
      using next_idle_list(1) [OF single(3)] by simp
    ultimately show ?thesis
      using before [OF single(1)] single(4) by (simp add: indicators_off)
  next
    case (multi s1 e1)
    with before [OF multi(1)] show ?thesis by simp
  qed
qed

lemma next_source_set:
  assumes "pl_inv s" and "stepMode s \<noteq> ONCE" and "next_source running s = (r, t, e)"
  shows "set (selections t) = set (selections s)"
proof -
  have "next_source False s = (r, t, e)"
    using assms(2,3) next_source_running [OF assms(2)] by (cases running) simp_all
  then show ?thesis by (rule next_idle_list(1))
qed

lemma step_now_indicators:
  assumes "pl_inv s" and "stepMode s \<noteq> ONCE" and "step_now s = (t, e)"
  shows "indicators (set (selections s)) e = set (selections t)"
  using assms(3) next_source_indicators [OF assms(2)] next_source_set [OF assms(1,2)]
  by (auto simp: step_now_def split: prod.splits)

lemma drop_all_but_first_indicators:
  assumes "pl_inv s"
  shows "indicators (set (selections s)) (snd (drop_all_but_first s)) =
         set (selections (fst (drop_all_but_first s)))"
  using assms
  by (cases "selections s") (auto simp: drop_all_but_first_def indicators_off pl_inv_def)

lemma pl_step_indicators:
  assumes "pl_inv s" and "stepMode s \<noteq> ONCE" and "pl_step p s = (t, e)"
  shows "indicators (set (selections s)) e = set (selections t)"
proof (cases p)
  case (Select pos active)
  with assms show ?thesis
    by (cases active) (auto simp: deselect_indicators deselect_inv(3) select_active_indicators)
next
  case Next_framesource
  with assms(3) show ?thesis
    using next_source_indicators [OF assms(2)] next_source_set [OF assms(1,2)]
    by (auto simp: getNextFramesource_def Let_def split: prod.splits if_splits)
next
  case Manual_step
  with assms show ?thesis by (auto simp: manualStepClicked_def step_now_indicators split: if_splits)
next
  case Beat
  with assms show ?thesis by (auto simp: beatDetected_def step_now_indicators split: if_splits)
next
  case (Set_selection_mode m)
  have "setSelectionMode m s = (t, e)" using Set_selection_mode assms(3) by simp
  then consider "t = s\<lparr>selMode := m\<rparr>" "e = []"
    | "t = (fst (drop_all_but_first s))\<lparr>selMode := m\<rparr>" "e = snd (drop_all_but_first s)"
    by (simp add: setSelectionMode_def split_beta split: if_splits)
  then show ?thesis
    using drop_all_but_first_indicators [OF assms(1)] by cases simp_all
next
  case Clear
  obtain t1 e1 where "drop_all_but_first s = (t1, e1)" by fastforce
  with Clear assms(3) drop_all_but_first_indicators [OF assms(1)] show ?thesis
    by (auto simp: clear_list_def)
qed (use assms in \<open>auto simp: setStepMode_def\<close>)

lemma pl_step_stepMode:
  assumes "pl_inv s"
  shows "stepMode (fst (pl_step p s)) =
         (case p of Set_step_mode m \<Rightarrow> m | _ \<Rightarrow> stepMode s)"
proof (cases p)
  case (Select pos active)
  with assms show ?thesis
    by (cases active; cases "select pos active s")
       (auto simp: same_modes_def dest: deselect_inv(2) select_active_inv(2))
qed (auto simp: setStepMode_def manualStepClicked_def beatDetected_def step_now_def clear_list_def
        setSelectionMode_def drop_all_but_first_def getNextFramesource_def Let_def same_modes_def
     split: prod.splits dest!: next_source_inv(2) [OF assms])

lemma pl_run_indicators:
  assumes "pl_inv s" and "stepMode s \<noteq> ONCE" and "Set_step_mode ONCE \<notin> set ps"
  shows "indicators (set (selections s)) (snd (pl_run ps s)) = set (selections (fst (pl_run ps s)))"
  using assms
proof (induction ps arbitrary: s)
  case (Cons p ps)
  obtain t e where t: "pl_step p s = (t, e)" by fastforce
  have "pl_inv t" using pl_step_inv [OF Cons.prems(1), of p] t by simp
  moreover have "stepMode t \<noteq> ONCE"
    using pl_step_stepMode [OF Cons.prems(1), of p] Cons.prems(2,3) t by (auto split: pl_op.splits)
  ultimately have "indicators (set (selections t)) (snd (pl_run ps t)) =
      set (selections (fst (pl_run ps t)))"
    using Cons.prems(3) by (intro Cons.IH) auto
  with pl_step_indicators [OF Cons.prems(1,2) t] t show ?case by (auto split: prod.splits)
qed simp

section \<open>The order of play\<close>

lemma loop_answer:
  assumes "stepMode s = LOOP" and "selMode s \<noteq> SHUFFLE" and "selections s \<noteq> []"
  shows "getNextFramesource s =
    (hd (rotate1 (selections s)),
     s\<lparr>selections := rotate1 (selections s), currentIndex := hd (rotate1 (selections s))\<rparr>,
     [Load (hd (rotate1 (selections s)))])"
proof -
  obtain x xs where s: "selections s = x # xs" using assms(3) by (cases "selections s") auto
  then have "rotate_selections s = s\<lparr>selections := xs @ [x]\<rparr>"
    using assms(2) by (simp add: rotate_selections_def Let_def)
  moreover obtain y ys where "xs @ [x] = y # ys" by (cases "xs @ [x]") auto
  ultimately show ?thesis
    using assms(1) s
    by (simp add: getNextFramesource_def next_source.simps Let_def first_selection_def
        load_signal_def)
qed

lemma loop_answers:
  assumes "stepMode s = LOOP" and "selMode s \<noteq> SHUFFLE" and "selections s \<noteq> []"
  shows "fst (pl_answers n s) = map (\<lambda>i. selections s ! (Suc i mod length (selections s))) [0..<n] \<and>
         selections (snd (pl_answers n s)) = rotate n (selections s)"
  using assms
proof (induction n arbitrary: s)
  case (Suc n)
  let ?xs = "selections s"
  let ?t = "s\<lparr>selections := rotate1 ?xs, currentIndex := hd (rotate1 ?xs)\<rparr>"
  have IH: "fst (pl_answers n ?t) = map (\<lambda>i. rotate1 ?xs ! (Suc i mod length ?xs)) [0..<n]"
    "selections (snd (pl_answers n ?t)) = rotate n (rotate1 ?xs)"
    using Suc.IH [of ?t] Suc.prems by simp_all
  have "rotate1 ?xs ! (Suc i mod length ?xs) = ?xs ! (Suc (Suc i) mod length ?xs)" for i
    using Suc.prems(3) by (simp add: nth_rotate1 mod_Suc_eq)
  moreover have "hd (rotate1 ?xs) = ?xs ! (Suc 0 mod length ?xs)"
    using Suc.prems(3) hd_rotate_conv_nth [of ?xs 1] by simp
  ultimately have "fst (pl_answers (Suc n) s) =
      map (\<lambda>i. ?xs ! (Suc i mod length ?xs)) (0 # map Suc [0..<n])"
    using IH(1) loop_answer [OF Suc.prems] by (simp add: split_beta)
  then show ?case
    using IH(2) loop_answer [OF Suc.prems]
    by (simp add: split_beta upt_conv_Cons map_Suc_upt rotate1_rotate_swap del: upt_Suc list.map)
qed simp

lemma once_next:
  assumes "stepMode s = ONCE" and "selections s = x # xs" and "currentIndex s = x" and "x \<noteq> -1"
  shows "\<exists>e. getNextFramesource s =
    ((case xs of [] \<Rightarrow> -1 | y # _ \<Rightarrow> y),
     s\<lparr>selections := xs, currentIndex := (case xs of [] \<Rightarrow> -1 | y # _ \<Rightarrow> y)\<rparr>, e)"
  using assms
  by (auto simp: getNextFramesource_def next_source.simps select.simps first_selection_def
      Let_def split: list.splits)

lemma once_first:
  assumes "stepMode s = ONCE" and "selections s = x # xs" and "currentIndex s = -1"
  shows "\<exists>e. getNextFramesource s = (x, s\<lparr>currentIndex := x\<rparr>, e)"
  using assms by (simp add: getNextFramesource_def next_source.simps first_selection_def)

lemma once_running:
  assumes "stepMode s = ONCE" and "selections s = x # xs" and "currentIndex s = x"
    and "-1 \<notin> set (selections s)"
  shows "fst (pl_answers (length (x # xs)) s) = xs @ [-1] \<and>
         selections (snd (pl_answers (length (x # xs)) s)) = []"
  using assms
proof (induction xs arbitrary: x s)
  case Nil
  obtain e where "getNextFramesource s = (-1, s\<lparr>selections := [], currentIndex := -1\<rparr>, e)"
    using once_next [OF Nil.prems(1-3)] Nil.prems(2,4) by auto
  then show ?case by simp
next
  case (Cons y ys)
  let ?t = "s\<lparr>selections := y # ys, currentIndex := y\<rparr>"
  obtain e where g: "getNextFramesource s = (y, ?t, e)"
    using once_next [OF Cons.prems(1-3)] Cons.prems(2,4) by auto
  have "fst (pl_answers (length (y # ys)) ?t) = ys @ [-1] \<and>
        selections (snd (pl_answers (length (y # ys)) ?t)) = []"
    using Cons.prems by (intro Cons.IH) auto
  with g show ?case by (simp add: split_beta)
qed

section \<open>Properties\<close>

text \<open>
  C15. Whatever calls a head's playback list receives, in whatever order: no frame source is in
  the list twice, the single selection mode leaves at most one entry, and the current source
  is the first entry or none.
\<close>

theorem playback_list_invariant: "pl_inv (fst (pl_run ps (PlaybackList rnd)))"
  by (rule pl_run_preserves_inv [OF pl_inv_init])

text \<open>
  C18. As long as no call sets the step mode to ONCE, an observer that switches an indicator on
  and off by the \<open>selectionChanged\<close> signals of a new list shows exactly the selected sources
  after any sequence of calls.
\<close>

theorem indicators_agree:
  assumes "Set_step_mode ONCE \<notin> set ps"
  shows "indicators {} (snd (pl_run ps (PlaybackList rnd))) =
         set (selections (fst (pl_run ps (PlaybackList rnd))))"
  using pl_run_indicators [OF pl_inv_init _ assms, of rnd] by (simp add: PlaybackList_def)

theorem indicators_agree_witness:
  "indicators {} (snd (pl_run [Select 3 True, Set_selection_mode MULTIPLE, Select 5 True,
       Next_framesource, Select 3 False] (PlaybackList (\<lambda>_. 0)))) =
   set (selections (fst (pl_run [Select 3 True, Set_selection_mode MULTIPLE, Select 5 True,
       Next_framesource, Select 3 False] (PlaybackList (\<lambda>_. 0)))))"
  by (rule indicators_agree) simp

text \<open>
  In ONCE mode the signals and the list disagree: a source that is selected and then
  requested by the head is reported as deselected while it is still selected and is the current
  source. The \<open>ONCE\<close> branch of \<open>next\<close> emits \<open>selectionChanged (oldsel, false)\<close> also when it
  has removed nothing.
\<close>

theorem once_reports_playing_source_as_deselected:
  "(let (s, e) = pl_run [Set_step_mode ONCE, Select 7 True, Next_framesource] (PlaybackList rnd)
    in isSelected 7 s \<and> getFrameSource s = 7 \<and> 7 \<notin> indicators {} e)"
  by (simp add: PlaybackList_def setStepMode_def getNextFramesource_def select.simps
      next_source.simps first_selection_def load_signal_def isSelected_def getFrameSource_def)

text \<open>
  C16. In LOOP mode without shuffling, one round of requests plays every selected source exactly
  once, in the order of selection starting with the second, and brings the list back to where it
  was.
\<close>

theorem loop_round_plays_each_source_once:
  assumes "stepMode s = LOOP" and "selMode s \<noteq> SHUFFLE" and "selections s \<noteq> []"
  shows "fst (pl_answers (length (selections s)) s) = rotate1 (selections s) \<and>
         selections (snd (pl_answers (length (selections s)) s)) = selections s"
proof -
  let ?xs = "selections s"
  have "map (\<lambda>i. ?xs ! (Suc i mod length ?xs)) [0..<length ?xs] = rotate1 ?xs"
    by (rule nth_equalityI) (simp_all add: nth_rotate1)
  with loop_answers [OF assms, of "length ?xs"] show ?thesis by simp
qed

definition loop_example :: playback_list where
  "loop_example = \<lparr>selections = [1, 2, 3], selMode = MULTIPLE, stepMode = LOOP,
                   currentIndex = -1, pl_rand = (\<lambda>_. 0)\<rparr>"

theorem loop_round_witness:
  "fst (pl_answers 3 loop_example) = [2, 3, 1]"
  using loop_round_plays_each_source_once [of loop_example]
  by (simp add: loop_example_def numeral_3_eq_3)

text \<open>
  C17. In ONCE mode, a list that has not started to play answers the requests of the head with its
  selections, each once and in order, then with -1, and is empty afterwards. (A selection at index
  0xFFFFFFFF would be taken for \<open>-1\<close>, hence the hypothesis.)
\<close>

theorem once_plays_each_source_once:
  assumes "stepMode s = ONCE" and "currentIndex s = -1" and "-1 \<notin> set (selections s)"
  shows "fst (pl_answers (Suc (length (selections s))) s) = selections s @ [-1] \<and>
         selections (snd (pl_answers (Suc (length (selections s))) s)) = []"
proof (cases "selections s")
  case Nil
  with assms show ?thesis
    by (simp add: getNextFramesource_def next_source.simps)
next
  case (Cons x xs)
  obtain e where g: "getNextFramesource s = (x, s\<lparr>currentIndex := x\<rparr>, e)"
    using once_first [OF assms(1) Cons assms(2)] by auto
  have "fst (pl_answers (length (x # xs)) (s\<lparr>currentIndex := x\<rparr>)) = xs @ [-1] \<and>
        selections (snd (pl_answers (length (x # xs)) (s\<lparr>currentIndex := x\<rparr>))) = []"
    using assms Cons by (intro once_running) auto
  moreover have "pl_answers (Suc (length (selections s))) s =
      (x # fst (pl_answers (length (x # xs)) (s\<lparr>currentIndex := x\<rparr>)),
       snd (pl_answers (length (x # xs)) (s\<lparr>currentIndex := x\<rparr>)))"
    unfolding Cons pl_answers.simps(2) [of "length (x # xs)"] g by (simp only: split_beta Let_def) simp
  ultimately show ?thesis using Cons by simp
qed

definition once_example :: playback_list where
  "once_example = \<lparr>selections = [4, 9], selMode = MULTIPLE, stepMode = ONCE,
                   currentIndex = -1, pl_rand = (\<lambda>_. 0)\<rparr>"

theorem once_plays_witness: "fst (pl_answers 3 once_example) = [4, 9, -1]"
  using once_plays_each_source_once [of once_example]
  by (simp add: once_example_def numeral_3_eq_3)

text \<open>
  Selecting a source leaves it selected, also when it was selected before: the call that the
  comment in \<open>select\<close> describes as deselecting it takes it out and puts it back at the end.
\<close>

theorem select_leaves_selected:
  "pos \<in> set (selections (fst (select pos True (fst (pl_run ps (PlaybackList rnd))))))"
  by (rule select_active_inv(3) [OF pl_run_preserves_inv [OF pl_inv_init]]) (rule prod.collapse [symmetric])

end
