(* ===== verification/Head.thy ===== *)
theory Head
  imports Frame_Source Resampler Playback_List
begin

text \<open>
  \<open>head.h\<close> and \<open>head.cpp\<close>: the laser head, which plays the selected frame sources into its
  driver. It shares the frame sources with the engine: a source is an address in a store, the
  engine's vector \<open>sources\<close> holds optional addresses, and a playback refers to its source by
  address, so a source that was replaced in the vector is still played until its playback goes.

  The head lives in its own thread. A signal of its playback list emitted by that thread reaches
  the head's slots at once; one emitted by a call from another thread (\<open>select\<close> and the mode
  setters, called by the engine) is queued, and delivered between two other calls: \<open>hd_mail\<close>.
  Each operation is one step.

  The loop of \<open>dataRequested\<close> need not end; \<open>fuel\<close> bounds its rounds, and the calls of the
  resampling filter for one block.
\<close>

section \<open>The frame sources of the engine\<close>

record ('c, 'f, 'm) show_data =
  sh_store :: "('c, 'f, 'm) fsource list"
  sh_sources :: "nat option list" \<comment> \<open>\<open>Engine::sources\<close>; None is a null pointer\<close>
  sh_rand :: "nat \<Rightarrow> nat"

definition getFrameSource_at :: "nat \<Rightarrow> ('c, 'f, 'm) show_data \<Rightarrow> nat option" where
  "getFrameSource_at pos sh = (if pos < length (sh_sources sh) then sh_sources sh ! pos else None)"

text \<open>The class \<open>Playback\<close> with its source by address; a null source has a null playback.\<close>

type_synonym 'f play_ref = "(nat \<times> 'f playback) option"

definition getPlayback :: "('c, 'f, 'm) qt \<Rightarrow> nat \<Rightarrow> ('c, 'f, 'm) show_data \<Rightarrow> 'f play_ref" where
  "getPlayback q pos sh =
     map_option (\<lambda>a. (a, createPlayback q (sh_store sh ! a))) (getFrameSource_at pos sh)"

definition ref_reset :: "('c, 'f, 'm) qt \<Rightarrow> nat \<Rightarrow> 'f play_ref \<Rightarrow> ('c, 'f, 'm) show_data \<Rightarrow>
    ('f play_ref \<times> ('c, 'f, 'm) show_data) res" where
  "ref_reset q now r sh = (case r of
     None \<Rightarrow> Inr (None, sh)
   | Some (a, p) \<Rightarrow> rbind (reset_source q now (sh_store sh ! a) p (sh_rand sh)) (\<lambda>(p', rnd').
       Inr (Some (a, p'), sh\<lparr>sh_rand := rnd'\<rparr>)))"

definition ref_nextFrame :: "('c, 'f, 'm) qt \<Rightarrow> nat \<Rightarrow> 'f play_ref \<Rightarrow> ('c, 'f, 'm) show_data \<Rightarrow>
    (('c, 'm) frame option \<times> 'f play_ref \<times> ('c, 'f, 'm) show_data) res" where
  "ref_nextFrame q now r sh = (case r of
     None \<Rightarrow> Inr (None, None, sh)
   | Some (a, p) \<Rightarrow> rbind (nextFrame q now (sh_store sh ! a) p (sh_rand sh))
       (\<lambda>(fr, s', p', rnd'). Inr (fr, Some (a, p'),
          sh\<lparr>sh_store := (sh_store sh)[a := s'], sh_rand := rnd'\<rparr>)))"

section \<open>The head\<close>

datatype ('c, 'm) head_signal =
    End_of_source
  | New_frame "('c, 'm) frame option"
  | Selection_changed u32 bool
  | Selection_mode_changed selection_modes
  | Step_mode_changed step_modes
  | Head_active
  | Head_inactive

record ('f, 'z) head =
  hd_targetPPS :: nat
  hd_driver :: "'f driver option"
  hd_pb :: "'f play_ref option" \<comment> \<open>\<open>pb\<close>; None is a null \<open>PlaybackPtr\<close>\<close>
  hd_pointBuf :: "'f pointf list"
  hd_frame_index :: nat
  hd_resampler :: "('f, 'z) resample"
  hd_sources :: playback_list
  hd_killed :: bool
  hd_mail :: "pl_signal list"

definition LaserHead :: "('c, 'f, 'z) zita \<Rightarrow> (nat \<Rightarrow> nat) \<Rightarrow> ('f, 'z) head res" where
  "LaserHead e rnd =
     rbind (setInputPPS e 12000 (Resample e)) (\<lambda>r1.
     rbind (setOutputPPS e 30000 r1) (\<lambda>r2.
       Inr \<lparr>hd_targetPPS = 12000, hd_driver = None, hd_pb = None, hd_pointBuf = [],
            hd_frame_index = 0, hd_resampler = r2, hd_sources = PlaybackList rnd,
            hd_killed = False, hd_mail = []\<rparr>))"

definition HWPpsChanged :: "('c, 'f, 'z) zita \<Rightarrow> nat \<Rightarrow> ('f, 'z) head \<Rightarrow> ('f, 'z) head res" where
  "HWPpsChanged e newPPS h =
     rbind (setOutputPPS e newPPS (hd_resampler h)) (\<lambda>r. Inr (h\<lparr>hd_resampler := r\<rparr>))"

definition setPPS :: "('c, 'f, 'z) zita \<Rightarrow> nat \<Rightarrow> ('f, 'z) head \<Rightarrow> (bool \<times> ('f, 'z) head) res" where
  "setPPS e pps h =
     rbind (setInputPPS e pps (hd_resampler h)) (\<lambda>r.
       Inr (True, h\<lparr>hd_targetPPS := pps, hd_resampler := r\<rparr>))"

definition setDriver_ptr :: "('c, 'f, 'z) zita \<Rightarrow> 'f driver option \<Rightarrow> ('f, 'z) head \<Rightarrow>
    (bool \<times> ('f, 'z) head) res" where
  "setDriver_ptr e d h = (case d of
     None \<Rightarrow> Inr (False, h)
   | Some d \<Rightarrow>
       (if driver_flags d AND OUTPUTS_ILDA \<noteq> 0 then
          rbind (setOutputPPS e (driver_pps d) (hd_resampler h)) (\<lambda>r.
            Inr (True, h\<lparr>hd_driver := Some d, hd_resampler := r\<rparr>))
        else Inr (False, h)))"

definition setDriver :: "('c, 'f, 'z) zita \<Rightarrow> 'f driver registry \<Rightarrow> string \<Rightarrow> ('f, 'z) head \<Rightarrow>
    (bool \<times> ('f, 'z) head) res" where
  "setDriver e reg name h = rbind (newDriver name reg) (\<lambda>d. setDriver_ptr e d h)"

definition loadFrameSource :: "'f play_ref option \<Rightarrow> bool \<Rightarrow> ('f, 'z) head \<Rightarrow>
    ('f, 'z) head \<times> ('c, 'm) head_signal list" where
  "loadFrameSource f immediate h =
     (let h1 = h\<lparr>hd_pb := (if \<not> hd_killed h then f else None)\<rparr>;
          h2 = (if immediate then h1\<lparr>hd_frame_index := 0, hd_pointBuf := []\<rparr> else h1)
      in (h2, if hd_pb h2 \<noteq> None \<or> length (hd_pointBuf h2) > 0 then [Head_active]
              else [Head_inactive]))"

definition dump :: "('f, 'z) head \<Rightarrow> ('f, 'z) head \<times> ('c, 'm) head_signal list" where
  "dump h = loadFrameSource None True h"

text \<open>The slots the playback list is connected to; \<open>load\<close> is not connected.\<close>

definition deliver :: "pl_signal \<Rightarrow> ('f, 'z) head \<Rightarrow> ('f, 'z) head \<times> ('c, 'm) head_signal list" where
  "deliver sg h = (case sg of
     SelectionChanged sel active \<Rightarrow> (h, [Selection_changed sel active])
   | Load pos \<Rightarrow> (h, [])
   | DumpCurrentSelection \<Rightarrow> dump h)"

fun deliver_all :: "pl_signal list \<Rightarrow> ('f, 'z) head \<Rightarrow>
    ('f, 'z) head \<times> ('c, 'm) head_signal list" where
  "deliver_all [] h = (h, [])"
| "deliver_all (sg # sgs) h =
     (let (h1, e1) = deliver sg h; (h2, e2) = deliver_all sgs h1 in (h2, e1 @ e2))"

definition kill :: "('f, 'z) head \<Rightarrow> ('f, 'z) head \<times> ('c, 'm) head_signal list" where
  "kill h = loadFrameSource None True (h\<lparr>hd_killed := True\<rparr>)"

definition restart :: "('f, 'z) head \<Rightarrow> ('f, 'z) head" where
  "restart h = h\<lparr>hd_killed := False\<rparr>"

text \<open>Calls from another thread: the signals of the playback list are queued.\<close>

definition head_select :: "u32 \<Rightarrow> bool \<Rightarrow> ('f, 'z) head \<Rightarrow> ('f, 'z) head" where
  "head_select pos active h =
     (let (s, sgs) = select pos active (hd_sources h)
      in h\<lparr>hd_sources := s, hd_mail := hd_mail h @ sgs\<rparr>)"

definition head_setSelectionMode :: "selection_modes \<Rightarrow> ('f, 'z) head \<Rightarrow>
    ('f, 'z) head \<times> ('c, 'm) head_signal list" where
  "head_setSelectionMode mode h =
     (let (s, sgs) = setSelectionMode mode (hd_sources h)
      in (h\<lparr>hd_sources := s, hd_mail := hd_mail h @ sgs\<rparr>, [Selection_mode_changed mode]))"

definition head_setStepMode :: "step_modes \<Rightarrow> ('f, 'z) head \<Rightarrow>
    ('f, 'z) head \<times> ('c, 'm) head_signal list" where
  "head_setStepMode mode h =
     (let (s, sgs) = setStepMode mode (hd_sources h)
      in (h\<lparr>hd_sources := s, hd_mail := hd_mail h @ sgs\<rparr>, [Step_mode_changed mode]))"

definition head_isSelected :: "u32 \<Rightarrow> ('f, 'z) head \<Rightarrow> bool" where
  "head_isSelected pos h = isSelected pos (hd_sources h)"

definition deliver_mail :: "('f, 'z) head \<Rightarrow> ('f, 'z) head \<times> ('c, 'm) head_signal list" where
  "deliver_mail h = (case hd_mail h of [] \<Rightarrow> (h, [])
     | sg # sgs \<Rightarrow> deliver sg (h\<lparr>hd_mail := sgs\<rparr>))"

text \<open>Slots that run in the head's thread: the signals are delivered at once.\<close>

definition manual :: "('f, 'z) head \<Rightarrow> ('f, 'z) head \<times> ('c, 'm) head_signal list" where
  "manual h = (let (s, sgs) = manualStepClicked (hd_sources h)
               in deliver_all sgs (h\<lparr>hd_sources := s\<rparr>))"

definition beat :: "('f, 'z) head \<Rightarrow> ('f, 'z) head \<times> ('c, 'm) head_signal list" where
  "beat h = (let (s, sgs) = beatDetected (hd_sources h)
             in deliver_all sgs (h\<lparr>hd_sources := s\<rparr>))"

section \<open>The demand for points\<close>

text \<open>
  The part of a round that fetches the next frame: from the playback, or from the next source
  of the list when there is none or it has ended.
\<close>

definition next_of_pb :: "('c, 'f, 'm) qt \<Rightarrow> nat \<Rightarrow> ('f, 'z) head \<Rightarrow> ('c, 'f, 'm) show_data \<Rightarrow>
    (('c, 'm) frame option \<times> ('f, 'z) head \<times> ('c, 'f, 'm) show_data) res" where
  "next_of_pb q now h sh = (case hd_pb h of
     None \<Rightarrow> Inr (None, h, sh)
   | Some r \<Rightarrow> rbind (ref_nextFrame q now r sh) (\<lambda>(fp, r', sh').
       Inr (fp, h\<lparr>hd_pb := Some r'\<rparr>, sh')))"

definition next_source_frame :: "('c, 'f, 'm) qt \<Rightarrow> nat \<Rightarrow> ('f, 'z) head \<Rightarrow>
    ('c, 'f, 'm) show_data \<Rightarrow>
    (('c, 'm) frame option \<times> ('f, 'z) head \<times> ('c, 'f, 'm) show_data \<times>
      ('c, 'm) head_signal list) res" where
  "next_source_frame q now h sh =
     (let (s, srcs, sgs) = getNextFramesource (hd_sources h);
          (h1, e1) = deliver_all sgs (h\<lparr>hd_sources := srcs\<rparr>)
      in rbind (if sint s > -1
                then rbind (ref_reset q now (getPlayback q (unat s) sh) sh) (\<lambda>(p, sh1).
                  Inr (Some p, sh1))
                else Inr (None, sh)) (\<lambda>(p, sh1).
         let (h2, e2) = loadFrameSource p False h1 in
         rbind (next_of_pb q now h2 sh1) (\<lambda>(fp, h3, sh2).
           Inr (fp, h3, sh2, e1 @ e2 @ [End_of_source]))))"

definition fetch_frame :: "('c, 'f, 'm) qt \<Rightarrow> nat \<Rightarrow> ('f, 'z) head \<Rightarrow> ('c, 'f, 'm) show_data \<Rightarrow>
    (('c, 'm) frame option \<times> ('f, 'z) head \<times> ('c, 'f, 'm) show_data \<times>
      ('c, 'm) head_signal list) res" where
  "fetch_frame q now h sh =
     rbind (next_of_pb q now h sh) (\<lambda>(fp, h1, sh1).
       case fp of Some f \<Rightarrow> Inr (Some f, h1, sh1, [])
       | None \<Rightarrow> next_source_frame q now h1 sh1)"

text \<open>
  One round of the loop: whether to go on, the state, the signals and the points the driver took.
\<close>

definition data_round :: "nat \<Rightarrow> ('c, 'f, 'm) qt \<Rightarrow> ('c, 'f, 'z) zita \<Rightarrow> nat \<Rightarrow> 'f driver \<Rightarrow>
    ('f, 'z) head \<Rightarrow> ('c, 'f, 'm) show_data \<Rightarrow>
    (bool \<times> ('f, 'z) head \<times> ('c, 'f, 'm) show_data \<times> ('c, 'm) head_signal list \<times>
      'f pointf list) res" where
  "data_round fuel q e now d h sh =
     (let (t, d') = driver_new_points (hd_pointBuf h) (hd_frame_index h) d;
          taken = take t (drop (hd_frame_index h) (hd_pointBuf h));
          h1 = h\<lparr>hd_driver := Some d', hd_frame_index := hd_frame_index h + t\<rparr>
      in if hd_frame_index h1 \<ge> length (hd_pointBuf h1) then
           rbind (fetch_frame q now (h1\<lparr>hd_pointBuf := [], hd_frame_index := 0\<rparr>) sh)
             (\<lambda>(fp, h2, sh2, sgs).
           rbind (case fp of None \<Rightarrow> Inr h2
                  | Some f \<Rightarrow> rbind (resample_run fuel e (fr_points f) (hd_resampler h2))
                      (\<lambda>(pts, r'). Inr (h2\<lparr>hd_pointBuf := pts, hd_resampler := r'\<rparr>)))
             (\<lambda>h3. Inr (hd_pb h3 \<noteq> None, h3, sh2, sgs @ [New_frame fp], taken)))
         else Inr (True, h1, sh, [], taken))"

fun data_loop :: "nat \<Rightarrow> ('c, 'f, 'm) qt \<Rightarrow> ('c, 'f, 'z) zita \<Rightarrow> nat \<Rightarrow> ('f, 'z) head \<Rightarrow>
    ('c, 'f, 'm) show_data \<Rightarrow>
    (('f, 'z) head \<times> ('c, 'f, 'm) show_data \<times> ('c, 'm) head_signal list \<times> 'f pointf list) res" where
  "data_loop 0 q e now h sh = Inl Out_of_fuel"
| "data_loop (Suc k) q e now h sh = (case hd_driver h of
     None \<Rightarrow> Inr (h, sh, [], [])
   | Some d \<Rightarrow>
       if driver_fill d > 300 then
         rbind (data_round (Suc k) q e now d h sh) (\<lambda>(go, h1, sh1, sgs, taken).
           if go then rbind (data_loop k q e now h1 sh1) (\<lambda>(h2, sh2, sgs2, taken2).
             Inr (h2, sh2, sgs @ sgs2, taken @ taken2))
           else Inr (h1, sh1, sgs, taken))
       else Inr (h, sh, [], []))"

definition dataRequested :: "nat \<Rightarrow> ('c, 'f, 'm) qt \<Rightarrow> ('c, 'f, 'z) zita \<Rightarrow> nat \<Rightarrow>
    ('f, 'z) head \<Rightarrow> ('c, 'f, 'm) show_data \<Rightarrow>
    (('f, 'z) head \<times> ('c, 'f, 'm) show_data \<times> ('c, 'm) head_signal list \<times> 'f pointf list) res" where
  "dataRequested fuel q e now h sh = data_loop fuel q e now h sh"

section \<open>Events\<close>

datatype ('c, 'f, 'm) head_event =
    Data_requested nat nat \<comment> \<open>fuel, clock\<close>
  | Kill_head
  | Restart_head
  | Select_source u32 bool
  | Selection_mode selection_modes
  | Step_mode step_modes
  | Mail
  | Manual_trigger
  | Beat_trigger
  | Set_PPS nat
  | Hw_PPS nat
  | Set_driver "'f driver option"
  | Driver_event "'f driver" \<comment> \<open>the hardware has moved on: the driver's new state\<close>
  | Show_event "('c, 'f, 'm) show_data" \<comment> \<open>the engine has changed the sources\<close>

fun head_do :: "('c, 'f, 'm) qt \<Rightarrow> ('c, 'f, 'z) zita \<Rightarrow> ('c, 'f, 'm) head_event \<Rightarrow>
    ('f, 'z) head \<times> ('c, 'f, 'm) show_data \<Rightarrow>
    ((('f, 'z) head \<times> ('c, 'f, 'm) show_data) \<times> ('c, 'm) head_signal list \<times> 'f pointf list) res" where
  "head_do q e (Data_requested fuel now) (h, sh) =
     rbind (dataRequested fuel q e now h sh) (\<lambda>(h', sh', sgs, taken). Inr ((h', sh'), sgs, taken))"
| "head_do q e Kill_head (h, sh) = (case kill h of (h', sgs) \<Rightarrow> Inr ((h', sh), sgs, []))"
| "head_do q e Restart_head (h, sh) = Inr ((restart h, sh), [], [])"
| "head_do q e (Select_source pos active) (h, sh) = Inr ((head_select pos active h, sh), [], [])"
| "head_do q e (Selection_mode m) (h, sh) =
     (case head_setSelectionMode m h of (h', sgs) \<Rightarrow> Inr ((h', sh), sgs, []))"
| "head_do q e (Step_mode m) (h, sh) =
     (case head_setStepMode m h of (h', sgs) \<Rightarrow> Inr ((h', sh), sgs, []))"
| "head_do q e Mail (h, sh) = (case deliver_mail h of (h', sgs) \<Rightarrow> Inr ((h', sh), sgs, []))"
| "head_do q e Manual_trigger (h, sh) = (case manual h of (h', sgs) \<Rightarrow> Inr ((h', sh), sgs, []))"
| "head_do q e Beat_trigger (h, sh) = (case beat h of (h', sgs) \<Rightarrow> Inr ((h', sh), sgs, []))"
| "head_do q e (Set_PPS pps) (h, sh) = rbind (setPPS e pps h) (\<lambda>(b, h'). Inr ((h', sh), [], []))"
| "head_do q e (Hw_PPS pps) (h, sh) = rbind (HWPpsChanged e pps h) (\<lambda>h'. Inr ((h', sh), [], []))"
| "head_do q e (Set_driver d) (h, sh) =
     rbind (setDriver_ptr e d h) (\<lambda>(b, h'). Inr ((h', sh), [], []))"
| "head_do q e (Driver_event d) (h, sh) = Inr ((h\<lparr>hd_driver := Some d\<rparr>, sh), [], [])"
| "head_do q e (Show_event sh') (h, sh) = Inr ((h, sh'), [], [])"

text \<open>Runs without a restart, and all points the driver was given during the run.\<close>

inductive run_no_restart :: "('c, 'f, 'm) qt \<Rightarrow> ('c, 'f, 'z) zita \<Rightarrow>
    ('f, 'z) head \<times> ('c, 'f, 'm) show_data \<Rightarrow> 'f pointf list \<Rightarrow>
    ('f, 'z) head \<times> ('c, 'f, 'm) show_data \<Rightarrow> bool" for q e st where
  start: "run_no_restart q e st [] st"
| step: "run_no_restart q e st out st1 \<Longrightarrow> ev \<noteq> Restart_head \<Longrightarrow>
    head_do q e ev st1 = Inr (st2, sgs, taken) \<Longrightarrow> run_no_restart q e st (out @ taken) st2"

section \<open>A killed head\<close>

definition dark :: "('f, 'z) head \<Rightarrow> bool" where
  "dark h \<longleftrightarrow> hd_killed h \<and> hd_pb h = None \<and> hd_pointBuf h = [] \<and> hd_frame_index h = 0"

lemma loadFrameSource_dark: "dark h \<Longrightarrow> loadFrameSource f immediate h = (h', sgs) \<Longrightarrow> dark h'"
  by (auto simp: dark_def loadFrameSource_def Let_def)

lemma kill_dark: "kill h = (h', sgs) \<Longrightarrow> dark h'"
  by (auto simp: dark_def kill_def loadFrameSource_def Let_def)

lemma deliver_dark: "dark h \<Longrightarrow> deliver sg h = (h', sgs) \<Longrightarrow> dark h'"
  by (cases sg) (auto simp: deliver_def dump_def dest: loadFrameSource_dark)

lemma deliver_all_dark: "dark h \<Longrightarrow> deliver_all sgs h = (h', out) \<Longrightarrow> dark h'"
proof (induction sgs arbitrary: h out)
  case (Cons sg sgs)
  then show ?case by (auto simp: Let_def split: prod.splits dest: deliver_dark)
qed simp

lemma dark_update [simp]:
  "dark (h\<lparr>hd_sources := s\<rparr>) = dark h" "dark (h\<lparr>hd_mail := m\<rparr>) = dark h"
  "dark (h\<lparr>hd_driver := d\<rparr>) = dark h" "dark (h\<lparr>hd_resampler := r\<rparr>) = dark h"
  "dark (h\<lparr>hd_targetPPS := t\<rparr>) = dark h"
  by (simp_all add: dark_def)

lemma next_of_pb_dark: "dark h \<Longrightarrow> next_of_pb q now h sh = Inr (None, h, sh)"
  by (simp add: next_of_pb_def dark_def)

lemma next_source_frame_dark:
  fixes sgs :: "('c, 'm) head_signal list" and h :: "('f, 'z) head"
  assumes "dark h" and "next_source_frame q now h sh = Inr (fp, h', sh', sgs)"
  shows "fp = None \<and> dark h'"
proof -
  obtain s srcs sgs1 where g: "getNextFramesource (hd_sources h) = (s, srcs, sgs1)"
    by (metis prod_cases3)
  obtain h1 and e1 :: "('c, 'm) head_signal list"
    where d: "deliver_all sgs1 (h\<lparr>hd_sources := srcs\<rparr>) = (h1, e1)"
    by (metis surj_pair)
  have k1: "dark h1" using deliver_all_dark [OF _ d] assms(1) by simp
  obtain p sh1 where n: "next_of_pb q now (fst (loadFrameSource p False h1 ::
      ('f, 'z) head \<times> ('c, 'm) head_signal list)) sh1 = Inr (fp, h', sh')"
    using assms(2) by (auto simp: next_source_frame_def g d rbind_Inr_iff split_beta)
  obtain h2 and e2 :: "('c, 'm) head_signal list"
    where l: "loadFrameSource p False h1 = (h2, e2)" by (metis surj_pair)
  show ?thesis using n loadFrameSource_dark [OF k1 l] by (simp add: l next_of_pb_dark)
qed

lemma fetch_frame_dark:
  "dark h \<Longrightarrow> fetch_frame q now h sh = Inr (fp, h', sh', sgs) \<Longrightarrow> fp = None \<and> dark h'"
  by (auto simp: fetch_frame_def next_of_pb_dark dest: next_source_frame_dark)

lemma data_round_dark:
  assumes "dark h" and "data_round fuel q e now d h sh = Inr (go, h', sh', sgs, taken)"
  shows "dark h' \<and> taken = []"
proof -
  have b: "hd_pointBuf h = []" "hd_frame_index h = 0" using assms(1) by (simp_all add: dark_def)
  obtain t d' where n: "driver_new_points [] 0 d = (t, d')" by (metis surj_pair)
  have z: "dark (h\<lparr>hd_driver := Some d', hd_pointBuf := [], hd_frame_index := 0\<rparr>)"
    using assms(1) by (simp add: dark_def)
  show ?thesis
    using assms(2) b
    by (auto simp: data_round_def n rbind_Inr_iff split: option.splits
        dest: fetch_frame_dark [OF z])
qed

lemma data_loop_dark:
  "dark h \<Longrightarrow> data_loop k q e now h sh = Inr (h', sh', sgs, taken) \<Longrightarrow> dark h' \<and> taken = []"
proof (induction k arbitrary: h sh h' sh' sgs taken)
  case (Suc k)
  show ?case
  proof (cases "hd_driver h")
    case None
    then show ?thesis using Suc.prems by simp
  next
    case (Some d)
    show ?thesis
    proof (cases "driver_fill d > 300")
      case False
      then show ?thesis using Suc.prems Some by simp
    next
      case True
      then obtain go h1 sh1 sgs1 taken1 where
        r: "data_round (Suc k) q e now d h sh = Inr (go, h1, sh1, sgs1, taken1)"
        and rest: "(if go then rbind (data_loop k q e now h1 sh1) (\<lambda>(h2, sh2, sgs2, taken2).
             Inr (h2, sh2, sgs1 @ sgs2, taken1 @ taken2)) else Inr (h1, sh1, sgs1, taken1)) =
           Inr (h', sh', sgs, taken)"
        using Suc.prems(2) Some by (auto simp: rbind_Inr_iff)
      have k1: "dark h1 \<and> taken1 = []" by (rule data_round_dark [OF Suc.prems(1) r])
      then show ?thesis using rest Suc.IH [of h1 sh1]
        by (auto simp: rbind_Inr_iff split: if_splits)
    qed
  qed
qed simp

lemma slot_dark:
  "dark h \<Longrightarrow> deliver_mail h = (h', sgs) \<Longrightarrow> dark h'"
  "dark h \<Longrightarrow> manual h = (h', sgs) \<Longrightarrow> dark h'"
  "dark h \<Longrightarrow> beat h = (h', sgs) \<Longrightarrow> dark h'"
  by (auto simp: deliver_mail_def manual_def beat_def split: list.splits prod.splits
      dest: deliver_dark [rotated] deliver_all_dark [rotated])

lemma head_do_dark:
  assumes "dark h" and "ev \<noteq> Restart_head" and "head_do q e ev (h, sh) = Inr ((h', sh'), sgs, taken)"
  shows "dark h' \<and> taken = []"
proof (cases ev)
  case (Data_requested fuel now)
  then show ?thesis using assms data_loop_dark [OF assms(1), of fuel q e now sh]
    by (auto simp: rbind_Inr_iff dataRequested_def)
next
  case Kill_head
  then show ?thesis using assms(3) by (auto split: prod.splits dest: kill_dark)
next
  case Mail
  then show ?thesis using assms(3) by (auto split: prod.splits dest: slot_dark [OF assms(1)])
next
  case Manual_trigger
  then show ?thesis using assms(3) by (auto split: prod.splits dest: slot_dark [OF assms(1)])
next
  case Beat_trigger
  then show ?thesis using assms(3) by (auto split: prod.splits dest: slot_dark [OF assms(1)])
next
  case (Set_driver d)
  then show ?thesis using assms
    by (auto simp: setDriver_ptr_def rbind_Inr_iff split: option.splits if_splits)
qed (use assms in \<open>auto simp: head_select_def head_setSelectionMode_def head_setStepMode_def
  setPPS_def HWPpsChanged_def rbind_Inr_iff Let_def split: prod.splits\<close>)

section \<open>Properties\<close>

text \<open>
  C1. Emergency stop. Once a head has been killed, no point leaves it until it is restarted:
  whatever it is asked in any order (more data, other selections, steps, rates, drivers), whatever
  its driver does and however the engine changes the sources, the driver is given nothing, the
  buffer stays empty and no playback is loaded.
\<close>

theorem killed_head_stays_dark:
  assumes "kill h = (h0, sgs)" and "run_no_restart q e (h0, sh) out (h', sh')"
  shows "out = [] \<and> hd_pb h' = None \<and> hd_pointBuf h' = [] \<and> hd_killed h'"
proof -
  have "out = [] \<and> dark (fst st)" if "run_no_restart q e (h0, sh) out st" for st
    using that
  proof induction
    case start
    then show ?case using kill_dark [OF assms(1)] by simp
  next
    case (step out st1 ev st2 sgs taken)
    obtain h1 sh1 h2 sh2 where st: "st1 = (h1, sh1)" "st2 = (h2, sh2)" by (cases st1, cases st2)
    then show ?case using step head_do_dark [of h1 ev q e sh1 h2 sh2 sgs taken] by simp
  qed
  from this [OF assms(2)] show ?thesis by (simp add: dark_def)
qed

text \<open>A head for the examples: the dummy driver, and source 0 selected in loop mode.\<close>

definition demo_list :: playback_list where
  "demo_list = \<lparr>selections = [0], selMode = SINGLE, stepMode = LOOP, currentIndex = 0,
     pl_rand = (\<lambda>i. i)\<rparr>"

definition demo_head :: "(rat, unit) head" where
  "demo_head = \<lparr>hd_targetPPS = 12000, hd_driver = Some (Dummy_driver (Dummy_ILDA)),
     hd_pb = Some None, hd_pointBuf = [], hd_frame_index = 0,
     hd_resampler = Resample unit_filter, hd_sources = demo_list, hd_killed = False, hd_mail = []\<rparr>"

definition demo_show :: "(int \<times> int \<times> int, rat, rat) show_data" where
  "demo_show = \<lparr>sh_store = [], sh_sources = [], sh_rand = (\<lambda>i. i)\<rparr>"

theorem killed_head_stays_dark_witness:
  "(let h0 = demo_head\<lparr>hd_killed := True, hd_pb := None\<rparr> in
    kill demo_head = (h0, [Head_inactive]) \<and>
    run_no_restart exact_qt unit_filter (h0, demo_show) [] (head_select 3 True h0, demo_show) \<and>
    hd_pb (head_select 3 True h0) = None)"
proof -
  let ?h0 = "demo_head\<lparr>hd_killed := True, hd_pb := None\<rparr>"
  have k: "kill demo_head = (?h0, [Head_inactive])"
    by (simp add: kill_def loadFrameSource_def demo_head_def)
  have "run_no_restart exact_qt unit_filter (?h0, demo_show) ([] @ [])
      (head_select 3 True ?h0, demo_show)"
    by (rule run_no_restart.step [OF run_no_restart.start, where ev = "Select_source 3 True"
        and sgs = "[]"]) simp_all
  then have r: "run_no_restart exact_qt unit_filter (?h0, demo_show) []
      (head_select 3 True ?h0, demo_show)" by simp
  show ?thesis using killed_head_stays_dark [OF k r] r k by (simp add: Let_def)
qed


text \<open>When a call returns, the hardware buffer is full unless there was nothing to play.\<close>

lemma data_round_stop: "data_round k q e now d h sh = Inr (False, h', sh', sgs, taken) \<Longrightarrow> hd_pb h' = None"
  by (auto simp: data_round_def Let_def rbind_Inr_iff split: prod.splits if_splits)

lemma data_requested_fills_the_buffer:
  assumes "dataRequested fuel q e now h sh = Inr (h', sh', sgs, taken)"
  shows "hd_driver h' = None \<or> hd_pb h' = None \<or>
    (\<exists>d. hd_driver h' = Some d \<and> driver_fill d \<le> 300)"
proof -
  have "data_loop k q e now h sh = Inr (h', sh', sgs, taken) \<Longrightarrow> ?thesis" for k sgs taken
  proof (induction k arbitrary: h sh sgs taken)
    case (Suc k)
    then show ?case
      by (auto simp: rbind_Inr_iff split: option.splits if_splits dest: data_round_stop)
  qed simp
  then show ?thesis using assms by (simp add: dataRequested_def)
qed

text \<open>
  C19. While the head holds more points than the hardware has places for, the call that asks for
  points returns after one copy: if more than 300 places are free the driver is given exactly that
  many points, the next ones of the buffer in their order, and the index moves on by as many; if
  not, nothing happens. The playback, the playback list and the frame sources are not touched, and
  the hardware buffer is left full up to at most 300 places.
\<close>

theorem data_requested_copies_the_buffer:
  assumes d: "hd_driver h = Some d" "driver_ok d"
    and b: "driver_fill d < length (hd_pointBuf h) - hd_frame_index h"
      "length (hd_pointBuf h) < 2 ^ 64"
    and fuel: "2 \<le> fuel"
  shows "\<exists>d' n. dataRequested fuel q e now h sh =
      Inr (h\<lparr>hd_driver := Some d', hd_frame_index := hd_frame_index h + n\<rparr>, sh, [],
           take n (drop (hd_frame_index h) (hd_pointBuf h))) \<and>
    n = (if driver_fill d > 300 then driver_fill d else 0) \<and> driver_fill d' \<le> 300"
proof (cases "driver_fill d > 300")
  case False
  obtain k where k: "fuel = Suc k" using fuel by (cases fuel) auto
  have "h = h\<lparr>hd_driver := Some d, hd_frame_index := hd_frame_index h + 0\<rparr>" using d(1) by simp
  then show ?thesis using False d(1) k by (intro exI [of _ d] exI [of _ 0]) (simp add: dataRequested_def)
next
  case True
  let ?i = "hd_frame_index h" and ?p = "hd_pointBuf h"
  obtain k where k: "fuel = Suc (Suc k)" using fuel by (metis add_2_eq_Suc le_Suc_ex)
  obtain t d' where n: "driver_new_points ?p ?i d = (t, d')" by (metis surj_pair)
  have i: "?i \<le> length ?p" using b(1) by linarith
  have t: "t = driver_fill d" using hw.taken [OF d(2) i b(2)] b(1) by (simp add: n)
  have lt: "\<not> length ?p \<le> ?i + t" using b(1) t by linarith
  have f: "driver_fill d' = 0" using hw.space_left [OF d(2) i b(2)] by (simp add: n t)
  let ?h = "h\<lparr>hd_driver := Some d', hd_frame_index := ?i + t\<rparr>"
  have "data_round fuel q e now d h sh = Inr (True, ?h, sh, [], take t (drop ?i ?p))"
    using lt by (simp add: data_round_def n Let_def)
  then have "data_loop fuel q e now h sh = Inr (?h, sh, [], take t (drop ?i ?p))"
    using True d(1) f by (simp add: k)
  then show ?thesis using True t f by (intro exI [of _ d'] exI [of _ t]) (simp add: dataRequested_def)
qed

definition full_head :: "(rat, unit) head" where
  "full_head = demo_head\<lparr>hd_pointBuf := replicate 3000 \<lparr>pf_x = 0, pf_y = 0, pf_r = 0, pf_g = 0, pf_b = 0\<rparr>\<rparr>"

theorem data_requested_copies_the_buffer_witness:
  "\<exists>d'. dataRequested 2 exact_qt unit_filter 0 full_head demo_show =
      Inr (full_head\<lparr>hd_driver := Some d', hd_frame_index := 2000\<rparr>, demo_show, [],
           take 2000 (hd_pointBuf full_head)) \<and> driver_fill d' \<le> 300"
proof -
  have f: "driver_fill (Dummy_driver Dummy_ILDA) = 2000"
    by (simp add: driver_fill_def dummy_BufferFillStatus_def Dummy_ILDA_def size_sub_le
        dummy_BUFFER_SZ_def)
  have h: "hd_driver full_head = Some (Dummy_driver Dummy_ILDA)" "hd_frame_index full_head = 0"
    "length (hd_pointBuf full_head) = 3000"
    by (simp_all add: full_head_def demo_head_def)
  have ok: "driver_ok (Dummy_driver Dummy_ILDA)"
    by (simp add: driver_ok_def dummy_ok_def Dummy_ILDA_def)
  show ?thesis
    using data_requested_copies_the_buffer [OF h(1) ok, of 2 exact_qt unit_filter 0 demo_show]
    by (auto simp: h f)
qed

end
