(* ===== verification/Frame_Trees.thy ===== *)
theory Frame_Trees
  imports Frame_Playing
begin

text \<open>
  Building trees of frame sources: the registration of the three classes by their static
  constructors, \<open>addChild\<close> and \<open>deleteChild\<close>, and the copy \<open>clone\<close> makes of a whole tree.
\<close>

section \<open>The registered generators\<close>

definition fresh_like :: "('c, 'f, 'm) qt \<Rightarrow> ('c, 'f, 'm) fsource \<Rightarrow> ('c, 'f, 'm) fsource" where
  "fresh_like q s = (case src_node s of Static _ \<Rightarrow> StaticFrame q
     | Sequencer _ \<Rightarrow> FrameSequencer | Rotator _ \<Rightarrow> ColourRotator q)"

lemma distinct_frame_generators: "distinct (map fst (frame_generators q))"
  by (simp add: frame_generators_def)

lemma look_frame_generators: "map_of (frame_generators q) (getName s) = Some (fresh_like q s)"
  by (simp add: frame_generators_def getName_def fresh_like_def split: node.splits)

definition initialised :: "('c, 'f, 'm) qt \<Rightarrow> ('c, 'f, 'm) fsource registry \<Rightarrow> bool" where
  "initialised q reg \<longleftrightarrow> (\<exists>gens. mset gens = mset (frame_generators q) \<and>
     register_all registerFrameGen gens None = Inr reg)"

lemma initialised_names:
  assumes "initialised q reg"
  shows "find_frame_gen nm reg = map_of (frame_generators q) nm"
proof -
  obtain gens where g: "mset gens = mset (frame_generators q)"
    and r: "register_all registerFrameGen gens None = Inr reg"
    using assms by (auto simp: initialised_def)
  have d: "distinct (map fst gens)"
    using g distinct_frame_generators [of q] by (metis mset_eq_imp_distinct_iff mset_map)
  have m: "map_of gens = map_of (frame_generators q)"
    using g d distinct_frame_generators [of q]
    by (intro map_of_eqI) (auto dest: mset_eq_setD simp: map_of_is_SomeI)
  obtain r' where "register_all registerFrameGen gens None = Inr r'"
    "\<forall>m. find_frame_gen m r' = (case map_of gens m of Some g \<Rightarrow> Some g
      | None \<Rightarrow> find_frame_gen m None)"
    using frame_registry.register_all_ok [OF frame_registry.inv_empty d]
    by (auto simp: frame_registry.look_empty)
  then show ?thesis using r m by (simp add: frame_registry.look_empty split: option.splits)
qed

lemma initialised_look:
  assumes "initialised q reg"
  shows "find_frame_gen (getName s) reg = Some (fresh_like q s)"
  by (simp add: initialised_names [OF assms] look_frame_generators)

section \<open>The number of children\<close>

fun arity_ok :: "('c, 'f, 'm) fsource \<Rightarrow> bool" where
  "arity_ok (Source n d cs) =
     ((case n of Static _ \<Rightarrow> cs = [] | Sequencer _ \<Rightarrow> True | Rotator _ \<Rightarrow> length cs \<le> 1) \<and>
      list_all arity_ok cs)"

lemma mset_insert_at: "i \<le> length xs \<Longrightarrow> mset (insert_at i x xs) = add_mset x (mset xs)"
proof -
  have "mset (take i xs) + mset (drop i xs) = mset xs"
    by (metis append_take_drop_id mset_append)
  then show ?thesis by (simp add: insert_at_def)
qed

section \<open>Cloning\<close>

text \<open>\<open>copied s t\<close>: \<open>t\<close> is what \<open>clone\<close> makes of \<open>s\<close>.\<close>

fun copied :: "('c, 'f, 'm) qt \<Rightarrow> ('c, 'f, 'm) fsource \<Rightarrow> ('c, 'f, 'm) fsource" where
  "copied q (Source n d cs) =
     (case n of
        Static sf \<Rightarrow> Source (Static sf) d
      | Sequencer sq \<Rightarrow> Source (Sequencer (sq\<lparr>sq_newMode := Sequential\<rparr>))
          ''A step sequencer for other frame sources''
      | Rotator r \<Rightarrow> Source (Rotator (r\<lparr>colour_override := False\<rparr>)) ''Colour modulation effect'')
     (map (copied q) cs)"

lemma copyDataTo_fresh:
  "copyDataTo (Source n d cs) (fresh_like q (Source n d cs)) = Inr (copied q (Source n d []))"
  by (cases n)
     (simp_all add: copyDataTo_defs fresh_like_def StaticFrame_def FrameSequencer_def
        ColourRotator_def)

lemma addChild_append:
  "numPossibleChildren (Source n d cs) = MANY \<or>
   numPossibleChildren (Source n d cs) = ONE \<and> cs = [] \<Longrightarrow>
   addChild (Some c) (- 1) (Source n d cs) = Inr (True, Source n d (cs @ [c]))"
  by (auto simp: addChild_def Let_def)

lemma numPossibleChildren_copied:
  "numPossibleChildren (Source (src_node (copied q s)) d cs) = numPossibleChildren s"
  by (cases s) (simp add: numPossibleChildren_def split: node.splits)

lemma clone_children_copied:
  "\<forall>c \<in> set cs. clone reg c = Inr (copied q c) \<Longrightarrow>
   numPossibleChildren (Source n d cs0) = MANY \<or>
     numPossibleChildren (Source n d cs0) = ONE \<and> length cs0 + length cs \<le> 1 \<or> cs = [] \<Longrightarrow>
   clone_children reg cs (Source n d cs0) = Inr (Source n d (cs0 @ map (copied q) cs))"
proof (induction cs arbitrary: cs0)
  case (Cons c cs)
  have p: "numPossibleChildren (Source n d cs1) = numPossibleChildren (Source n d cs0)" for cs1
    by (simp add: numPossibleChildren_def)
  have "addChild (Some (copied q c)) (- 1) (Source n d cs0) =
      Inr (True, Source n d (cs0 @ [copied q c]))"
    using Cons.prems(2) by (intro addChild_append) auto
  moreover have "clone_children reg cs (Source n d (cs0 @ [copied q c])) =
      Inr (Source n d ((cs0 @ [copied q c]) @ map (copied q) cs))"
    by (rule Cons.IH) (use Cons.prems p [of "cs0 @ [copied q c]"] in auto)
  ultimately show ?case using Cons.prems(1) by simp
qed simp

lemma clone_copied:
  assumes "initialised q reg"
  shows "arity_ok s \<Longrightarrow> clone reg s = Inr (copied q s)"
proof (induction s)
  case (Source n d cs)
  let ?s = "Source n d cs"
  obtain n' d' where c: "copied q (Source n d []) = Source n' d' []"
    by (cases n) simp_all
  have cs: "copied q ?s = Source n' d' (map (copied q) cs)" using c by (cases n) auto
  have "numPossibleChildren (Source n' d' []) = numPossibleChildren ?s"
    using numPossibleChildren_copied [of q ?s d' "[]"] cs by simp
  then have room: "numPossibleChildren (Source n' d' []) = MANY \<or>
      numPossibleChildren (Source n' d' []) = ONE \<and> length ([] :: ('a, 'b, 'c) fsource list) +
        length cs \<le> 1 \<or> cs = []"
    using Source.prems by (cases n) (simp_all add: numPossibleChildren_def)
  have "\<forall>c \<in> set cs. clone reg c = Inr (copied q c)"
    using Source.IH Source.prems by (auto simp: list_all_iff)
  then have "clone_children reg cs (Source n' d' []) = Inr (copied q ?s)"
    using clone_children_copied [of cs reg q n' d' "[]"] room unfolding cs by simp
  then show ?case
    by (simp only: clone.simps initialised_look [OF assms] option.case copyDataTo_fresh c
        rbind_simps)
qed

lemma copied_keeps:
  "images q (copied q' s) = images q s"
  "playable (copied q' s) = playable s"
  "arity_ok (copied q' s) = arity_ok s"
  "frames (copied q' s) = frames s"
proof (induction s)
  case (Source n d cs)
  have f: "foldl (\<lambda>f c. f + frames c) a (map (copied q') xs) = foldl (\<lambda>f c. f + frames c) a xs"
    if "set xs \<subseteq> set cs" for xs a
    using that by (induction xs arbitrary: a) (simp_all add: Source.IH(4))
  {
    case 1 show ?case using Source.IH(1) by (cases n) (simp_all add: o_def cong: map_cong)
  next
    case 2 show ?case using Source.IH(2) by (cases n) (simp_all add: list_all_iff)
  next
    case 3 show ?case using Source.IH(3) by (cases n) (auto simp: list_all_iff)
  next
    case 4 show ?case
    proof (cases n)
      case (Sequencer sq)
      then show ?thesis using f [of cs 0] by simp
    next
      case (Rotator r)
      then show ?thesis using Source.IH(4) by (cases cs) simp_all
    qed simp
  }
qed

section \<open>Properties\<close>

text \<open>
  In whatever order the static constructors run, the three classes are registered under
  their own names, no registration fails, and the list offered to the user is in alphabetical
  order.
\<close>

theorem frame_classes_registered:
  assumes "mset gens = mset (frame_generators q)"
  shows "\<exists>reg. register_all registerFrameGen gens None = Inr reg \<and>
    enemerateFrameGenTypes reg = [''Colour_rotator'', ''Frame_sequence'', ''Static_frame''] \<and>
    (\<forall>s. find_frame_gen (getName s) reg = Some (fresh_like q s) \<and>
         getName (fresh_like q s) = getName s)"
proof -
  obtain r where r: "register_all registerFrameGen (frame_generators q) None = Inr r"
    "enemerateFrameGenTypes r = [''Colour_rotator'', ''Frame_sequence'', ''Static_frame'']"
    by (simp add: frame_generators_def registerFrameGen_def enemerateFrameGenTypes_def)
  obtain reg where reg: "register_all registerFrameGen gens None = Inr reg"
    "enemerateFrameGenTypes reg = enemerateFrameGenTypes r"
    using frame_registry.register_all_any_order [OF distinct_frame_generators assms r(1)] by blast
  have "initialised q reg" using assms reg(1) by (auto simp: initialised_def)
  moreover have "getName (fresh_like q s) = getName s" for s
    by (simp add: getName_def fresh_like_def StaticFrame_def FrameSequencer_def ColourRotator_def
        split: node.splits)
  ultimately show ?thesis using reg r(2) initialised_look by (intro exI [of _ reg]) auto
qed

theorem frame_classes_registered_witness:
  "\<exists>reg. register_all registerFrameGen (rev (frame_generators exact_qt)) None = Inr reg \<and>
    enemerateFrameGenTypes reg = [''Colour_rotator'', ''Frame_sequence'', ''Static_frame'']"
  using frame_classes_registered [of "rev (frame_generators exact_qt)" exact_qt] by auto

text \<open>
  C23. Adding a child respects the number of children of each class: it never gives a static
  frame a child or a rotator a second one, it puts the child at the position asked for, and when
  it refuses the source is unchanged.
\<close>

theorem addChild_keeps_arity:
  assumes "arity_ok s" and "arity_ok c"
  shows "\<exists>added s'. addChild (Some c) pos s = Inr (added, s') \<and> arity_ok s' \<and>
    (if added then
       mset (src_children s') = add_mset c (mset (src_children s)) \<and>
       src_children s' ! (if pos < 0 then length (src_children s) else nat pos) = c
     else s' = s)"
proof -
  obtain n d cs where s: "s = Source n d cs" by (cases s)
  have room: "arity_ok (Source n d cs')"
    if "mset cs' = add_mset c (mset cs)" and
      "numPossibleChildren s = MANY \<or> numPossibleChildren s = ONE \<and> length cs = 0" for cs'
  proof -
    have "set cs' = insert c (set cs)" using that(1) by (metis set_mset_add_mset_insert set_mset_mset)
    moreover have "length cs' = Suc (length cs)" using that(1) by (metis size_add_mset size_mset)
    ultimately show ?thesis
      using that(2) assms by (auto simp: s numPossibleChildren_def list_all_iff split: node.splits)
  qed
  have two: "numPossibleChildren s \<noteq> TWO" by (simp add: numPossibleChildren_def split: node.splits)
  have nth: "insert_at (nat pos) c cs ! nat pos = c" if "0 \<le> pos" "pos \<le> int (length cs)"
  proof -
    have "length (take (nat pos) cs) = nat pos" using that by simp
    then show ?thesis unfolding insert_at_def by (metis nth_append_length)
  qed
  show ?thesis
  proof (cases "numPossibleChildren s = MANY \<or> numPossibleChildren s = ONE \<and> length cs = 0")
    case False
    then show ?thesis using two assms(1) by (auto simp: addChild_def s Let_def)
  next
    case True
    consider "pos < 0" | "0 \<le> pos" "int (length cs) < pos" | "0 \<le> pos" "pos \<le> int (length cs)"
      by linarith
    then show ?thesis
    proof cases
      case 1
      then show ?thesis using True room [of "cs @ [c]"] by (auto simp: addChild_def s Let_def)
    next
      case 2
      then show ?thesis using True assms(1) by (auto simp: addChild_def s Let_def)
    next
      case 3
      have m: "mset (insert_at (nat pos) c cs) = add_mset c (mset cs)"
        by (rule mset_insert_at) (use 3 in simp)
      have e: "cs = [] \<Longrightarrow> cs @ [c] = insert_at (nat pos) c cs" using 3 by (simp add: insert_at_def)
      have "addChild (Some c) pos s = Inr (True, Source n d (insert_at (nat pos) c cs))"
        using True 3 e by (auto simp: addChild_def s Let_def)
      then show ?thesis using room [OF m True] m nth 3
        by (intro exI [of _ True] exI [of _ "Source n d (insert_at (nat pos) c cs)"]) (simp add: s)
    qed
  qed
qed

theorem addChild_keeps_arity_witness:
  "arity_ok demo_tree \<and> (\<exists>added s'. addChild (Some demo_tree) 1 demo_tree = Inr (added, s') \<and>
     arity_ok s')"
proof -
  have a: "arity_ok demo_tree"
    by (simp add: demo_tree_def demo_frame_def FrameSequencer_def ColourRotator_def)
  show ?thesis using a addChild_keeps_arity [OF a a, of 1] by blast
qed

text \<open>
  C4. The clone of any tree that addChild can build exists, can be played exactly when the
  original can, announces the same number of frames and plays images of the same static frames.
\<close>

theorem clone_plays_the_same_images:
  assumes "mset gens = mset (frame_generators q)"
    and "register_all registerFrameGen gens None = Inr reg" and "arity_ok s"
  shows "\<exists>s'. clone reg s = Inr s' \<and> images q s' = images q s \<and> playable s' = playable s \<and>
    arity_ok s' \<and> frames s' = frames s \<and> getName s' = getName s"
proof -
  have "initialised q reg" using assms(1,2) by (auto simp: initialised_def)
  moreover have "getName (copied q s) = getName s"
    by (cases s) (simp add: getName_def split: node.splits)
  ultimately show ?thesis using clone_copied [OF _ assms(3)] copied_keeps assms(3) by metis
qed

theorem clone_plays_the_same_images_witness:
  "\<exists>reg s'. register_all registerFrameGen (frame_generators exact_qt) None = Inr reg \<and>
     clone reg demo_tree = Inr s' \<and> images exact_qt s' = images exact_qt demo_tree \<and> playable s'"
proof -
  obtain reg where r: "register_all registerFrameGen (frame_generators exact_qt) None = Inr reg"
    by (simp add: frame_generators_def registerFrameGen_def)
  have a: "arity_ok demo_tree"
    by (simp add: demo_tree_def demo_frame_def FrameSequencer_def ColourRotator_def)
  show ?thesis
    using clone_plays_the_same_images [OF refl r a] demo_tree_playable r by auto
qed

text \<open>
  A clone forgets two settings: a ping-pong sequencer plays its children in order after the
  first call of nextFrame on the clone, and a rotator no longer overrides the colour.
\<close>

theorem clone_forgets_settings:
  "rbind (register_all registerFrameGen (frame_generators exact_qt) None) (\<lambda>reg.
     rbind (clone reg (Source (Sequencer \<lparr>sq_mode = Pingpong, sq_newMode = Pingpong,
         sq_repeats = 3\<rparr>) [] [Source (src_node (ColourRotator exact_qt)) [] []])) (\<lambda>s.
     rbind (nextFrame exact_qt 0 s (createPlayback exact_qt s) (\<lambda>i. i)) (\<lambda>(fr, s', r).
       Inr (src_node s')))) =
     Inr (Sequencer \<lparr>sq_mode = Sequential, sq_newMode = Sequential, sq_repeats = 3\<rparr>) \<and>
   rbind (register_all registerFrameGen (frame_generators q) None) (\<lambda>reg.
     clone reg (Source (Rotator (r\<lparr>colour_override := True\<rparr>)) d [])) =
     Inr (Source (Rotator (r\<lparr>colour_override := False\<rparr>)) ''Colour modulation effect'' [])"
proof
  show "rbind (register_all registerFrameGen (frame_generators exact_qt) None) (\<lambda>reg.
     rbind (clone reg (Source (Sequencer \<lparr>sq_mode = Pingpong, sq_newMode = Pingpong,
         sq_repeats = 3\<rparr>) [] [Source (src_node (ColourRotator exact_qt)) [] []])) (\<lambda>s.
     rbind (nextFrame exact_qt 0 s (createPlayback exact_qt s) (\<lambda>i. i)) (\<lambda>(fr, s', r).
       Inr (src_node s')))) =
     Inr (Sequencer \<lparr>sq_mode = Sequential, sq_newMode = Sequential, sq_repeats = 3\<rparr>)"
    by code_simp
  show "rbind (register_all registerFrameGen (frame_generators q) None) (\<lambda>reg.
     clone reg (Source (Rotator (r\<lparr>colour_override := True\<rparr>)) d [])) =
     Inr (Source (Rotator (r\<lparr>colour_override := False\<rparr>)) ''Colour modulation effect'' [])"
    using clone_copied [of q _ "Source (Rotator (r\<lparr>colour_override := True\<rparr>)) d []"]
    by (simp add: frame_generators_def registerFrameGen_def find_frame_gen_def getName_def
        ColourRotator_def copyDataTo_defs)
qed

end
