(* ===== verification/Show_Xml.thy ===== *)
theory Show_Xml
  imports Lucifer_Prelude
begin

text \<open>
  The documents of the show files, as \<open>QXmlStreamWriter\<close> takes them and \<open>QXmlStreamReader\<close>
  delivers them: a sequence of tokens. Turning tokens into text and text into tokens is Qt's and not
  modelled; \<open>reads_as\<close> states what the program relies on, that a reader delivers the elements,
  attributes and texts of a document in their order, with white space between the tags.

  A reader is the list of the tokens from the current one on. It starts before the first token, and
  past the last one every token is invalid.
\<close>

datatype xml_token =
    No_token
  | Start_document
  | Start_element string "(string \<times> string) list"
  | End_element string
  | Characters string
  | Comment_token string
  | End_document
  | Invalid_token

type_synonym xml_reader = "xml_token list"

section \<open>The current token\<close>

definition tokenType :: "xml_reader \<Rightarrow> xml_token" where
  "tokenType r = (case r of [] \<Rightarrow> Invalid_token | t # _ \<Rightarrow> t)"

fun is_start :: "xml_token \<Rightarrow> bool" where
  "is_start (Start_element n as) = True"
| "is_start t = False"

fun is_end :: "xml_token \<Rightarrow> bool" where
  "is_end (End_element n) = True"
| "is_end t = False"

fun token_name :: "xml_token \<Rightarrow> string" where
  "token_name (Start_element n as) = n"
| "token_name (End_element n) = n"
| "token_name t = []"

fun token_attributes :: "xml_token \<Rightarrow> (string \<times> string) list" where
  "token_attributes (Start_element n as) = as"
| "token_attributes t = []"

fun token_text :: "xml_token \<Rightarrow> string" where
  "token_text (Characters s) = s"
| "token_text (Comment_token s) = s"
| "token_text t = []"

text \<open>\<open>atEnd\<close>, \<open>name\<close>, \<open>text\<close> and \<open>attributes ().value (a)\<close>, empty for an attribute that is not there.\<close>

definition at_end :: "xml_reader \<Rightarrow> bool" where
  "at_end r \<longleftrightarrow> tokenType r = End_document \<or> tokenType r = Invalid_token"

definition xml_name :: "xml_reader \<Rightarrow> string" where
  "xml_name r = token_name (tokenType r)"

definition xml_text :: "xml_reader \<Rightarrow> string" where
  "xml_text r = token_text (tokenType r)"

definition xml_attr :: "string \<Rightarrow> xml_reader \<Rightarrow> string" where
  "xml_attr a r = (case map_of (token_attributes (tokenType r)) a of None \<Rightarrow> [] | Some v \<Rightarrow> v)"

section \<open>Moving on\<close>

definition readNext :: "xml_reader \<Rightarrow> xml_reader" where
  "readNext r = (case r of [] \<Rightarrow> [] | Invalid_token # _ \<Rightarrow> r | _ # r' \<Rightarrow> r')"

text \<open>The loops \<open>while (!atEnd () && !stop) readNext ();\<close> of the program.\<close>

fun skip_until :: "(xml_token \<Rightarrow> bool) \<Rightarrow> xml_reader \<Rightarrow> xml_reader" where
  "skip_until stop [] = []"
| "skip_until stop (t # r) = (if t = End_document \<or> t = Invalid_token \<or> stop t then t # r
     else skip_until stop r)"

text \<open>\<open>readNextStartElement\<close> stops at the next start or end of an element.\<close>

fun next_tag :: "xml_reader \<Rightarrow> xml_reader" where
  "next_tag [] = []"
| "next_tag (t # r) = (if t = Invalid_token \<or> is_start t \<or> is_end t then t # r else next_tag r)"

definition readNextStartElement :: "xml_reader \<Rightarrow> xml_reader" where
  "readNextStartElement r = (case r of [] \<Rightarrow> [] | Invalid_token # _ \<Rightarrow> r | _ # r' \<Rightarrow> next_tag r')"

section \<open>Progress\<close>

lemma readNextStartElement_simps [simp]:
  "readNextStartElement (Start_element nm as # r) = next_tag r"
  "readNextStartElement (End_element nm # r) = next_tag r"
  "readNextStartElement (Characters s # r) = next_tag r"
  "readNextStartElement (No_token # r) = next_tag r"
  by (simp_all add: readNextStartElement_def)

lemma skip_until_idem [simp]: "skip_until stop (skip_until stop r) = skip_until stop r"
  by (induction r) auto

lemma tokenType_simps [simp]:
  "tokenType [] = Invalid_token" "tokenType (t # r) = t"
  by (simp_all add: tokenType_def)

lemma skip_until_loop:
  "skip_until stop r = (if at_end r \<or> stop (tokenType r) then r else skip_until stop (readNext r))"
  by (cases r; cases "hd r") (auto simp: at_end_def readNext_def)

lemma length_skip_until: "length (skip_until stop r) \<le> length r"
  by (induction r) auto

lemma skip_until_stops: "at_end (skip_until stop r) \<or> stop (tokenType (skip_until stop r))"
  by (induction r) (auto simp: at_end_def)

lemma length_next_tag: "length (next_tag r) \<le> length r"
  by (induction r) auto

lemma length_readNextStartElement: "length (readNextStartElement r) \<le> length r"
  by (auto simp: readNextStartElement_def split: list.splits xml_token.splits
      intro: le_SucI length_next_tag)

lemma readNextStartElement_shorter:
  "r \<noteq> [] \<Longrightarrow> tokenType r \<noteq> Invalid_token \<Longrightarrow> length (readNextStartElement r) < length r"
  by (cases r) (auto simp: readNextStartElement_def less_Suc_eq_le length_next_tag
      split: xml_token.splits)

lemma length_readNext: "length (readNext r) \<le> length r"
  by (auto simp: readNext_def split: list.splits xml_token.splits)

section \<open>Reading what was written\<close>

text \<open>
  \<open>reads_as ws vs\<close>: a reader may deliver \<open>vs\<close> for a document written as \<open>ws\<close>. White space may stand
  before a tag, except right after a text; an empty text gives no token.
\<close>

definition is_tag :: "xml_token \<Rightarrow> bool" where
  "is_tag t \<longleftrightarrow> is_start t \<or> is_end t \<or> t = Start_document \<or> t = End_document"

definition text_tokens :: "string \<Rightarrow> xml_token list" where
  "text_tokens s = (if s = [] then [] else [Characters s])"

inductive reads_as :: "xml_token list \<Rightarrow> xml_token list \<Rightarrow> bool" where
  nothing: "reads_as [] []"
| tag: "is_tag t \<Longrightarrow> reads_as ws vs \<Longrightarrow> reads_as (t # ws) (t # vs)"
| space: "is_tag t \<Longrightarrow> reads_as (t # ws) vs \<Longrightarrow> reads_as (t # ws) (Characters sp # vs)"
| texts: "is_tag t \<Longrightarrow> reads_as ws vs \<Longrightarrow>
    reads_as (Characters s # t # ws) (text_tokens s @ t # vs)"

inductive_cases reads_as_NilE: "reads_as [] vs"
inductive_simps reads_as_Nil [simp]: "reads_as [] vs"

text \<open>White space: tokens the program skips.\<close>

definition spaces :: "xml_token list \<Rightarrow> bool" where
  "spaces us \<longleftrightarrow> (\<forall>u \<in> set us. \<exists>sp. u = Characters sp)"

lemma spaces_simps [simp]: "spaces []" "spaces (Characters sp # us) = spaces us"
  by (auto simp: spaces_def)

lemma is_tag_simps [simp]:
  "is_tag (Start_element n as)" "is_tag (End_element n)" "is_tag Start_document" "is_tag End_document"
  "\<not> is_tag (Characters s)"
  by (simp_all add: is_tag_def)

lemma reads_as_tag:
  assumes "reads_as (t # ws) vs" "is_tag t"
  obtains us vs' where "vs = us @ t # vs'" "spaces us" "reads_as ws vs'"
proof -
  have "\<exists>us vs'. vs = us @ t # vs' \<and> spaces us \<and> reads_as ws vs'"
    using assms
  proof (induction "t # ws" vs)
    case (tag vs)
    then show ?case by (intro exI [of _ "[]"] exI [of _ vs]) simp
  next
    case (space vs sp)
    then obtain us vs' where "vs = us @ t # vs' \<and> spaces us \<and> reads_as ws vs'" by auto
    then show ?case by (intro exI [of _ "Characters sp # us"] exI [of _ vs']) simp
  qed auto
  then show ?thesis using that by blast
qed

lemma reads_as_text:
  assumes "reads_as (Characters s # t # ws) vs"
  obtains vs' where "vs = text_tokens s @ t # vs'" "is_tag t" "reads_as ws vs'"
  using assms by (cases rule: reads_as.cases) auto

lemma reads_as_append:
  "reads_as (xs @ ys) vs \<Longrightarrow> xs = [] \<or> is_tag (last xs) \<Longrightarrow>
   \<exists>vs1 vs2. vs = vs1 @ vs2 \<and> reads_as xs vs1 \<and> reads_as ys vs2"
proof (induction "xs @ ys" vs arbitrary: xs rule: reads_as.induct)
  case (tag t ws vs)
  show ?case
  proof (cases xs)
    case Nil
    then show ?thesis using reads_as.tag [OF tag.hyps(1,2)] tag.hyps(4)
      by (intro exI [of _ "[]"] exI [of _ "t # vs"]) simp
  next
    case (Cons x xs')
    then obtain vs1 vs2 where "vs = vs1 @ vs2" "reads_as xs' vs1" "reads_as ys vs2"
      using tag.hyps(3) [of xs'] tag by (cases "xs' = []") auto
    then show ?thesis using Cons tag.hyps
      by (intro exI [of _ "t # vs1"] exI [of _ vs2]) (auto intro: reads_as.tag)
  qed
next
  case (space t ws vs sp)
  show ?case
  proof (cases xs)
    case Nil
    then show ?thesis using reads_as.space [OF space.hyps(1,2)] space.hyps(4)
      by (intro exI [of _ "[]"] exI [of _ "Characters sp # vs"]) simp
  next
    case (Cons x xs')
    obtain vs1 vs2 where "vs = vs1 @ vs2" "reads_as xs vs1" "reads_as ys vs2"
      using space.hyps(3) [OF space.hyps(4)] space.prems by blast
    then show ?thesis using Cons space.hyps
      by (intro exI [of _ "Characters sp # vs1"] exI [of _ vs2]) (auto intro: reads_as.space)
  qed
next
  case (texts t ws vs s)
  show ?case
  proof (cases xs)
    case Nil
    then show ?thesis using reads_as.texts [OF texts.hyps(1,2), of s] texts.hyps(4)
      by (intro exI [of _ "[]"] exI [of _ "text_tokens s @ t # vs"]) simp
  next
    case (Cons x xs1)
    then obtain xs' where xs: "xs = Characters s # t # xs'" "ws = xs' @ ys"
      using texts by (cases xs1) auto
    then obtain vs1 vs2 where "vs = vs1 @ vs2" "reads_as xs' vs1" "reads_as ys vs2"
      using texts.hyps(3) [of xs'] texts.prems by (cases "xs' = []") auto
    then show ?thesis using xs texts.hyps
      by (intro exI [of _ "text_tokens s @ t # vs1"] exI [of _ vs2]) (auto intro: reads_as.texts)
  qed
qed simp

lemma reads_as_self:
  "list_all is_tag ws \<Longrightarrow> reads_as ws ws"
  by (induction ws) (auto intro: reads_as.tag)

lemma skip_spaces [simp]:
  "spaces us \<Longrightarrow> (\<And>sp. \<not> stop (Characters sp)) \<Longrightarrow> skip_until stop (us @ r) = skip_until stop r"
  by (induction us) (auto simp: spaces_def)

lemma next_tag_spaces [simp]: "spaces us \<Longrightarrow> next_tag (us @ r) = next_tag r"
  by (induction us) (auto simp: spaces_def)

end
