(* ===== verification/Source_Files.thy ===== *)
theory Source_Files
  imports Frame_Trees Show_Xml
begin

text \<open>
  The XML form of frame sources: \<open>save\<close> and \<open>load\<close> of the three classes, and \<open>saveFrames\<close>,
  \<open>loadFrames\<close>, \<open>toString\<close> and \<open>fromString\<close> of \<open>framesource_impl.cpp\<close>.

  The conversions of Qt between values and text, and the access to the elements of a matrix, are the
  record \<open>text_lib\<close>; what the program relies on is \<open>text_laws\<close>. \<open>toInt\<close> and \<open>toUInt\<close> give zero for
  a text that is not a number in range. \<open>loadFrames\<close> recurses on the depth of the tree as fuel;
  the tokens of the document are always enough.
\<close>

section \<open>Values as text\<close>

record ('f, 'm) text_lib =
  x_show :: "'f \<Rightarrow> string" \<comment> \<open>\<open>QString::number\<close> of a float: six significant digits\<close>
  x_toFloat :: "string \<Rightarrow> 'f"
  x_toInt :: "string \<Rightarrow> u32" \<comment> \<open>an \<open>int\<close>, as the word that represents it\<close>
  x_toUInt :: "string \<Rightarrow> u32"
  x_toULong :: "string \<Rightarrow> u64"
  x_toBase64 :: "u8 list \<Rightarrow> string"
  x_fromBase64 :: "string \<Rightarrow> u8 list"
  x_elem :: "'m \<Rightarrow> nat \<Rightarrow> nat \<Rightarrow> 'f" \<comment> \<open>\<open>m (row, column)\<close>\<close>
  x_set :: "nat \<Rightarrow> nat \<Rightarrow> 'f \<Rightarrow> 'm \<Rightarrow> 'm"

definition bool_text :: "bool \<Rightarrow> string" where
  "bool_text b = dec_string (if b then 1 else 0)"

text \<open>The order in which the elements of the geometry matrix are written: row, then column.\<close>

definition geometry_cells :: "(nat \<times> nat) list" where
  "geometry_cells = concat (map (\<lambda>i. map (\<lambda>j. (j, i)) [0..<4]) [0..<4])"

definition geometry_name :: "nat \<times> nat \<Rightarrow> string" where
  "geometry_name c = ''Geometry'' @ dec_string (fst c) @ dec_string (snd c)"

section \<open>Static frames\<close>

text \<open>A point is ten bytes: three shorts in network order, three colours and the blanking.\<close>

definition htons_bytes :: "u16 \<Rightarrow> u8 list" where
  "htons_bytes v = [ucast (drop_bit 8 v), ucast v]"

definition ntohs_at :: "u8 list \<Rightarrow> nat \<Rightarrow> u16" where
  "ntohs_at b a = or (push_bit 8 (ucast (b ! a))) (ucast (b ! (a + 1)))"

definition point_bytes :: "ilda_point \<Rightarrow> u8 list" where
  "point_bytes p = htons_bytes (ip_x p) @ htons_bytes (ip_y p) @ htons_bytes (ip_z p) @
     [ip_r p, ip_g p, ip_b p, if ip_blanked p then 1 else 0]"

definition point_at :: "u8 list \<Rightarrow> nat \<Rightarrow> ilda_point" where
  "point_at b a = \<lparr>ip_x = ntohs_at b a, ip_y = ntohs_at b (a + 2), ip_z = ntohs_at b (a + 4),
     ip_blanked = (b ! (a + 9) \<noteq> 0), ip_r = b ! (a + 6), ip_g = b ! (a + 7), ip_b = b ! (a + 8)\<rparr>"

definition static_save :: "('f, 'm) text_lib \<Rightarrow> ('f, 'm) static_frame \<Rightarrow>
    (string \<times> string) list \<times> xml_token list" where
  "static_save x sf =
     ([(''Points'', dec_string (length (sf_data sf))),
       (''Use_Dewell'', if sf_useDewell sf then ''True'' else ''False''),
       (''Dewell'', dec_string (unat (sf_dewell sf))),
       (''Repeats'', dec_string (unat (sf_repeats sf))),
       (''Scale'', x_show x (sf_scale sf))] @
      map (\<lambda>c. (geometry_name c, x_show x (x_elem x (sf_geometry sf) (fst c) (snd c)))) geometry_cells,
      [Start_element ''PointList'' [],
       Characters (x_toBase64 x (concat (map point_bytes (sf_data sf)))),
       End_element ''PointList''])"

text \<open>
  \<open>StaticFrame::load\<close>. The vector cannot be reserved for a negative number of points; what the
  attribute says is not compared with the points found.
\<close>

definition static_load :: "('f, 'm) text_lib \<Rightarrow> ('f, 'm) static_frame \<Rightarrow> xml_reader \<Rightarrow>
    (('f, 'm) static_frame \<times> xml_reader) res" where
  "static_load x sf e =
     (let sf1 = sf\<lparr>sf_dewell := x_toInt x (xml_attr ''Dewell'' e),
            sf_repeats := x_toInt x (xml_attr ''Repeats'' e),
            sf_scale := x_toFloat x (xml_attr ''Scale'' e),
            sf_useDewell := (xml_attr ''Use_Dewell'' e = ''True''),
            sf_geometry := foldl (\<lambda>m c. x_set x (fst c) (snd c)
                (x_toFloat x (xml_attr (geometry_name c) e)) m) (sf_geometry sf) geometry_cells\<rparr>;
          e1 = skip_until (\<lambda>t. token_name t = ''PointList'') e
      in if sint (x_toInt x (xml_attr ''Points'' e)) < 0 then Inl Uncaught_exception
         else if xml_name e1 = ''PointList'' then
           (let e2 = readNext e1; ba = x_fromBase64 x (xml_text e2)
            in Inr (sf1\<lparr>sf_data := map (\<lambda>i. point_at ba (10 * i)) [0..<length ba div 10]\<rparr>, e2))
         else Inr (sf1\<lparr>sf_data := []\<rparr>, e1))"

section \<open>Sequencers\<close>

definition seq_mode_number :: "seq_mode \<Rightarrow> u32" where
  "seq_mode_number m = (case m of Sequential \<Rightarrow> 0 | Random \<Rightarrow> 1 | Pingpong \<Rightarrow> 2 | Other_mode w \<Rightarrow> w)"

definition seq_mode_of :: "u32 \<Rightarrow> seq_mode" where
  "seq_mode_of w = (if w = 0 then Sequential else if w = 1 then Random else if w = 2 then Pingpong
     else Other_mode w)"

definition sequencer_save :: "sequencer \<Rightarrow> (string \<times> string) list" where
  "sequencer_save sq = [(''Repeats'', dec_string (unat (sq_repeats sq))),
     (''Mode'', dec_int (sint (seq_mode_number (sq_mode sq))))]"

definition sequencer_load :: "('f, 'm) text_lib \<Rightarrow> sequencer \<Rightarrow> xml_reader \<Rightarrow> sequencer" where
  "sequencer_load x sq r = sq\<lparr>sq_repeats := x_toUInt x (xml_attr ''Repeats'' r),
     sq_newMode := seq_mode_of (x_toUInt x (xml_attr ''Mode'' r))\<rparr>"

section \<open>Colour rotators\<close>

definition rotator_save :: "('c, 'f, 'm) qt \<Rightarrow> ('f, 'm) text_lib \<Rightarrow> ('c, 'f) rotator \<Rightarrow>
    (string \<times> string) list" where
  "rotator_save q x ro =
     [(''Pulse_colour_r'', dec_int (q_red q (pulse_colour ro))),
      (''Pulse_colour_g'', dec_int (q_green q (pulse_colour ro))),
      (''Pulse_colour_b'', dec_int (q_blue q (pulse_colour ro))),
      (''Pulse_dutycycle'', x_show x (pulse_dutycycle ro)),
      (''Pulse_harmonic'', x_show x (pulse_harmonic ro)),
      (''Pulse_phase_advance'', x_show x (pulse_phase_advance ro)),
      (''Rotate_H'', bool_text (rotate_h ro)),
      (''Rotate_S'', bool_text (rotate_s ro)),
      (''Rotate_V'', bool_text (rotate_v ro)),
      (''Rotate_harmonic'', x_show x (rotate_harmonic ro)),
      (''Rotate_phase_advance'', x_show x (rotate_phase_advance ro)),
      (''Colour_override'', bool_text (colour_override ro)),
      (''override_colour_r'', dec_int (q_red q (override_colour ro))),
      (''override_colour_g'', dec_int (q_green q (override_colour ro))),
      (''override_colour_b'', dec_int (q_blue q (override_colour ro)))]"

text \<open>\<open>ColourRotator::load\<close>: the harmonics are written as floats and read as integers.\<close>

definition rotator_load :: "('c, 'f, 'm) qt \<Rightarrow> ('f, 'm) text_lib \<Rightarrow> ('c, 'f) rotator \<Rightarrow> xml_reader \<Rightarrow>
    ('c, 'f) rotator" where
  "rotator_load q x ro e =
     (let int_of = (\<lambda>a. sint (x_toInt x (xml_attr a e)));
          float_of = (\<lambda>a. x_toFloat x (xml_attr a e))
      in ro\<lparr>pulse_colour := q_rgb q (int_of ''Pulse_colour_r'') (int_of ''Pulse_colour_g'')
            (int_of ''Pulse_colour_b''),
          pulse_dutycycle := float_of ''Pulse_dutycycle'',
          pulse_harmonic := f_rat q (of_int (int_of ''Pulse_harmonic'')),
          pulse_phase_advance := float_of ''Pulse_phase_advance'',
          rotate_h := (int_of ''Rotate_H'' \<noteq> 0),
          rotate_s := (int_of ''Rotate_S'' \<noteq> 0),
          rotate_v := (int_of ''Rotate_V'' \<noteq> 0),
          rotate_harmonic := f_rat q (of_int (int_of ''Rotate_harmonic'')),
          rotate_phase_advance := float_of ''Rotate_phase_advance'',
          colour_override := (int_of ''Colour_override'' \<noteq> 0),
          override_colour := q_rgb q (int_of ''override_colour_r'') (int_of ''override_colour_g'')
            (int_of ''override_colour_b'')\<rparr>)"

section \<open>Whole trees\<close>

text \<open>\<open>save\<close> and \<open>load\<close> are virtual: attributes of the node's element, then what it holds.\<close>

definition node_save :: "('c, 'f, 'm) qt \<Rightarrow> ('f, 'm) text_lib \<Rightarrow> ('c, 'f, 'm) node \<Rightarrow>
    (string \<times> string) list \<times> xml_token list" where
  "node_save q x n = (case n of
     Static sf \<Rightarrow> static_save x sf
   | Sequencer sq \<Rightarrow> (sequencer_save sq, [])
   | Rotator ro \<Rightarrow> (rotator_save q x ro, []))"

definition node_load :: "('c, 'f, 'm) qt \<Rightarrow> ('f, 'm) text_lib \<Rightarrow> ('c, 'f, 'm) node \<Rightarrow> xml_reader \<Rightarrow>
    (('c, 'f, 'm) node \<times> xml_reader) res" where
  "node_load q x n e = (case n of
     Static sf \<Rightarrow> rbind (static_load x sf e) (\<lambda>(sf', e'). Inr (Static sf', e'))
   | Sequencer sq \<Rightarrow> Inr (Sequencer (sequencer_load x sq e), e)
   | Rotator ro \<Rightarrow> Inr (Rotator (rotator_load q x ro e), e))"

fun saveFrames :: "('c, 'f, 'm) qt \<Rightarrow> ('f, 'm) text_lib \<Rightarrow> ('c, 'f, 'm) fsource \<Rightarrow> xml_token list" where
  "saveFrames q x (Source n d cs) =
     [Start_element (getName (Source n d cs)) ((''Description'', d) # fst (node_save q x n))] @
     snd (node_save q x n) @
     [Start_element ''Children'' [(''Number'', dec_string (unat (numChildren (Source n d cs))))]] @
     concat (map (saveFrames q x) cs) @
     [End_element ''Children'', End_element (getName (Source n d cs))]"

text \<open>
  \<open>loadFrames\<close> and its loop over the children (\<open>load_children\<close>, \<open>n\<close> passes to go). An element
  of an unknown class gives a null pointer, which \<open>addChild\<close> does not accept.
\<close>

function loadFrames :: "('c, 'f, 'm) qt \<Rightarrow> ('f, 'm) text_lib \<Rightarrow> ('c, 'f, 'm) fsource registry \<Rightarrow> nat \<Rightarrow>
    xml_reader \<Rightarrow> (('c, 'f, 'm) fsource option \<times> xml_reader) res"
  and load_children :: "('c, 'f, 'm) qt \<Rightarrow> ('f, 'm) text_lib \<Rightarrow> ('c, 'f, 'm) fsource registry \<Rightarrow> nat \<Rightarrow>
    nat \<Rightarrow> ('c, 'f, 'm) fsource \<Rightarrow> xml_reader \<Rightarrow> (('c, 'f, 'm) fsource \<times> xml_reader) res" where
  "loadFrames q x reg 0 e = Inl Out_of_fuel"
| "loadFrames q x reg (Suc fuel) e =
     (let e1 = skip_until is_start e in
      case find_frame_gen (xml_name e1) reg of
        None \<Rightarrow> Inr (None, readNextStartElement e1)
      | Some f \<Rightarrow>
          rbind (node_load q x (src_node f) e1) (\<lambda>(n, e2).
            let fs = Source n (xml_attr ''Description'' e1) (src_children f);
                e3 = skip_until is_start (readNextStartElement e2)
            in if xml_name e3 = ''Children'' then
                 rbind (load_children q x reg fuel
                     (nat (sint (x_toInt x (xml_attr ''Number'' e3)))) fs (readNextStartElement e3))
                   (\<lambda>(fs', e4). Inr (Some fs', e4))
               else Inr (Some fs, e3)))"
| "load_children q x reg fuel 0 fs e = Inr (fs, e)"
| "load_children q x reg fuel (Suc n) fs e =
     rbind (loadFrames q x reg fuel (skip_until is_start e)) (\<lambda>(c, e1).
     rbind (addChild c (- 1) fs) (\<lambda>(_, fs1).
       load_children q x reg fuel n fs1 (readNextStartElement e1)))"
  by pat_completeness auto

termination
  by (relation "inv_image (less_than <*lex*> less_than) (\<lambda>p. case p of
      Inl (q, x, reg, fuel, e) \<Rightarrow> (fuel, 0)
    | Inr (q, x, reg, fuel, n, fs, e) \<Rightarrow> (fuel, Suc n))") auto

text \<open>The text of \<open>toString\<close> is the one of these tokens; \<open>fromString\<close> has a reader on its text.\<close>

definition toString :: "('c, 'f, 'm) qt \<Rightarrow> ('f, 'm) text_lib \<Rightarrow> ('c, 'f, 'm) fsource \<Rightarrow> xml_token list" where
  "toString q x s = saveFrames q x s"

definition fromString :: "('c, 'f, 'm) qt \<Rightarrow> ('f, 'm) text_lib \<Rightarrow> ('c, 'f, 'm) fsource registry \<Rightarrow>
    xml_token list \<Rightarrow> ('c, 'f, 'm) fsource option res" where
  "fromString q x reg r =
     (let e = readNextStartElement (No_token # r)
      in rbind (loadFrames q x reg (Suc (length e)) e) (\<lambda>(f, _). Inr f))"

section \<open>Loading ends\<close>

lemma node_load_keeps:
  "node_load q x n e \<noteq> Inl Out_of_fuel"
  "node_load q x n e = Inr (n', e') \<Longrightarrow> length e' \<le> length e"
proof -
  show "node_load q x n e \<noteq> Inl Out_of_fuel"
    by (cases n) (simp_all add: node_load_def static_load_def Let_def)
  show "node_load q x n e = Inr (n', e') \<Longrightarrow> length e' \<le> length e"
    by (cases n) (auto simp: node_load_def static_load_def Let_def split: if_splits
        intro: order_trans [OF length_readNext length_skip_until] length_skip_until)
qed

lemma addChild_no_fuel: "addChild c pos s \<noteq> Inl Out_of_fuel"
  by (simp add: addChild_def Let_def split: option.splits)

lemma load_shrinks:
  "loadFrames q x reg fuel e = Inr (f, e') \<Longrightarrow> length e' \<le> length e"
  "load_children q x reg fuel n fs e = Inr (fs', e') \<Longrightarrow> length e' \<le> length e"
proof (induction q x reg fuel e and q x reg fuel n fs e arbitrary: f e' and fs' e'
    rule: loadFrames_load_children.induct)
  case (2 q x reg fuel e)
  let ?e1 = "skip_until is_start e"
  have l1: "length ?e1 \<le> length e" by (rule length_skip_until)
  show ?case
  proof (cases "find_frame_gen (xml_name ?e1) reg")
    case None
    then show ?thesis using 2 l1 order_trans [OF length_readNextStartElement l1] by auto
  next
    case (Some g)
    then obtain n e2 where n: "node_load q x (src_node g) ?e1 = Inr (n, e2)"
      using 2 by (cases "node_load q x (src_node g) ?e1") auto
    let ?e3 = "skip_until is_start (readNextStartElement e2)"
    have l3: "length ?e3 \<le> length e"
      using node_load_keeps(2) [OF n] l1 length_readNextStartElement [of e2]
        length_skip_until [of is_start "readNextStartElement e2"] by linarith
    show ?thesis
    proof (cases "xml_name ?e3 = ''Children''")
      case False
      then show ?thesis using 2 Some n l3 by auto
    next
      case True
      obtain fs1 where "load_children q x reg fuel (nat (sint (x_toInt x (xml_attr ''Number'' ?e3))))
          (Source n (xml_attr ''Description'' ?e1) (src_children g)) (readNextStartElement ?e3) =
          Inr (fs1, e')"
        using 2(2) Some n True by (auto simp: Let_def rbind_Inr_iff)
      then have "length e' \<le> length (readNextStartElement ?e3)"
        using 2(1) [OF refl Some n] True by blast
      then show ?thesis using l3 length_readNextStartElement [of ?e3] by linarith
    qed
  qed
next
  case (4 q x reg fuel n fs e)
  obtain c e1 added fs1 where
    c: "loadFrames q x reg fuel (skip_until is_start e) = Inr (c, e1)" and
    a: "addChild c (- 1) fs = Inr (added, fs1)" and
    r: "load_children q x reg fuel n fs1 (readNextStartElement e1) = Inr (fs', e')"
    using 4(3) by (auto simp: rbind_Inr_iff)
  show ?case
    using 4(1) [OF c] 4(2) [OF c refl a refl r] length_skip_until [of is_start e]
      length_readNextStartElement [of e1] by linarith
qed simp_all

lemma load_fuel:
  "length e < fuel \<Longrightarrow> loadFrames q x reg fuel e \<noteq> Inl Out_of_fuel"
  "length e < fuel \<Longrightarrow> load_children q x reg fuel n fs e \<noteq> Inl Out_of_fuel"
proof (induction q x reg fuel e and q x reg fuel n fs e rule: loadFrames_load_children.induct)
  case (2 q x reg fuel e)
  let ?e1 = "skip_until is_start e"
  show ?case
  proof (cases "find_frame_gen (xml_name ?e1) reg")
    case None
    then show ?thesis by simp
  next
    case (Some g)
    show ?thesis
    proof (cases "node_load q x (src_node g) ?e1")
      case (Inl err)
      then show ?thesis using Some node_load_keeps(1) [of q x "src_node g" ?e1] by simp
    next
      case (Inr p)
      obtain n e2 where n: "node_load q x (src_node g) ?e1 = Inr (n, e2)" using Inr by (cases p) simp
      let ?e3 = "skip_until is_start (readNextStartElement e2)"
      have l3: "length ?e3 \<le> length e"
        using node_load_keeps(2) [OF n] length_skip_until [of is_start e]
          length_readNextStartElement [of e2]
          length_skip_until [of is_start "readNextStartElement e2"] by linarith
      show ?thesis
      proof (cases "xml_name ?e3 = ''Children''")
        case False
        then show ?thesis using Some n by simp
      next
        case True
        then have "?e3 \<noteq> []" "tokenType ?e3 \<noteq> Invalid_token"
          by (auto simp: xml_name_def tokenType_def split: list.splits)
        from readNextStartElement_shorter [OF this]
        have "length (readNextStartElement ?e3) < fuel" using l3 2(2) by linarith
        then show ?thesis using 2(1) [OF refl Some n] Some n True by (simp add: rbind_Inl_iff Let_def)
      qed
    qed
  qed
next
  case (4 q x reg fuel n fs e)
  have l: "length (skip_until is_start e) < fuel" using 4(3) length_skip_until le_less_trans by blast
  show ?case
  proof (cases "loadFrames q x reg fuel (skip_until is_start e)")
    case (Inl err)
    then show ?thesis using 4(1) l by auto
  next
    case (Inr p)
    obtain c e1 where c: "loadFrames q x reg fuel (skip_until is_start e) = Inr (c, e1)"
      using Inr by (cases p) simp
    have "length (readNextStartElement e1) < fuel"
      using load_shrinks(1) [OF c] l length_readNextStartElement [of e1] by linarith
    then show ?thesis
      using 4(2) [OF c refl] c addChild_no_fuel [of c "- 1" fs]
      by (auto simp: rbind_Inl_iff)
  qed
qed simp_all

end
