(* ===== verification/Engine.thy ===== *)
theory Engine
  imports Head Ilda_Loader Source_Files
begin

text \<open>
  \<open>engine.h\<close>, \<open>engine_impl.h\<close> and \<open>engine.cpp\<close> without the MIDI members: the engine owns the
  vector of frame sources and the eight laser heads, and runs at most one thread each to save,
  load and import a show.

  The threads are jobs in the record of the engine, and each pass of their loops is a step, so
  that other calls can come between. The mutexes are flags: \<open>tryLock\<close> fails when the flag is set.
  A thread works on the vector \<open>sources\<close> through the engine's own operations. A show file is the
  sequence of its XML tokens (\<open>Show_Xml\<close>).
\<close>

datatype indicator = Black | Red

datatype engine_signal =
    Sources_size_changed nat
  | Frame_source_changed nat
  | Set_indicator u32 indicator
  | Manual_trigger_signal
  | Head_selection_changed int
  | Output_effect_selected int
  | Show_saved
  | Show_loaded
  | Show_imported

text \<open>
  The jobs: a saving thread has its loop index and what it has written, a loading thread its
  reader, an importing thread the files not read yet and where the next one goes.
\<close>

type_synonym saver = "nat \<times> xml_token list"
type_synonym loader = xml_reader
type_synonym importer = "string list \<times> int"

record ('c, 'f, 'm, 'z) engine =
  en_show :: "('c, 'f, 'm) show_data"
  en_heads :: "('f, 'z) head list"
  en_selected :: int
  en_save_locked :: bool
  en_load_locked :: bool
  en_import_locked :: bool
  en_saver :: "saver option"
  en_loader :: "loader option"
  en_importer :: "importer option"

section \<open>Frame sources\<close>

text \<open>The position a source goes to: a negative one asks for the first empty slot.\<close>

definition slot_for :: "int \<Rightarrow> 'a option list \<Rightarrow> nat" where
  "slot_for pos srcs =
     (if pos < 0 then (case find_index Option.is_none srcs of Some i \<Rightarrow> i | None \<Rightarrow> length srcs)
      else nat pos)"

definition put_source :: "nat \<Rightarrow> 'a option \<Rightarrow> 'a option list \<Rightarrow> 'a option list" where
  "put_source pos fs srcs =
     (if length srcs \<le> pos then srcs @ replicate (pos + 1 - length srcs) None else srcs)[pos := fs]"

definition addFrameSource :: "nat option \<Rightarrow> int \<Rightarrow> ('c, 'f, 'm, 'z) engine \<Rightarrow>
    ('c, 'f, 'm, 'z) engine \<times> engine_signal list" where
  "addFrameSource fs pos e =
     (let srcs = sh_sources (en_show e);
          p = slot_for pos srcs;
          srcs1 = put_source p fs srcs
      in (e\<lparr>en_show := (en_show e)\<lparr>sh_sources := srcs1\<rparr>\<rparr>,
          (if length srcs \<le> p then [Sources_size_changed (length srcs1)] else []) @
          [Frame_source_changed p]))"

text \<open>A new frame source gets the next address.\<close>

definition new_source :: "('c, 'f, 'm) fsource \<Rightarrow> ('c, 'f, 'm, 'z) engine \<Rightarrow>
    nat \<times> ('c, 'f, 'm, 'z) engine" where
  "new_source s e =
     (length (sh_store (en_show e)),
      e\<lparr>en_show := (en_show e)\<lparr>sh_store := sh_store (en_show e) @ [s]\<rparr>\<rparr>)"

definition add_new_source :: "('c, 'f, 'm) fsource \<Rightarrow> int \<Rightarrow> ('c, 'f, 'm, 'z) engine \<Rightarrow>
    ('c, 'f, 'm, 'z) engine \<times> engine_signal list" where
  "add_new_source s pos e = (let (a, e1) = new_source s e in addFrameSource (Some a) pos e1)"

definition engine_source :: "nat \<Rightarrow> ('c, 'f, 'm, 'z) engine \<Rightarrow> nat option" where
  "engine_source pos e = getFrameSource_at pos (en_show e)"

definition getSourcesSize :: "('c, 'f, 'm, 'z) engine \<Rightarrow> nat" where
  "getSourcesSize e = length (sh_sources (en_show e))"

definition engine_copy :: "('c, 'f, 'm) fsource registry \<Rightarrow> nat \<Rightarrow> nat \<Rightarrow> ('c, 'f, 'm, 'z) engine \<Rightarrow>
    (bool \<times> ('c, 'f, 'm, 'z) engine \<times> engine_signal list) res" where
  "engine_copy reg dest source e = (case engine_source source e of
     None \<Rightarrow> Inr (False, e, [])
   | Some a \<Rightarrow> rbind (clone reg (sh_store (en_show e) ! a)) (\<lambda>s.
       Inr (True, add_new_source s (int dest) e)))"

section \<open>Heads\<close>

definition getHead :: "int \<Rightarrow> ('c, 'f, 'm, 'z) engine \<Rightarrow> ('f, 'z) head option" where
  "getHead pos e = (if 0 \<le> pos \<and> pos < int MAX_HEADS \<and> nat pos < length (en_heads e)
     then Some (en_heads e ! nat pos) else None)"

definition setHead :: "int \<Rightarrow> ('f, 'z) head \<Rightarrow> ('c, 'f, 'm, 'z) engine \<Rightarrow> ('c, 'f, 'm, 'z) engine" where
  "setHead pos h e = e\<lparr>en_heads := (en_heads e)[nat pos := h]\<rparr>"

text \<open>\<open>startHead\<close>: the assertion reads the array before the range of \<open>pos\<close> is tested.\<close>

definition startHead :: "nat \<Rightarrow> bool list \<Rightarrow> (bool \<times> bool list) res" where
  "startHead pos running =
     rbind (vec_at running pos) (\<lambda>r. Inr (if r then (False, running) else (True, running[pos := True])))"

definition set_shutter :: "bool \<Rightarrow> ('f, 'z) head \<Rightarrow> ('f, 'z) head" where
  "set_shutter state h = (case hd_driver h of None \<Rightarrow> h
     | Some d \<Rightarrow> h\<lparr>hd_driver := Some (snd (driver_shutter state d))\<rparr>)"

definition engine_kill :: "('c, 'f, 'm, 'z) engine \<Rightarrow> ('c, 'f, 'm, 'z) engine" where
  "engine_kill e = e\<lparr>en_heads := map (\<lambda>h. set_shutter False
     (fst (kill h :: ('f, 'z) head \<times> ('c, 'm) head_signal list))) (en_heads e)\<rparr>"

definition engine_restart :: "('c, 'f, 'm, 'z) engine \<Rightarrow> ('c, 'f, 'm, 'z) engine" where
  "engine_restart e = e\<lparr>en_heads := map (\<lambda>h. set_shutter True (restart h)) (en_heads e)\<rparr>"

definition clicked :: "int \<Rightarrow> ('c, 'f, 'm, 'z) engine \<Rightarrow> ('c, 'f, 'm, 'z) engine" where
  "clicked pos e = (case getHead (en_selected e) e of None \<Rightarrow> e
     | Some h \<Rightarrow> (let p = word_of_int pos
                  in setHead (en_selected e) (head_select p (\<not> head_isSelected p h) h) e))"

definition deselect :: "int \<Rightarrow> ('c, 'f, 'm, 'z) engine \<Rightarrow> ('c, 'f, 'm, 'z) engine" where
  "deselect pos e = e\<lparr>en_heads := map (head_select (word_of_int pos) False) (en_heads e)\<rparr>"

definition selectOutputEffect :: "int \<Rightarrow> engine_signal list" where
  "selectOutputEffect effect = [Output_effect_selected effect]"

definition selectionChangedData :: "u32 \<Rightarrow> bool \<Rightarrow> engine_signal list" where
  "selectionChangedData pos active = [Set_indicator pos (if active then Red else Black)]"

definition manualNext :: "engine_signal list" where
  "manualNext = [Manual_trigger_signal]"

text \<open>\<open>selectHead\<close>: a negative number passes the test and then there is no such head.\<close>

definition selectHead :: "int \<Rightarrow> ('c, 'f, 'm, 'z) engine \<Rightarrow>
    (('c, 'f, 'm, 'z) engine \<times> engine_signal list) res" where
  "selectHead h e =
     (let (e1, sgs) = (if h < int MAX_HEADS then (e\<lparr>en_selected := h\<rparr>, [Head_selection_changed h])
                       else (e, []))
      in if getSourcesSize e1 = 0 then Inr (e1, sgs)
         else (case getHead (en_selected e1) e1 of None \<Rightarrow> Inl Undefined_behaviour
           | Some hd1 \<Rightarrow> Inr (e1, sgs @ concat (map (\<lambda>i.
               selectionChangedData (of_nat i) (head_isSelected (of_nat i) hd1))
               [0..<getSourcesSize e1]))))"

section \<open>Bringing the engine up\<close>

text \<open>\<open>enumerateHardware\<close> and \<open>connect (0)\<close> of a driver.\<close>

definition driver_connect_first :: "pa_env \<Rightarrow> nat \<Rightarrow> 'f driver \<Rightarrow> 'f driver" where
  "driver_connect_first env usecount d = (case d of
     Dummy_driver a \<Rightarrow> Dummy_driver (snd (dummy_connect 0 a))
   | Sound_driver b \<Rightarrow>
       Sound_driver (fst (snd (pa_connect env 0 (snd (pa_enumerateHardware env usecount b))))))"

definition bring_up_head :: "('c, 'f, 'z) zita \<Rightarrow> 'f driver registry \<Rightarrow> pa_env \<Rightarrow> nat \<Rightarrow>
    (nat \<Rightarrow> nat) \<Rightarrow> ('f, 'z) head res" where
  "bring_up_head z reg env usecount rnd =
     rbind (LaserHead z rnd) (\<lambda>h.
     rbind (setDriver z reg ''Dummy (ILDA)'' h) (\<lambda>(_, h1).
       case hd_driver h1 of None \<Rightarrow> Inl Undefined_behaviour
       | Some d \<Rightarrow> Inr (h1\<lparr>hd_driver := Some (driver_connect_first env usecount d)\<rparr>)))"

fun bring_up_heads :: "('c, 'f, 'z) zita \<Rightarrow> 'f driver registry \<Rightarrow> pa_env \<Rightarrow> nat \<Rightarrow>
    (nat \<Rightarrow> nat) list \<Rightarrow> ('f, 'z) head list res" where
  "bring_up_heads z reg env usecount [] = Inr []"
| "bring_up_heads z reg env usecount (rnd # rnds) =
     rbind (bring_up_head z reg env usecount rnd) (\<lambda>h.
     rbind (bring_up_heads z reg env usecount rnds) (\<lambda>hs. Inr (h # hs)))"

text \<open>\<open>rnds\<close> are the random numbers of the eight heads, \<open>rnd\<close> those of the frame sources.\<close>

definition Engine :: "('c, 'f, 'z) zita \<Rightarrow> 'f driver registry \<Rightarrow> pa_env \<Rightarrow> nat \<Rightarrow>
    (nat \<Rightarrow> nat \<Rightarrow> nat) \<Rightarrow> (nat \<Rightarrow> nat) \<Rightarrow> ('c, 'f, 'm, 'z) engine res" where
  "Engine z reg env usecount rnds rnd =
     rbind (bring_up_heads z reg env usecount (map rnds [0..<MAX_HEADS])) (\<lambda>hs.
       Inr \<lparr>en_show = \<lparr>sh_store = [], sh_sources = [], sh_rand = rnd\<rparr>, en_heads = hs, en_selected = 0,
            en_save_locked = False, en_load_locked = False, en_import_locked = False,
            en_saver = None, en_loader = None, en_importer = None\<rparr>)"

section \<open>Saving\<close>

text \<open>What \<open>ShowSaver::run\<close> writes first, for each source, and last. The date is the current one.\<close>

definition show_start :: "string \<Rightarrow> xml_token list" where
  "show_start date = [Start_document, Start_element ''Lucifer'' [(''Version'', ''1.1.0''), (''Date'', date)]]"

definition sequence_tokens :: "('c, 'f, 'm) qt \<Rightarrow> ('f, 'm) text_lib \<Rightarrow> nat \<Rightarrow> ('c, 'f, 'm) fsource \<Rightarrow>
    xml_token list" where
  "sequence_tokens q x i s = Start_element ''Sequence'' [(''Position'', dec_string i)] #
     saveFrames q x s @ [End_element ''Sequence'']"

definition show_end :: "xml_token list" where
  "show_end = [End_element ''Lucifer'', End_document]"

text \<open>
  \<open>saveShow\<close>: \<open>opened\<close> is the result of opening the file. The error path asks the compressor for
  its error text after deleting it.
\<close>

definition saveShow :: "bool \<Rightarrow> string \<Rightarrow> ('c, 'f, 'm, 'z) engine \<Rightarrow>
    (bool \<times> ('c, 'f, 'm, 'z) engine) res" where
  "saveShow opened date e =
     (if en_save_locked e then Inr (False, e)
      else if \<not> opened then Inl Undefined_behaviour
      else Inr (True, e\<lparr>en_save_locked := True, en_saver := Some (0, show_start date)\<rparr>))"

definition Saved :: "('c, 'f, 'm, 'z) engine \<Rightarrow> ('c, 'f, 'm, 'z) engine \<times> engine_signal list" where
  "Saved e = (e\<lparr>en_save_locked := False, en_saver := None\<rparr>, [Show_saved])"

text \<open>
  One pass of the loop of \<open>ShowSaver::run\<close>; when the loop ends the thread is finished and \<open>Saved\<close>
  runs. The second component is the document, once it is complete.
\<close>

definition saver_step :: "('c, 'f, 'm) qt \<Rightarrow> ('f, 'm) text_lib \<Rightarrow> ('c, 'f, 'm, 'z) engine \<Rightarrow>
    ('c, 'f, 'm, 'z) engine \<times> xml_token list option \<times> engine_signal list" where
  "saver_step q x e = (case en_saver e of None \<Rightarrow> (e, None, [])
     | Some (i, written) \<Rightarrow>
         if i < getSourcesSize e then
           (e\<lparr>en_saver := Some (Suc i, written @
                (case engine_source i e of None \<Rightarrow> []
                 | Some a \<Rightarrow> sequence_tokens q x i (sh_store (en_show e) ! a)))\<rparr>, None, [])
         else (let (e1, sgs) = Saved e in (e1, Some (written @ show_end), sgs)))"

section \<open>Loading\<close>

definition clear_sources :: "('c, 'f, 'm, 'z) engine \<Rightarrow> ('c, 'f, 'm, 'z) engine \<times> engine_signal list" where
  "clear_sources e =
     (e\<lparr>en_show := (en_show e)\<lparr>sh_sources := []\<rparr>\<rparr>,
      concat (map (\<lambda>i. if sh_sources (en_show e) ! i \<noteq> None then [Frame_source_changed i] else [])
        [0..<getSourcesSize e]))"

text \<open>
  The beginning of \<open>ShowLoader::run\<close>: it looks for the element of a show and checks the version; a
  reader without tokens stands for the end of the thread.
\<close>

definition find_show :: "xml_token list \<Rightarrow> xml_reader" where
  "find_show toks =
     (let r = skip_until (\<lambda>t. token_name t = ''Lucifer'') (No_token # toks)
      in if tokenType r \<noteq> Invalid_token \<and> xml_attr ''Version'' r = ''1.1.0'' then r else [])"

definition loadShow :: "bool \<Rightarrow> xml_token list \<Rightarrow> bool \<Rightarrow> ('c, 'f, 'm, 'z) engine \<Rightarrow>
    bool \<times> ('c, 'f, 'm, 'z) engine \<times> engine_signal list" where
  "loadShow opened contents clr e =
     (if en_load_locked e then (False, e, [])
      else if \<not> opened then (False, e, [])
      else (let (e1, sgs) = (if clr then clear_sources e else (e, []))
            in (True, e1\<lparr>en_load_locked := True, en_loader := Some (find_show contents)\<rparr>, sgs)))"

definition Loaded :: "('c, 'f, 'm, 'z) engine \<Rightarrow> ('c, 'f, 'm, 'z) engine \<times> engine_signal list" where
  "Loaded e = (e\<lparr>en_load_locked := False, en_loader := None\<rparr>, [Show_loaded])"

text \<open>
  What the loop does with a sequence: its position is an unsigned number that \<open>addFrameSource\<close> takes
  as a signed one. A sequence without an element fails the assertion.
\<close>

definition load_sequence :: "('c, 'f, 'm) qt \<Rightarrow> ('f, 'm) text_lib \<Rightarrow> ('c, 'f, 'm) fsource registry \<Rightarrow>
    xml_reader \<Rightarrow> ('c, 'f, 'm, 'z) engine \<Rightarrow> (('c, 'f, 'm, 'z) engine \<times> engine_signal list) res" where
  "load_sequence q x reg r e =
     (let index = x_toULong x (xml_attr ''Position'' r);
          r1 = readNextStartElement r
      in if tokenType r1 = Invalid_token then Inr (Loaded e)
         else if \<not> is_start (tokenType r1) then Inl Assertion_failed
         else rbind (loadFrames q x reg (Suc (length r1)) r1) (\<lambda>(fs, r2).
           case (case fs of None \<Rightarrow> addFrameSource None (sint index) e
                 | Some s \<Rightarrow> add_new_source s (sint index) e) of
             (e1, sgs) \<Rightarrow> Inr (e1\<lparr>en_loader := Some r2\<rparr>, sgs)))"

text \<open>One pass of the loop of \<open>ShowLoader::run\<close>, and \<open>Loaded\<close> when it ends.\<close>

definition loader_step :: "('c, 'f, 'm) qt \<Rightarrow> ('f, 'm) text_lib \<Rightarrow> ('c, 'f, 'm) fsource registry \<Rightarrow>
    ('c, 'f, 'm, 'z) engine \<Rightarrow> (('c, 'f, 'm, 'z) engine \<times> engine_signal list) res" where
  "loader_step q x reg e = (case en_loader e of None \<Rightarrow> Inr (e, [])
     | Some r \<Rightarrow>
         if at_end r \<or> is_end (tokenType r) \<and> xml_name r = ''Lucifer'' then Inr (Loaded e)
         else (let r1 = skip_until (\<lambda>t. is_start t \<or> token_name t = ''Sequence'') r
               in if is_start (tokenType r1) \<and> xml_name r1 = ''Sequence''
                  then load_sequence q x reg r1 e
                  else Inr (e\<lparr>en_loader := Some (readNextStartElement r1)\<rparr>, [])))"

section \<open>Importing\<close>

definition importShow :: "string list \<Rightarrow> int \<Rightarrow> ('c, 'f, 'm, 'z) engine \<Rightarrow>
    bool \<times> ('c, 'f, 'm, 'z) engine" where
  "importShow filenames index e =
     (if en_import_locked e then (False, e)
      else (True, e\<lparr>en_import_locked := True, en_importer := Some (filenames, index)\<rparr>))"

definition Imported :: "('c, 'f, 'm, 'z) engine \<Rightarrow> ('c, 'f, 'm, 'z) engine \<times> engine_signal list" where
  "Imported e = (e\<lparr>en_import_locked := False, en_importer := None\<rparr>, [Show_imported])"

text \<open>\<open>load\<close> is what the ILDA loader makes of a file, null when it cannot be read.\<close>

definition importer_step :: "(string \<Rightarrow> ('c, 'f, 'm) fsource option res) \<Rightarrow> ('c, 'f, 'm, 'z) engine \<Rightarrow>
    (('c, 'f, 'm, 'z) engine \<times> engine_signal list) res" where
  "importer_step load e = (case en_importer e of None \<Rightarrow> Inr (e, [])
     | Some ([], idx) \<Rightarrow> Inr (Imported e)
     | Some (name # names, idx) \<Rightarrow> rbind (load name) (\<lambda>fs. case fs of
         None \<Rightarrow> Inr (e\<lparr>en_importer := Some (names, idx)\<rparr>, [])
       | Some s \<Rightarrow> (case add_new_source s idx e of
           (e1, sgs) \<Rightarrow> Inr (e1\<lparr>en_importer := Some (names, - 1)\<rparr>, sgs))))"

definition ilda_import :: "nat \<Rightarrow> ('c, 'f, 'm) qt \<Rightarrow> 's data_stream \<Rightarrow> (string \<Rightarrow> 's option) \<Rightarrow>
    string \<Rightarrow> ('c, 'f, 'm) fsource option res" where
  "ilda_import fuel q ops disc name =
     rbind (load_ilda fuel q ops name False (disc name)) (\<lambda>(fs, err). Inr fs)"

section \<open>Drag and drop\<close>

text \<open>
  \<open>mime.h\<close> and \<open>mime.cpp\<close>: the data of a drag is a list of files, an object of this program, which
  holds the source itself and its text, or text from elsewhere. Text is the sequence of its tokens.
\<close>

datatype mime_data =
    Uri_list "string list"
  | Laser_object "nat option" "xml_token list"
  | Source_text "xml_token list"
  | Other_data

definition mime_types :: "string list" where
  "mime_types = [''text/x-FrameSource'']"

definition mime_setFrame :: "('c, 'f, 'm) qt \<Rightarrow> ('f, 'm) text_lib \<Rightarrow> nat option \<Rightarrow>
    ('c, 'f, 'm, 'z) engine \<Rightarrow> mime_data res" where
  "mime_setFrame q x sp e = (case sp of None \<Rightarrow> Inl Undefined_behaviour
     | Some a \<Rightarrow> Inr (Laser_object sp (toString q x (sh_store (en_show e) ! a))))"

definition mime_getSource :: "('c, 'f, 'm) qt \<Rightarrow> ('f, 'm) text_lib \<Rightarrow> ('c, 'f, 'm) fsource registry \<Rightarrow>
    mime_data \<Rightarrow> ('c, 'f, 'm, 'z) engine \<Rightarrow> ('c, 'f, 'm) fsource option res" where
  "mime_getSource q x reg data e = (case data of
     Laser_object None _ \<Rightarrow> Inl Undefined_behaviour
   | Laser_object (Some a) _ \<Rightarrow> rbind (clone reg (sh_store (en_show e) ! a)) (\<lambda>s. Inr (Some s))
   | Source_text toks \<Rightarrow> fromString q x reg toks
   | _ \<Rightarrow> Inr None)"

definition engine_mimeTypes :: "string list" where
  "engine_mimeTypes = mime_types @ [''text/uri-list'']"

definition mimeHandler :: "('c, 'f, 'm) qt \<Rightarrow> ('f, 'm) text_lib \<Rightarrow> ('c, 'f, 'm) fsource registry \<Rightarrow>
    mime_data \<Rightarrow> int \<Rightarrow> ('c, 'f, 'm, 'z) engine \<Rightarrow>
    (bool \<times> ('c, 'f, 'm, 'z) engine \<times> engine_signal list) res" where
  "mimeHandler q x reg data pos e = (case data of
     Uri_list urls \<Rightarrow> Inr (True, if urls \<noteq> [] then snd (importShow urls pos e) else e, [])
   | _ \<Rightarrow> rbind (mime_getSource q x reg data e) (\<lambda>p. case p of
       Some s \<Rightarrow> Inr (True, add_new_source s pos e)
     | None \<Rightarrow> Inr (False, e, [])))"

text \<open>\<open>mimeData\<close> follows the pointer of the slot to write its text.\<close>

definition mimeData :: "('c, 'f, 'm) qt \<Rightarrow> ('f, 'm) text_lib \<Rightarrow> int \<Rightarrow> ('c, 'f, 'm, 'z) engine \<Rightarrow>
    mime_data res" where
  "mimeData q x pos e = mime_setFrame q x (if pos < 0 then None else engine_source (nat pos) e) e"

end
