(* ===== verification/Source_Round_Trip.thy ===== *)
theory Source_Round_Trip
  imports Source_Files
begin

text \<open>
  The XML form of frame sources is read back as it was written: a lemma per class for its own data,
  \<open>node_round_trip\<close> for one element up to its children, \<open>tree_round_trip\<close> for whole trees, by induction
  on the tree. \<open>savable\<close> collects what a tree must keep to for that: numbers that \<open>toInt\<close> can read, floats
  that six digits determine, harmonics without a fraction.
\<close>

section \<open>What the conversions are relied on for\<close>

definition text_laws :: "('f, 'm) text_lib \<Rightarrow> bool" where
  "text_laws x \<longleftrightarrow>
     (\<forall>i. - 2147483648 \<le> i \<longrightarrow> i < 2147483648 \<longrightarrow> sint (x_toInt x (dec_int i)) = i) \<and>
     (\<forall>w. x_toUInt x (dec_string (unat w)) = w) \<and>
     (\<forall>w. x_toULong x (dec_string (unat w)) = w) \<and>
     (\<forall>b. x_fromBase64 x (x_toBase64 x b) = b) \<and>
     (\<forall>m m0. foldl (\<lambda>m' c. x_set x (fst c) (snd c) (x_elem x m (fst c) (snd c)) m') m0 geometry_cells = m)"

text \<open>A float that the six digits of its text determine.\<close>

definition shown :: "('f, 'm) text_lib \<Rightarrow> 'f \<Rightarrow> bool" where
  "shown x f \<longleftrightarrow> x_toFloat x (x_show x f) = f"

definition shown_integer :: "('c, 'f, 'm) qt \<Rightarrow> ('f, 'm) text_lib \<Rightarrow> 'f \<Rightarrow> bool" where
  "shown_integer q x f \<longleftrightarrow> f_rat q (of_int (sint (x_toInt x (x_show x f)))) = f"

definition colour_ok :: "('c, 'f, 'm) qt \<Rightarrow> 'c \<Rightarrow> bool" where
  "colour_ok q c \<longleftrightarrow> q_rgb q (q_red q c) (q_green q c) (q_blue q c) = c \<and>
     (\<forall>v \<in> {q_red q c, q_green q c, q_blue q c}. 0 \<le> v \<and> v < 256)"

definition node_savable :: "('c, 'f, 'm) qt \<Rightarrow> ('f, 'm) text_lib \<Rightarrow> ('c, 'f, 'm) node \<Rightarrow> bool" where
  "node_savable q x n = (case n of
     Static sf \<Rightarrow> shown x (sf_scale sf) \<and>
       list_all (\<lambda>c. shown x (x_elem x (sf_geometry sf) (fst c) (snd c))) geometry_cells \<and>
       sf_dewell sf < 2147483648 \<and> sf_repeats sf < 2147483648 \<and> length (sf_data sf) < 2147483648
   | Sequencer sq \<Rightarrow> sq_mode sq = seq_mode_of (seq_mode_number (sq_mode sq)) \<and>
       seq_mode_number (sq_mode sq) < 2147483648
   | Rotator ro \<Rightarrow> colour_ok q (pulse_colour ro) \<and> colour_ok q (override_colour ro) \<and>
       shown x (pulse_dutycycle ro) \<and> shown x (pulse_phase_advance ro) \<and>
       shown x (rotate_phase_advance ro) \<and>
       shown_integer q x (pulse_harmonic ro) \<and> shown_integer q x (rotate_harmonic ro))"

fun savable :: "('c, 'f, 'm) qt \<Rightarrow> ('f, 'm) text_lib \<Rightarrow> ('c, 'f, 'm) fsource \<Rightarrow> bool" where
  "savable q x (Source n d cs) \<longleftrightarrow> node_savable q x n \<and> length cs < 2147483648 \<and>
     list_all (savable q x) cs"

text \<open>What comes back: a sequencer has its mode as the one to change to.\<close>

definition node_loaded :: "('c, 'f, 'm) node \<Rightarrow> ('c, 'f, 'm) node" where
  "node_loaded n = (case n of
     Sequencer sq \<Rightarrow> Sequencer (sq\<lparr>sq_mode := Sequential, sq_newMode := sq_mode sq\<rparr>)
   | _ \<Rightarrow> n)"

fun as_loaded :: "('c, 'f, 'm) fsource \<Rightarrow> ('c, 'f, 'm) fsource" where
  "as_loaded (Source n d cs) = Source (node_loaded n) d (map as_loaded cs)"

section \<open>Attributes\<close>

lemma xml_attr_start:
  "xml_attr a (Start_element nm as # r) = (case map_of as a of None \<Rightarrow> [] | Some v \<Rightarrow> v)"
  by (simp add: xml_attr_def)

lemma dec_int_nat: "dec_int (int n) = dec_string n"
  by (simp add: dec_int_def)

lemma toInt_dec_string:
  "text_laws x \<Longrightarrow> n < 2147483648 \<Longrightarrow> sint (x_toInt x (dec_string n)) = int n"
  unfolding text_laws_def dec_int_nat [symmetric] by (auto simp del: dec_int_nat)

lemma toInt_word:
  assumes "text_laws x" "w < 2147483648"
  shows "x_toInt x (dec_string (unat w)) = w"
proof -
  have "unat w < 2147483648" using assms(2) by (simp add: word_less_nat_alt)
  then have "sint (x_toInt x (dec_string (unat w))) = int (unat w)"
    using toInt_dec_string [OF assms(1)] by blast
  also have "int (unat w) = sint w" using sint_u32_small [of w] assms(2) by simp
  finally show ?thesis by (rule signed_word_eqI)
qed

lemma digit_char_inj: "a < 10 \<Longrightarrow> b < 10 \<Longrightarrow> digit_char a = digit_char b \<longleftrightarrow> a = b"
  using of_char_digit by (metis add_left_cancel)

lemma dec_string_digit: "n < 10 \<Longrightarrow> dec_string n = [digit_char n]"
  by (subst dec_string.simps) simp

lemma geometry_name_inj: "inj_on geometry_name (set geometry_cells)"
  by (auto simp: inj_on_def geometry_name_def geometry_cells_def dec_string_digit digit_char_inj)

lemma map_of_map_inj:
  "inj_on g (set cs) \<Longrightarrow> c \<in> set cs \<Longrightarrow> map_of (map (\<lambda>c. (g c, h c)) cs) (g c) = Some (h c)"
  by (induction cs) (auto simp: inj_on_def)

section \<open>The ten bytes of a point\<close>

lemma ntohs_htons: "or (push_bit 8 (ucast (ucast (drop_bit 8 v) :: u8))) (ucast (ucast v :: u8)) = (v :: u16)"
  by (rule bit_eqI) (auto simp: bit_simps)

lemma length_point_bytes [simp]: "length (point_bytes p) = 10"
  by (simp add: point_bytes_def htons_bytes_def)

lemma point_at_bytes: "point_at (point_bytes p @ b) 0 = p"
  by (cases p) (simp add: point_at_def point_bytes_def ntohs_at_def htons_bytes_def nth_Cons'
      ntohs_htons [simplified])

lemma point_at_later: "point_at (point_bytes p @ b) (10 + a) = point_at b a"
  by (simp add: point_at_def ntohs_at_def nth_append add.commute [of a] numeral_3_eq_3)

lemma length_points: "length (concat (map point_bytes ps)) = 10 * length ps"
  by (induction ps) simp_all

lemma points_round_trip:
  "map (\<lambda>i. point_at (concat (map point_bytes ps)) (10 * i)) [0..<length ps] = ps"
proof (induction ps)
  case (Cons p ps)
  have "map (\<lambda>i. point_at (point_bytes p @ b) (10 * i)) [0..<Suc n] =
      p # map (\<lambda>i. point_at b (10 * i)) [0..<n]" for b n
    by (simp add: map_upt_Suc point_at_bytes point_at_later del: upt_Suc)
  then show ?case using Cons by simp
qed simp

section \<open>One node\<close>

lemma node_loaded_simps [simp]:
  "node_loaded (Static sf) = Static sf" "node_loaded (Rotator ro) = Rotator ro"
  "node_loaded (Sequencer sq) = Sequencer (sq\<lparr>sq_mode := Sequential, sq_newMode := sq_mode sq\<rparr>)"
  by (simp_all add: node_loaded_def)

lemma text_here: "xml_text (text_tokens s @ End_element n # r) = s"
  by (simp add: text_tokens_def xml_text_def)

lemma geometry_name_new:
  "geometry_name c \<notin> {''Description'', ''Points'', ''Use_Dewell'', ''Dewell'', ''Repeats'', ''Scale''}"
  by (simp add: geometry_name_def)

lemma geometry_attr:
  assumes "c \<in> set geometry_cells"
  shows "xml_attr (geometry_name c)
    (Start_element nm ((''Description'', d) # fst (static_save x sf)) # r) =
    x_show x (x_elem x (sf_geometry sf) (fst c) (snd c))"
  using map_of_map_inj [OF geometry_name_inj assms,
      of "\<lambda>c. x_show x (x_elem x (sf_geometry sf) (fst c) (snd c))"] geometry_name_new [of c]
  by (simp add: xml_attr_start static_save_def)

lemma static_attrs:
  "xml_attr ''Points'' (Start_element nm ((''Description'', d) # fst (static_save x sf)) # r) =
     dec_string (length (sf_data sf))"
  "xml_attr ''Use_Dewell'' (Start_element nm ((''Description'', d) # fst (static_save x sf)) # r) =
     (if sf_useDewell sf then ''True'' else ''False'')"
  "xml_attr ''Dewell'' (Start_element nm ((''Description'', d) # fst (static_save x sf)) # r) =
     dec_string (unat (sf_dewell sf))"
  "xml_attr ''Repeats'' (Start_element nm ((''Description'', d) # fst (static_save x sf)) # r) =
     dec_string (unat (sf_repeats sf))"
  "xml_attr ''Scale'' (Start_element nm ((''Description'', d) # fst (static_save x sf)) # r) =
     x_show x (sf_scale sf)"
  by (simp_all add: xml_attr_start static_save_def)

lemma static_round_trip:
  assumes x: "text_laws x" and s: "node_savable q x (Static sf)" and us: "spaces us"
    and nm: "nm \<noteq> ''PointList''"
  shows "static_load x sf0 (Start_element nm ((''Description'', d) # fst (static_save x sf)) # us @
      Start_element ''PointList'' [] #
      text_tokens (x_toBase64 x (concat (map point_bytes (sf_data sf)))) @
      End_element ''PointList'' # r) =
    Inr (sf, text_tokens (x_toBase64 x (concat (map point_bytes (sf_data sf)))) @
      End_element ''PointList'' # r)"
proof -
  let ?b = "concat (map point_bytes (sf_data sf))"
  let ?t = "text_tokens (x_toBase64 x ?b) @ End_element ''PointList'' # r"
  let ?e = "Start_element nm ((''Description'', d) # fst (static_save x sf)) # us @
      Start_element ''PointList'' [] # ?t"
  have k: "skip_until (\<lambda>t. token_name t = ''PointList'') ?e = Start_element ''PointList'' [] # ?t"
    using nm us by simp
  have g: "foldl (\<lambda>m c. x_set x (fst c) (snd c) (x_toFloat x (xml_attr (geometry_name c) ?e)) m)
      (sf_geometry sf0) geometry_cells = sf_geometry sf"
  proof -
    have "x_toFloat x (xml_attr (geometry_name c) ?e) = x_elem x (sf_geometry sf) (fst c) (snd c)"
      if "c \<in> set geometry_cells" for c
      using s that by (simp add: geometry_attr node_savable_def list_all_iff shown_def)
    then have "foldl (\<lambda>m c. x_set x (fst c) (snd c) (x_toFloat x (xml_attr (geometry_name c) ?e)) m)
      (sf_geometry sf0) geometry_cells =
      foldl (\<lambda>m c. x_set x (fst c) (snd c) (x_elem x (sf_geometry sf) (fst c) (snd c)) m)
      (sf_geometry sf0) geometry_cells" by (intro foldl_cong) simp_all
    then show ?thesis using x by (simp add: text_laws_def)
  qed
  have b: "map (\<lambda>i. point_at ?b (10 * i)) [0..<length ?b div 10] = sf_data sf"
    by (simp add: length_points points_round_trip)
  have p: "x_fromBase64 x (x_toBase64 x ?b) = ?b" using x by (simp add: text_laws_def)
  have r: "readNext (Start_element ''PointList'' [] # ?t) = ?t" by (simp add: readNext_def)
  have "\<not> sint (x_toInt x (xml_attr ''Points'' ?e)) < 0"
    using s by (simp add: static_attrs toInt_dec_string [OF x] node_savable_def)
  moreover have "x_toInt x (xml_attr ''Dewell'' ?e) = sf_dewell sf"
    "x_toInt x (xml_attr ''Repeats'' ?e) = sf_repeats sf"
    "x_toFloat x (xml_attr ''Scale'' ?e) = sf_scale sf"
    "(xml_attr ''Use_Dewell'' ?e = ''True'') = sf_useDewell sf"
    using s by (simp_all add: static_attrs toInt_word [OF x] node_savable_def shown_def)
  ultimately show ?thesis
    unfolding static_load_def Let_def k g r text_here p b by (simp add: xml_name_def)
qed

lemma sequencer_round_trip:
  assumes x: "text_laws x" and s: "node_savable q x (Sequencer sq)"
  shows "sequencer_load x sq0
      (Start_element nm ((''Description'', d) # sequencer_save sq) # r) =
    sq0\<lparr>sq_repeats := sq_repeats sq, sq_newMode := sq_mode sq\<rparr>"
proof -
  let ?w = "seq_mode_number (sq_mode sq)"
  have w: "dec_int (sint ?w) = dec_string (unat ?w)"
    using s dec_int_nat [of "unat ?w"] sint_u32_small [of ?w] by (simp add: node_savable_def)
  have u: "x_toUInt x (dec_string (unat v)) = v" for v using x by (simp add: text_laws_def)
  show ?thesis using s
    by (simp add: sequencer_load_def sequencer_save_def xml_attr_start w u node_savable_def)
qed

lemma bool_text_value: "text_laws x \<Longrightarrow> (sint (x_toInt x (bool_text b)) \<noteq> 0) = b"
  using toInt_dec_string [of x 1] toInt_dec_string [of x 0] by (simp add: bool_text_def)

lemma rotator_round_trip:
  assumes x: "text_laws x" and s: "node_savable q x (Rotator ro)"
  shows "rotator_load q x ro0
      (Start_element nm ((''Description'', d) # rotator_save q x ro) # r) = ro"
proof -
  have i: "sint (x_toInt x (dec_int v)) = v" if "0 \<le> v" "v < 256" for v
    using x that by (simp add: text_laws_def)
  show ?thesis
    using s
    by (simp add: rotator_load_def rotator_save_def xml_attr_start bool_text_value [OF x] i
        node_savable_def shown_def shown_integer_def colour_ok_def Let_def)
qed

text \<open>
  A node is read back: after \<open>load\<close> the reader finds the element of the children next. The element
  starts a document segment \<open>vs\<close>, and \<open>ws\<close> is what was written after the element's own data.
\<close>

lemma node_round_trip:
  assumes x: "text_laws x" and s: "node_savable q x n"
    and vs: "reads_as (Start_element (getName (Source n d cs)) ((''Description'', d) # fst (node_save q x n)) #
      snd (node_save q x n) @ Start_element ''Children'' as # ws) vs"
  obtains us vs1 e2 vs3 where "vs = us @ vs1" "spaces us"
    "vs1 \<noteq> []" "hd vs1 = Start_element (getName (Source n d cs)) ((''Description'', d) # fst (node_save q x n))"
    "node_load q x (src_node (fresh_like q (Source n d cs))) (vs1 @ rest) = Inr (node_loaded n, e2)"
    "skip_until is_start (readNextStartElement e2) = Start_element ''Children'' as # vs3 @ rest"
    "length vs3 < length vs" "reads_as ws vs3"
proof -
  let ?nm = "getName (Source n d cs)" and ?as = "(''Description'', d) # fst (node_save q x n)"
  obtain us vs2 where 1: "vs = us @ Start_element ?nm ?as # vs2" "spaces us"
    "reads_as (snd (node_save q x n) @ Start_element ''Children'' as # ws) vs2"
    using vs by (auto elim: reads_as_tag)
  show ?thesis
  proof (cases n)
    case (Static sf)
    let ?s = "x_toBase64 x (concat (map point_bytes (sf_data sf)))"
    have "reads_as (Start_element ''PointList'' [] # Characters ?s # End_element ''PointList'' #
        Start_element ''Children'' as # ws) vs2"
      using 1(3) by (simp add: Static node_save_def static_save_def)
    then obtain us1 vs3 where 2: "vs2 = us1 @ Start_element ''PointList'' [] # vs3" "spaces us1"
      "reads_as (Characters ?s # End_element ''PointList'' # Start_element ''Children'' as # ws) vs3"
      by (auto elim: reads_as_tag)
    then obtain vs4 where 3: "vs3 = text_tokens ?s @ End_element ''PointList'' # vs4"
      "reads_as (Start_element ''Children'' as # ws) vs4" by (auto elim: reads_as_text)
    then obtain us2 vs5 where 4: "vs4 = us2 @ Start_element ''Children'' as # vs5" "spaces us2"
      "reads_as ws vs5" by (auto elim: reads_as_tag)
    have "?nm \<noteq> ''PointList''" by (simp add: getName_def Static)
    have "node_load q x (Static sf0) (Start_element ?nm ?as # vs2 @ rest) =
        Inr (node_loaded n, text_tokens ?s @ End_element ''PointList'' # vs4 @ rest)" for sf0
      using static_round_trip [OF x _ 2(2) \<open>?nm \<noteq> ''PointList''\<close>, of q sf sf0 d "vs4 @ rest"] s
      by (simp add: node_load_def Static node_save_def 2(1) 3(1))
    moreover have "skip_until is_start (readNextStartElement
        (text_tokens ?s @ End_element ''PointList'' # vs4 @ rest)) =
        Start_element ''Children'' as # vs5 @ rest"
      using 4(2) by (simp add: text_tokens_def 4(1))
    ultimately show ?thesis
      using 1 2(1) 3(1) 4 by (intro that [of us "Start_element ?nm ?as # vs2"])
        (simp_all add: fresh_like_def Static StaticFrame_def)
  next
    case (Sequencer sq)
    then obtain us2 vs5 where 4: "vs2 = us2 @ Start_element ''Children'' as # vs5" "spaces us2"
      "reads_as ws vs5" using 1(3) by (auto simp: node_save_def elim: reads_as_tag)
    show ?thesis
      using 1 4 s sequencer_round_trip [OF x, of q sq _ ?nm d]
      by (intro that [of us "Start_element ?nm ?as # vs2" "Start_element ?nm ?as # vs2 @ rest" vs5])
        (simp_all add: fresh_like_def Sequencer FrameSequencer_def node_load_def node_save_def)
  next
    case (Rotator ro)
    then obtain us2 vs5 where 4: "vs2 = us2 @ Start_element ''Children'' as # vs5" "spaces us2"
      "reads_as ws vs5" using 1(3) by (auto simp: node_save_def elim: reads_as_tag)
    show ?thesis
      using 1 4 s rotator_round_trip [OF x, of q ro _ ?nm d]
      by (intro that [of us "Start_element ?nm ?as # vs2" "Start_element ?nm ?as # vs2 @ rest" vs5])
        (simp_all add: fresh_like_def Rotator ColourRotator_def node_load_def node_save_def)
  qed
qed

section \<open>Trees\<close>

text \<open>The tokens that are left of a tree when \<open>loadFrames\<close> returns: the ends of its elements.\<close>

definition class_tags :: "string set" where
  "class_tags = {''Children'', ''Static_frame'', ''Frame_sequence'', ''Colour_rotator''}"

definition trailing :: "xml_token list \<Rightarrow> bool" where
  "trailing us \<longleftrightarrow> (\<forall>u \<in> set us. (\<exists>sp. u = Characters sp) \<or> (\<exists>nm \<in> class_tags. u = End_element nm))"

definition closing :: "nat \<Rightarrow> xml_token list \<Rightarrow> bool" where
  "closing k us \<longleftrightarrow> trailing us \<and> us \<noteq> [] \<and> is_end (hd us) \<and> k \<le> length (filter is_end us)"

lemma trailing_simps [simp]:
  "trailing []" "trailing (Characters sp # us) = trailing us"
  "trailing (End_element nm # us) = (nm \<in> class_tags \<and> trailing us)"
  "trailing (us @ vs) = (trailing us \<and> trailing vs)"
  by (auto simp: trailing_def)

lemma spaces_trailing: "spaces us \<Longrightarrow> trailing us"
  by (auto simp: spaces_def trailing_def)

lemma getName_class_tag [simp]: "getName s \<in> class_tags"
  by (simp add: getName_def class_tags_def split: node.splits)

lemma Children_class_tag [simp]: "''Children'' \<in> class_tags"
  by (simp add: class_tags_def)

lemma trailing_Cons:
  "trailing (u # us) \<longleftrightarrow> (is_end u \<and> token_name u \<in> class_tags \<or> (\<exists>sp. u = Characters sp)) \<and> trailing us"
  by (cases u) (auto simp: trailing_def)

lemma skip_trailing: "trailing us \<Longrightarrow> skip_until is_start (us @ r) = skip_until is_start r"
  by (induction us) (auto simp: trailing_def)

lemma next_tag_trailing:
  "trailing us \<Longrightarrow> 0 < length (filter is_end us) \<Longrightarrow>
   \<exists>us'. next_tag (us @ r) = us' @ r \<and> closing (length (filter is_end us)) us'"
proof (induction us)
  case (Cons u us)
  then consider nm where "u = End_element nm" | sp where "u = Characters sp"
    by (auto simp: trailing_def)
  then show ?case
  proof cases
    case 1
    then show ?thesis using Cons.prems by (intro exI [of _ "u # us"]) (simp add: closing_def)
  next
    case 2
    then show ?thesis using Cons by (simp add: trailing_Cons)
  qed
qed simp

lemma closing_next:
  assumes "closing (Suc k) us" "0 < k"
  shows "\<exists>us'. readNextStartElement (us @ r) = us' @ r \<and> closing k us'"
proof -
  obtain nm us1 where us: "us = End_element nm # us1"
    using assms(1) by (cases us; cases "hd us") (auto simp: closing_def)
  then have t: "trailing us1" "k \<le> length (filter is_end us1)" using assms(1) by (auto simp: closing_def)
  then have "0 < length (filter is_end us1)" using assms(2) by linarith
  then obtain us' where "next_tag (us1 @ r) = us' @ r" "closing (length (filter is_end us1)) us'"
    using next_tag_trailing [OF t(1)] by blast
  then show ?thesis using t(2) us by (intro exI [of _ us']) (simp add: closing_def)
qed

lemma loadFrames_skip:
  "trailing us \<Longrightarrow> loadFrames q x reg fuel (skip_until is_start (us @ e)) = loadFrames q x reg fuel e"
  by (cases fuel) (simp_all add: skip_trailing)

lemma saveFrames_ends: "saveFrames q x s \<noteq> []" "is_tag (last (saveFrames q x s))"
  by (cases s, simp)+

lemma children_round_trip:
  assumes "\<forall>c \<in> set cs. \<forall>vs rest. reads_as (saveFrames q x c) vs \<longrightarrow> length (vs @ rest) < fuel \<longrightarrow>
      (\<exists>us. loadFrames q x reg fuel (vs @ rest) = Inr (Some (as_loaded c), us @ rest) \<and> closing 2 us)"
    and "reads_as (concat (map (saveFrames q x) cs) @ ws) vs" and "cs \<noteq> []" and "trailing us"
    and "numPossibleChildren (Source n d cs0) = MANY \<or>
      numPossibleChildren (Source n d cs0) = ONE \<and> length cs0 + length cs \<le> 1"
    and "length (vs @ rest) < fuel"
  shows "\<exists>us' vs'. load_children q x reg fuel (length cs) (Source n d cs0) (us @ vs @ rest) =
      Inr (Source n d (cs0 @ map as_loaded cs), us' @ vs' @ rest) \<and> closing 1 us' \<and> reads_as ws vs'"
  using assms
proof (induction cs arbitrary: cs0 us vs)
  case (Cons c cs)
  obtain v1 v2 where v: "vs = v1 @ v2" "reads_as (saveFrames q x c) v1"
    "reads_as (concat (map (saveFrames q x) cs) @ ws) v2"
    using reads_as_append [of "saveFrames q x c" "concat (map (saveFrames q x) cs) @ ws" vs]
      Cons.prems(2) saveFrames_ends [of q x c] by auto
  have "length (v1 @ v2 @ rest) < fuel" using Cons.prems(6) v(1) by simp
  then obtain us1 where us1: "loadFrames q x reg fuel (v1 @ v2 @ rest) =
      Inr (Some (as_loaded c), us1 @ v2 @ rest)" "closing 2 us1"
    using Cons.prems(1) v(2) by fastforce
  obtain us2 where us2: "readNextStartElement (us1 @ v2 @ rest) = us2 @ v2 @ rest" "closing 1 us2"
    using closing_next [of 1 us1 "v2 @ rest"] us1(2) by (auto simp: numeral_2_eq_2)
  have a: "addChild (Some (as_loaded c)) (- 1) (Source n d cs0) =
      Inr (True, Source n d (cs0 @ [as_loaded c]))"
    using Cons.prems(5) by (intro addChild_append) auto
  have step: "load_children q x reg fuel (length (c # cs)) (Source n d cs0) (us @ vs @ rest) =
      load_children q x reg fuel (length cs) (Source n d (cs0 @ [as_loaded c])) (us2 @ v2 @ rest)"
    using us1(1) us2(1) a by (simp add: loadFrames_skip [OF Cons.prems(4)] v(1))
  show ?case
  proof (cases "cs = []")
    case True
    then show ?thesis using step us2(2) v(3) by auto
  next
    case False
    have "numPossibleChildren (Source n d (cs0 @ [as_loaded c])) = MANY"
      using Cons.prems(5) False by (cases cs) (auto simp: numPossibleChildren_def)
    moreover have "trailing us2" using us2(2) by (simp add: closing_def)
    moreover have "length (v2 @ rest) < fuel" using Cons.prems(6) v(1) by simp
    ultimately show ?thesis
      using Cons.IH [OF _ v(3) False, of us2 "cs0 @ [as_loaded c]"] Cons.prems(1) step by simp
  qed
qed simp

lemma tree_round_trip:
  fixes q :: "('c, 'f, 'm) qt"
  assumes x: "text_laws x" and reg: "initialised q reg"
  shows "savable q x s \<Longrightarrow> arity_ok s \<Longrightarrow> reads_as (saveFrames q x s) vs \<Longrightarrow> length (vs @ rest) < fuel \<Longrightarrow>
    \<exists>us. loadFrames q x reg fuel (vs @ rest) = Inr (Some (as_loaded s), us @ rest) \<and> closing 2 us"
proof (induction s arbitrary: vs rest fuel)
  case (Source n d cs)
  let ?s = "Source n d cs" and ?as = "(''Description'', d) # fst (node_save q x n)"
  let ?ch = "[(''Number'', dec_string (unat (numChildren ?s)))]"
  let ?close = "[End_element ''Children'', End_element (getName ?s)]"
  obtain f where f: "fuel = Suc f" using Source.prems(4) by (cases fuel) auto
  have ns: "node_savable q x n" using Source.prems(1) by simp
  have rd: "reads_as (Start_element (getName ?s) ?as # snd (node_save q x n) @
      Start_element ''Children'' ?ch # concat (map (saveFrames q x) cs) @ ?close) vs"
    using Source.prems(3) by simp
  obtain us vs1 e2 vs3 where v: "vs = us @ vs1" "spaces us" "vs1 \<noteq> []"
    "hd vs1 = Start_element (getName ?s) ?as"
    "node_load q x (src_node (fresh_like q ?s)) (vs1 @ rest) = Inr (node_loaded n, e2)"
    "skip_until is_start (readNextStartElement e2) = Start_element ''Children'' ?ch # vs3 @ rest"
    "length vs3 < length vs" "reads_as (concat (map (saveFrames q x) cs) @ ?close) vs3"
    by (rule node_round_trip [OF x ns rd, of rest])
  obtain vs1' where vs1: "vs1 = Start_element (getName ?s) ?as # vs1'"
    using v(3,4) by (cases vs1) auto
  have sk: "skip_until is_start (vs @ rest) = vs1 @ rest" using v(1,2) vs1 by simp
  have nm: "xml_name (vs1 @ rest) = getName ?s" "xml_attr ''Description'' (vs1 @ rest) = d"
    by (simp_all add: xml_name_def vs1 xml_attr_start)
  have fr: "src_children (fresh_like q ?s) = []"
    by (simp add: fresh_like_def StaticFrame_def FrameSequencer_def ColourRotator_def split: node.splits)
  have len: "length cs < 2147483648" using Source.prems(1) by simp
  have "unat (numChildren ?s) = length cs"
    using len by (simp add: numChildren_def unat_of_nat_below)
  then have nc: "nat (sint (x_toInt x (xml_attr ''Number'' (Start_element ''Children'' ?ch # vs3 @ rest)))) =
      length cs" using toInt_dec_string [OF x len] by (simp add: xml_attr_start)
  let ?fs = "Source (node_loaded n) d []"
  have xc: "xml_name (Start_element ''Children'' as # r) = ''Children''" for as r
    by (simp add: xml_name_def)
  have load: "loadFrames q x reg fuel (vs @ rest) =
      rbind (load_children q x reg f (length cs) ?fs (next_tag (vs3 @ rest)))
        (\<lambda>(fs', e4). Inr (Some fs', e4))"
    using nc by (simp add: f sk nm initialised_look [OF reg] v(5,6) fr xc Let_def)
  have lf: "length (vs3 @ rest) < f" using Source.prems(4) v(7) f by simp
  show ?case
  proof (cases "cs = []")
    case True
    obtain us1 vs4 where 1: "vs3 = us1 @ End_element ''Children'' # vs4" "spaces us1"
      "reads_as [End_element (getName ?s)] vs4" using v(8) True by (auto elim: reads_as_tag)
    then obtain us2 where 2: "vs4 = us2 @ [End_element (getName ?s)]" "spaces us2"
      by (auto elim: reads_as_tag)
    have "closing 2 (End_element ''Children'' # vs4)"
      using 2 spaces_trailing [OF 2(2)] by (simp add: closing_def)
    then show ?thesis using load 1 True
      by (intro exI [of _ "End_element ''Children'' # vs4"]) simp
  next
    case False
    then obtain c cs' where cs: "cs = c # cs'" by (cases cs) auto
    obtain cn ca cr where "saveFrames q x c = Start_element cn ca # cr" by (cases c) simp
    then have "reads_as (Start_element cn ca # cr @ concat (map (saveFrames q x) cs') @ ?close) vs3"
      using v(8) cs by simp
    then obtain us1 vs4 where 1: "vs3 = us1 @ Start_element cn ca # vs4" "spaces us1"
      "reads_as (cr @ concat (map (saveFrames q x) cs') @ ?close) vs4"
      by (auto elim: reads_as_tag)
    let ?v = "Start_element cn ca # vs4"
    have r: "reads_as (concat (map (saveFrames q x) cs) @ ?close) ?v"
      using reads_as.tag [OF _ 1(3), of "Start_element cn ca"] cs
        \<open>saveFrames q x c = Start_element cn ca # cr\<close> by simp
    have ih: "\<forall>c \<in> set cs. \<forall>vs rest. reads_as (saveFrames q x c) vs \<longrightarrow> length (vs @ rest) < f \<longrightarrow>
        (\<exists>us. loadFrames q x reg f (vs @ rest) = Inr (Some (as_loaded c), us @ rest) \<and> closing 2 us)"
      using Source.IH Source.prems(1,2) by (simp add: list_all_iff)
    have room: "numPossibleChildren ?fs = MANY \<or>
        numPossibleChildren ?fs = ONE \<and> length ([] :: ('c, 'f, 'm) fsource list) + length cs \<le> 1"
      using Source.prems(2) False
      by (cases n) (simp_all add: numPossibleChildren_def)
    have "length (?v @ rest) < f" using lf 1(1) by simp
    from children_round_trip [OF ih r False trailing_simps(1) room this]
    obtain us' vs' where c: "load_children q x reg f (length cs) ?fs (?v @ rest) =
        Inr (Source (node_loaded n) d (map as_loaded cs), us' @ vs' @ rest)" "closing 1 us'"
      "reads_as ?close vs'" by auto
    obtain s1 s2 where e: "vs' = s1 @ End_element ''Children'' # s2 @ [End_element (getName ?s)]"
      "spaces s1" "spaces s2" using c(3) by (auto elim!: reads_as_tag)
    have "closing 2 (us' @ vs')"
      using c(2) e spaces_trailing by (auto simp: closing_def)
    moreover have "next_tag (vs3 @ rest) = ?v @ rest" using 1 by simp
    ultimately show ?thesis using load c(1) by (intro exI [of _ "us' @ vs'"]) simp
  qed
qed

section \<open>Any text\<close>

lemma fromString_toString:
  assumes "text_laws x" and "initialised q reg" and "savable q x s" and "arity_ok s"
    and "reads_as (toString q x s) toks"
  shows "fromString q x reg toks = Inr (Some (as_loaded s))"
proof -
  obtain n d cs where s: "s = Source n d cs" by (cases s)
  obtain as cr where sf: "saveFrames q x s = Start_element (getName s) as # cr" by (simp add: s)
  obtain us vs where v: "toks = us @ Start_element (getName s) as # vs" "spaces us"
    "reads_as cr vs" using assms(5) sf by (auto simp: toString_def elim: reads_as_tag)
  let ?v = "Start_element (getName s) as # vs"
  have "reads_as (saveFrames q x s) ?v" unfolding sf by (rule reads_as.tag) (simp_all add: v(3))
  then obtain us' where "loadFrames q x reg (Suc (length ?v)) (?v @ []) =
      Inr (Some (as_loaded s), us' @ [])"
    using tree_round_trip [OF assms(1,2,3,4), of ?v "[]" "Suc (length ?v)"] by auto
  then show ?thesis using v(1,2) by (simp add: fromString_def Let_def del: loadFrames.simps)
qed

lemma images_as_loaded: "images q (as_loaded s) = images q s"
proof (induction s)
  case (Source n d cs)
  then show ?case by (cases n) (simp_all add: o_def cong: map_cong)
qed

lemma fromString_fuel: "fromString q x reg toks \<noteq> Inl Out_of_fuel"
  using load_fuel(1) [of "readNextStartElement (No_token # toks)"
      "Suc (length (readNextStartElement (No_token # toks)))" q x reg]
  by (auto simp: fromString_def Let_def rbind_Inl_iff)

section \<open>One instance of the conversions\<close>

text \<open>Numbers as fractions, bytes as characters, a matrix by the element that is its factor.\<close>

definition int_value :: "string \<Rightarrow> int option" where
  "int_value s = (case s of [] \<Rightarrow> None
     | c # cs \<Rightarrow> if c = CHR ''-'' then map_option (\<lambda>n. - int n) (dec_value cs)
                else map_option int (dec_value s))"

definition rat_text :: "rat \<Rightarrow> string" where
  "rat_text r = (case quotient_of r of (n, d) \<Rightarrow>
     if d = 1 then dec_int n else dec_int n @ ''/'' @ dec_int d)"

definition rat_value :: "string \<Rightarrow> rat" where
  "rat_value s = (case dropWhile (\<lambda>c. c \<noteq> CHR ''/'') s of
     [] \<Rightarrow> (case int_value s of None \<Rightarrow> 0 | Some n \<Rightarrow> of_int n)
   | _ # den \<Rightarrow> (case (int_value (takeWhile (\<lambda>c. c \<noteq> CHR ''/'') s), int_value den) of
       (Some n, Some d) \<Rightarrow> of_int n / of_int d | _ \<Rightarrow> 0))"

definition exact_text :: "(rat, rat) text_lib" where
  "exact_text = \<lparr>x_show = rat_text, x_toFloat = rat_value,
     x_toInt = (\<lambda>s. case int_value s of None \<Rightarrow> 0
       | Some n \<Rightarrow> if - 2147483648 \<le> n \<and> n < 2147483648 then word_of_int n else 0),
     x_toUInt = (\<lambda>s. case dec_value s of None \<Rightarrow> 0 | Some n \<Rightarrow> if n < 2 ^ 32 then of_nat n else 0),
     x_toULong = (\<lambda>s. case dec_value s of None \<Rightarrow> 0 | Some n \<Rightarrow> if n < 2 ^ 64 then of_nat n else 0),
     x_toBase64 = map (\<lambda>b. char_of (unat b)), x_fromBase64 = map (\<lambda>c. of_nat (of_char c)),
     x_elem = (\<lambda>m j i. if j = 0 \<and> i = 0 then m else 0),
     x_set = (\<lambda>j i f m. if j = 0 \<and> i = 0 then f else m)\<rparr>"

lemma int_value_dec_int: "int_value (dec_int i) = Some i"
proof (cases "i < 0")
  case True
  then show ?thesis by (simp add: int_value_def dec_int_def)
next
  case False
  obtain c cs where c: "dec_string (nat i) = c # cs" by (cases "dec_string (nat i)") simp_all
  then have "is_digit c" using dec_string_digits [of "nat i"] by simp
  then have "c \<noteq> CHR ''-''" by (auto simp: is_digit_def)
  then show ?thesis using False c dec_value_dec_string [of "nat i"]
    by (simp add: int_value_def dec_int_def)
qed

lemma dec_int_chars: "\<forall>c \<in> set (dec_int i). c \<noteq> CHR ''/''"
proof -
  have "c \<noteq> CHR ''/''" if "c \<in> set (dec_string n)" for c n
    using that dec_string_digits [of n] by (auto simp: list_all_iff is_digit_def)
  then show ?thesis by (auto simp: dec_int_def)
qed

lemma rat_value_text: "rat_value (rat_text r) = r"
proof -
  obtain n d where q: "quotient_of r = (n, d)" by (cases "quotient_of r")
  then have r: "r = of_int n / of_int d" by (rule quotient_of_div)
  have t: "dropWhile (\<lambda>c. c \<noteq> CHR ''/'') (dec_int n @ ys) = dropWhile (\<lambda>c. c \<noteq> CHR ''/'') ys"
    "takeWhile (\<lambda>c. c \<noteq> CHR ''/'') (dec_int n @ ys) = dec_int n @ takeWhile (\<lambda>c. c \<noteq> CHR ''/'') ys" for ys
    using dec_int_chars by (simp_all add: dropWhile_append2 takeWhile_append2)
  have "dropWhile (\<lambda>c. c \<noteq> CHR ''/'') (dec_int n) = []"
    using dec_int_chars by (simp add: dropWhile_eq_Nil_conv)
  then show ?thesis using t [of "''/'' @ dec_int d"] r q
    by (simp add: rat_text_def rat_value_def int_value_dec_int del: dropWhile_eq_Nil_conv)
qed

lemma rat_text_int: "rat_text (of_int i) = dec_int i"
  by (simp add: rat_text_def quotient_of_int)

lemma sint_word_of_int_32:
  assumes "- 2147483648 \<le> i" "i < 2147483648"
  shows "sint (word_of_int i :: u32) = i"
  by (subst sint_sbintrunc', rule signed_take_bit_int_eq_self) (use assms in simp_all)

lemma exact_text_laws: "text_laws exact_text"
proof -
  have b: "map (\<lambda>c. of_nat (of_char c)) (map (\<lambda>b. char_of (unat b)) bs) = (bs :: u8 list)" for bs
  proof -
    have "(of_char (char_of (unat b) :: char) :: nat) = unat b" for b :: u8
      using unsigned_less [of b, where 'a = nat] by (simp add: of_char_of)
    then show ?thesis by (simp add: o_def)
  qed
  have m: "foldl (\<lambda>m' c. if fst c = 0 \<and> snd c = 0 then (if fst c = 0 \<and> snd c = 0 then m else 0)
      else m') m0 geometry_cells = (m :: rat)" for m m0
    by (simp add: geometry_cells_def upt_rec)
  have w: "unat (v :: u32) < 2 ^ 32" "unat (u :: u64) < 2 ^ 64" for u v
    using unsigned_less [of v, where 'a = nat] unsigned_less [of u, where 'a = nat] by simp_all
  show ?thesis
    using b m w unfolding text_laws_def exact_text_def
    by (simp add: int_value_dec_int sint_word_of_int_32)
qed

section \<open>Properties\<close>


fun delivered :: "xml_token list \<Rightarrow> xml_token list" where
  "delivered (Characters s # t # ws) = text_tokens s @ t # delivered ws"
| "delivered (t # ws) = t # delivered ws"
| "delivered [] = []"

fun well_written :: "xml_token list \<Rightarrow> bool" where
  "well_written (Characters s # t # ws) = (is_tag t \<and> well_written ws)"
| "well_written (t # ws) = (is_tag t \<and> well_written ws)"
| "well_written [] = True"

lemma reads_as_delivered: "well_written ws \<Longrightarrow> reads_as ws (delivered ws)"
  by (induction ws rule: delivered.induct) (simp_all add: reads_as.tag reads_as.texts)

lemma well_written_tag: "is_tag t \<Longrightarrow> well_written (t # ws) = well_written ws"
  by (cases t) simp_all

lemma well_written_append: "well_written xs \<Longrightarrow> well_written ys \<Longrightarrow> well_written (xs @ ys)"
  by (induction xs rule: well_written.induct) (simp_all add: well_written_tag)

lemma well_written_concat: "\<forall>xs \<in> set xss. well_written xs \<Longrightarrow> well_written (concat xss)"
  by (induction xss) (simp_all add: well_written_append)

lemma well_written_saveFrames: "well_written (saveFrames q x s)"
proof (induction s)
  case (Source n d cs)
  have "well_written (snd (node_save q x n))"
    by (cases n) (simp_all add: node_save_def static_save_def)
  then show ?case using Source.IH by (simp add: well_written_append well_written_concat)
qed

lemma demo_tree_savable: "savable exact_qt exact_text demo_tree \<and> arity_ok demo_tree"
proof -
  have sh: "shown exact_text f" for f by (simp add: shown_def exact_text_def rat_value_text)
  have "shown_integer exact_qt exact_text (of_int i)" if "- 2147483648 \<le> i" "i < 2147483648" for i
    using that exact_text_laws by (simp add: shown_integer_def exact_text_def exact_qt_def
      rat_text_int int_value_dec_int sint_word_of_int_32)
  from this [of 5] this [of 0]
  have si: "shown_integer exact_qt exact_text 5" "shown_integer exact_qt exact_text 0" by simp_all
  have f: "savable exact_qt exact_text (demo_frame r)" if "r < 2147483648" for r
    using that sh by (simp add: demo_frame_def node_savable_def demo_sf_def list_all_iff)
  have co: "colour_ok exact_qt (255, 255, 0)" "colour_ok exact_qt (0, 255, 255)"
    by (simp_all add: colour_ok_def exact_qt_def)
  have "arity_ok demo_tree"
    by (simp add: demo_tree_def demo_frame_def FrameSequencer_def ColourRotator_def)
  moreover have "savable exact_qt exact_text demo_tree"
    using f sh si co
    by (simp add: demo_tree_def node_savable_def FrameSequencer_def ColourRotator_def
        seq_mode_of_def seq_mode_number_def exact_qt_def)
  ultimately show ?thesis by (rule conjI [rotated])
qed


text \<open>
  C14. A child of an unknown class stops the program: \<open>loadFrames\<close> gives a null pointer for it,
  and the assertion of \<open>addChild\<close> fails, in a sequencer or rotator with any settings and
  whatever follows in the document.
\<close>

theorem unknown_child_stops_the_program:
  assumes "mset gens = mset (frame_generators q)"
    and "register_all registerFrameGen gens None = Inr reg"
    and "parent \<in> {''Frame_sequence'', ''Colour_rotator''}"
    and "nm \<notin> {''Static_frame'', ''Frame_sequence'', ''Colour_rotator''}"
    and "0 < sint (x_toInt x number)"
  shows "fromString q x reg (Start_element parent as # Start_element ''Children'' [(''Number'', number)] #
    Start_element nm as' # rest) = Inl Assertion_failed"
proof -
  have i: "initialised q reg" using assms(1,2) by (auto simp: initialised_def)
  have unknown: "find_frame_gen nm reg = None"
    using assms(4) initialised_names [OF i] by (simp add: frame_generators_def)
  obtain p where p: "find_frame_gen parent reg = Some p" "src_children p = []"
    "src_node p = src_node FrameSequencer \<or> src_node p = src_node (ColourRotator q)"
    using assms(3) initialised_look [OF i, of FrameSequencer] initialised_look [OF i, of "ColourRotator q"]
    by (auto simp: getName_def fresh_like_def FrameSequencer_def ColourRotator_def)
  obtain k where k: "nat (sint (x_toInt x number)) = Suc k"
    using assms(5) by (cases "nat (sint (x_toInt x number))") auto
  let ?e = "Start_element parent as # Start_element ''Children'' [(''Number'', number)] #
    Start_element nm as' # rest"
  have n: "\<exists>n. node_load q x (src_node p) ?e = Inr (n, ?e)"
    using p(3) by (auto simp: node_load_def FrameSequencer_def ColourRotator_def)
  show ?thesis
    using n p(1,2) k unknown
    by (auto simp: fromString_def Let_def xml_name_def xml_attr_start addChild_def)
qed

theorem unknown_child_stops_the_program_witness:
  "\<exists>reg. register_all registerFrameGen (frame_generators exact_qt) None = Inr reg \<and>
     fromString exact_qt exact_text reg [Start_element ''Frame_sequence'' [],
       Start_element ''Children'' [(''Number'', dec_string 1)], Start_element ''Abstract'' []] =
     Inl Assertion_failed"
proof -
  obtain reg where r: "register_all registerFrameGen (frame_generators exact_qt) None = Inr reg"
    by (simp add: frame_generators_def registerFrameGen_def)
  have "0 < sint (x_toInt exact_text (dec_string 1))"
    using toInt_dec_string [OF exact_text_laws, of 1] by simp
  then show ?thesis
    using unknown_child_stops_the_program [OF refl r, of "''Frame_sequence''" "''Abstract''"] r by blast
qed

end
