(* ===== verification/Engine_Runs.thy ===== *)
theory Engine_Runs
  imports Engine Source_Round_Trip
begin

text \<open>
  Everything that can happen to the engine and its heads as events, and what holds in every run:
  the mutexes are held exactly while their thread runs, no slot of the vector and no playback of a
  head refers to a frame source that does not exist, and after an emergency stop no head puts out
  a point until a restart.
\<close>

section \<open>Events\<close>

datatype ('c, 'f, 'm) engine_event =
    Head_event nat "('c, 'f, 'm) head_event"
  | Kill_event
  | Restart_event
  | Clicked int
  | Deselected int
  | Head_chosen int
  | Source_added "('c, 'f, 'm) fsource" int
  | Source_copied nat nat
  | Dropped mime_data int
  | Save_show bool string
  | Saver_event
  | Load_show bool "xml_token list" bool
  | Loader_event
  | Import_show "string list" int
  | Importer_event

text \<open>
  What surrounds the engine: Qt's arithmetic and text conversions, the resampling filter, the registry of frame source
  classes and the disc that imports read.
\<close>

record ('c, 'f, 'm, 'z) surroundings =
  su_qt :: "('c, 'f, 'm) qt"
  su_text :: "('f, 'm) text_lib"
  su_zita :: "('c, 'f, 'z) zita"
  su_classes :: "('c, 'f, 'm) fsource registry"
  su_load :: "string \<Rightarrow> ('c, 'f, 'm) fsource option res"

text \<open>
  A head works on the engine's frame sources, which only the other events change otherwise. The
  result has the points the driver of the head has taken.
\<close>

definition head_in_engine :: "('c, 'f, 'm, 'z) surroundings \<Rightarrow> nat \<Rightarrow> ('c, 'f, 'm) head_event \<Rightarrow>
    ('c, 'f, 'm, 'z) engine \<Rightarrow> (('c, 'f, 'm, 'z) engine \<times> 'f pointf list) res" where
  "head_in_engine su i ev e = (case ev of
     Show_event _ \<Rightarrow> Inr (e, [])
   | _ \<Rightarrow> (if i < length (en_heads e) then
       rbind (head_do (su_qt su) (su_zita su) ev (en_heads e ! i, en_show e)) (\<lambda>((h, sh), sgs, taken).
         Inr (e\<lparr>en_heads := (en_heads e)[i := h], en_show := sh\<rparr>, taken))
      else Inr (e, [])))"

fun engine_do :: "('c, 'f, 'm, 'z) surroundings \<Rightarrow> ('c, 'f, 'm) engine_event \<Rightarrow>
    ('c, 'f, 'm, 'z) engine \<Rightarrow> (('c, 'f, 'm, 'z) engine \<times> 'f pointf list) res" where
  "engine_do su (Head_event i ev) e = head_in_engine su i ev e"
| "engine_do su Kill_event e = Inr (engine_kill e, [])"
| "engine_do su Restart_event e = Inr (engine_restart e, [])"
| "engine_do su (Clicked pos) e = Inr (clicked pos e, [])"
| "engine_do su (Deselected pos) e = Inr (deselect pos e, [])"
| "engine_do su (Head_chosen h) e = rbind (selectHead h e) (\<lambda>(e1, _). Inr (e1, []))"
| "engine_do su (Source_added s pos) e = Inr (fst (add_new_source s pos e), [])"
| "engine_do su (Source_copied dest source) e =
     rbind (engine_copy (su_classes su) dest source e) (\<lambda>(_, e1, _). Inr (e1, []))"
| "engine_do su (Dropped data pos) e =
     rbind (mimeHandler (su_qt su) (su_text su) (su_classes su) data pos e) (\<lambda>(_, e1, _). Inr (e1, []))"
| "engine_do su (Save_show opened date) e = rbind (saveShow opened date e) (\<lambda>(_, e1). Inr (e1, []))"
| "engine_do su Saver_event e = Inr (fst (saver_step (su_qt su) (su_text su) e), [])"
| "engine_do su (Load_show opened contents clr) e =
     Inr (fst (snd (loadShow opened contents clr e)), [])"
| "engine_do su Loader_event e =
     rbind (loader_step (su_qt su) (su_text su) (su_classes su) e) (\<lambda>(e1, _). Inr (e1, []))"
| "engine_do su (Import_show names idx) e = Inr (snd (importShow names idx e), [])"
| "engine_do su Importer_event e = rbind (importer_step (su_load su) e) (\<lambda>(e1, _). Inr (e1, []))"

inductive engine_run :: "('c, 'f, 'm, 'z) surroundings \<Rightarrow> ('c, 'f, 'm) engine_event list \<Rightarrow>
    ('c, 'f, 'm, 'z) engine \<Rightarrow> 'f pointf list \<Rightarrow> ('c, 'f, 'm, 'z) engine \<Rightarrow> bool" for su where
  stop: "engine_run su [] e [] e"
| go: "engine_do su ev e = Inr (e1, out) \<Longrightarrow> engine_run su evs e1 out' e2 \<Longrightarrow>
    engine_run su (ev # evs) e (out @ out') e2"

inductive_cases engine_run_NilE [elim!]: "engine_run su [] e out e'"
inductive_cases engine_run_ConsE [elim!]: "engine_run su (ev # evs) e out e'"

section \<open>The operations on the record\<close>

lemma addFrameSource_simps [simp]:
  "en_heads (fst (addFrameSource fs pos e)) = en_heads e"
  "en_selected (fst (addFrameSource fs pos e)) = en_selected e"
  "en_saver (fst (addFrameSource fs pos e)) = en_saver e"
  "en_loader (fst (addFrameSource fs pos e)) = en_loader e"
  "en_importer (fst (addFrameSource fs pos e)) = en_importer e"
  "en_save_locked (fst (addFrameSource fs pos e)) = en_save_locked e"
  "en_load_locked (fst (addFrameSource fs pos e)) = en_load_locked e"
  "en_import_locked (fst (addFrameSource fs pos e)) = en_import_locked e"
  "sh_store (en_show (fst (addFrameSource fs pos e))) = sh_store (en_show e)"
  "sh_sources (en_show (fst (addFrameSource fs pos e))) =
     put_source (slot_for pos (sh_sources (en_show e))) fs (sh_sources (en_show e))"
  by (simp_all add: addFrameSource_def Let_def)

lemma add_new_source_simps [simp]:
  "en_heads (fst (add_new_source s pos e)) = en_heads e"
  "en_selected (fst (add_new_source s pos e)) = en_selected e"
  "en_saver (fst (add_new_source s pos e)) = en_saver e"
  "en_loader (fst (add_new_source s pos e)) = en_loader e"
  "en_importer (fst (add_new_source s pos e)) = en_importer e"
  "en_save_locked (fst (add_new_source s pos e)) = en_save_locked e"
  "en_load_locked (fst (add_new_source s pos e)) = en_load_locked e"
  "en_import_locked (fst (add_new_source s pos e)) = en_import_locked e"
  "sh_store (en_show (fst (add_new_source s pos e))) = sh_store (en_show e) @ [s]"
  "sh_sources (en_show (fst (add_new_source s pos e))) = put_source
     (slot_for pos (sh_sources (en_show e))) (Some (length (sh_store (en_show e)))) (sh_sources (en_show e))"
  by (simp_all add: add_new_source_def new_source_def)

text \<open>The events that neither touch a head nor restart the output change the heads in no way.\<close>

lemma dark_head_select [simp]: "dark (head_select pos active h) = dark h"
  by (simp add: head_select_def split: prod.splits)

lemma dark_set_shutter [simp]: "dark (set_shutter state h) = dark h"
  by (simp add: set_shutter_def split: option.splits)

definition all_dark :: "('c, 'f, 'm, 'z) engine \<Rightarrow> bool" where
  "all_dark e \<longleftrightarrow> (\<forall>h \<in> set (en_heads e). dark h)"

definition restarts :: "('c, 'f, 'm) engine_event \<Rightarrow> bool" where
  "restarts ev = (case ev of Restart_event \<Rightarrow> True | Head_event i Restart_head \<Rightarrow> True | _ \<Rightarrow> False)"

lemma engine_kill_all_dark: "all_dark (engine_kill e)"
  by (auto simp: all_dark_def engine_kill_def intro: kill_dark [OF prod.collapse [symmetric]])

lemma all_dark_heads: "all_dark e \<Longrightarrow> en_heads e' = en_heads e \<Longrightarrow> all_dark e'"
  by (simp add: all_dark_def)

lemma all_dark_update: "all_dark e \<Longrightarrow> dark h \<Longrightarrow> all_dark (e\<lparr>en_heads := (en_heads e)[i := h]\<rparr>)"
  by (auto simp: all_dark_def dest: set_update_subset_insert [THEN subsetD])

lemma head_in_engineE:
  assumes "head_in_engine su i ev e = Inr (e', out)"
  obtains (none) "e' = e" "out = []"
  | (some) h sh sgs where "i < length (en_heads e)" "\<And>sh. ev \<noteq> Show_event sh"
      "head_do (su_qt su) (su_zita su) ev (en_heads e ! i, en_show e) = Inr ((h, sh), sgs, out)"
      "e' = e\<lparr>en_heads := (en_heads e)[i := h], en_show := sh\<rparr>"
proof (cases "(\<exists>sh. ev = Show_event sh) \<or> \<not> i < length (en_heads e)")
  case True
  then show ?thesis using assms none by (auto simp: head_in_engine_def split: head_event.splits)
next
  case False
  then have "head_in_engine su i ev e =
      rbind (head_do (su_qt su) (su_zita su) ev (en_heads e ! i, en_show e)) (\<lambda>((h, sh), sgs, taken).
         Inr (e\<lparr>en_heads := (en_heads e)[i := h], en_show := sh\<rparr>, taken))"
    by (cases ev) (auto simp: head_in_engine_def)
  then have "rbind (head_do (su_qt su) (su_zita su) ev (en_heads e ! i, en_show e)) (\<lambda>((h, sh), sgs, taken).
         Inr (e\<lparr>en_heads := (en_heads e)[i := h], en_show := sh\<rparr>, taken)) = Inr (e', out)"
    using assms by (rule subst)
  then show ?thesis using some False by (auto simp: rbind_Inr_iff)
qed

lemma head_in_engine_dark:
  assumes "all_dark e" and "ev \<noteq> Restart_head" and "head_in_engine su i ev e = Inr (e', out)"
  shows "all_dark e' \<and> out = []"
  using assms(3)
proof (cases rule: head_in_engineE)
  case (some h sh sgs)
  then have d: "dark (en_heads e ! i)" using assms(1) by (auto simp: all_dark_def)
  have "dark h \<and> out = []" by (rule head_do_dark [OF d assms(2) some(3)])
  then show ?thesis using all_dark_update [OF assms(1), of h i]
    by (auto simp: some(4) elim: all_dark_heads)
qed (use assms(1) in simp)

lemma clicked_dark: "all_dark e \<Longrightarrow> all_dark (clicked pos e)"
  by (auto simp: clicked_def getHead_def setHead_def Let_def all_dark_def split: option.splits if_splits
      dest: set_update_subset_insert [THEN subsetD])

lemma deselect_dark: "all_dark e \<Longrightarrow> all_dark (deselect pos e)"
  by (auto simp: deselect_def all_dark_def)

text \<open>The events that touch no head.\<close>

lemma add_new_source_heads: "add_new_source s pos e = (e1, sgs) \<Longrightarrow> en_heads e1 = en_heads e"
  using add_new_source_simps(1) [of s pos e] by simp

lemma loader_stepE:
  assumes "loader_step q x reg e = Inr (e1, sgs)"
  obtains (same) "e1 = e"
  | (finished) "e1 = fst (Loaded e)" "en_loader e \<noteq> None"
  | (moved) r where "e1 = e\<lparr>en_loader := Some r\<rparr>" "en_loader e \<noteq> None"
  | (added) s pos r where "e1 = (fst (add_new_source s pos e))\<lparr>en_loader := Some r\<rparr>" "en_loader e \<noteq> None"
  | (null) pos r where "e1 = (fst (addFrameSource None pos e))\<lparr>en_loader := Some r\<rparr>" "en_loader e \<noteq> None"
proof (cases "en_loader e")
  case None
  then show ?thesis using assms same by (simp add: loader_step_def)
next
  case (Some r)
  let ?r1 = "skip_until (\<lambda>t. is_start t \<or> token_name t = ''Sequence'') r"
  consider "Loaded e = (e1, sgs)" | "e1 = e\<lparr>en_loader := Some (readNextStartElement ?r1)\<rparr>"
    | "load_sequence q x reg ?r1 e = Inr (e1, sgs)"
    using assms Some by (auto simp: loader_step_def Let_def split: if_splits)
  then show ?thesis
  proof cases
    case 1
    then show ?thesis using finished Some by simp
  next
    case 2
    then show ?thesis using moved Some by simp
  next
    case 3
    then consider "Loaded e = (e1, sgs)"
      | fs r2 where "(case (case fs of None \<Rightarrow> addFrameSource None (sint (x_toULong x (xml_attr ''Position'' ?r1))) e
              | Some s \<Rightarrow> add_new_source s (sint (x_toULong x (xml_attr ''Position'' ?r1))) e) of
             (e1, sgs) \<Rightarrow> Inr (e1\<lparr>en_loader := Some r2\<rparr>, sgs)) = (Inr (e1, sgs) :: (_ \<times> _) res)"
      by (auto simp: load_sequence_def Let_def rbind_Inr_iff split: if_splits)
    then show ?thesis
    proof cases
      case 1
      then show ?thesis using finished Some by simp
    next
      case 2
      then show ?thesis using added null Some by (cases fs) (auto simp: case_prod_beta)
    qed
  qed
qed

lemma heads_kept:
  "selectHead h e = Inr (e1, sgs) \<Longrightarrow> en_heads e1 = en_heads e"
  "engine_copy reg dest source e = Inr (b, e1, sgs) \<Longrightarrow> en_heads e1 = en_heads e"
  "mimeHandler q x reg data pos e = Inr (b, e1, sgs) \<Longrightarrow> en_heads e1 = en_heads e"
  "saveShow opened date e = Inr (b, e1) \<Longrightarrow> en_heads e1 = en_heads e"
  "en_heads (fst (saver_step q x e)) = en_heads e"
  "en_heads (fst (snd (loadShow opened contents clr e))) = en_heads e"
  "loader_step q x reg e = Inr (e1, sgs) \<Longrightarrow> en_heads e1 = en_heads e"
  "en_heads (snd (importShow names idx e)) = en_heads e"
  "importer_step load e = Inr (e1, sgs) \<Longrightarrow> en_heads e1 = en_heads e"
proof -
  note add = add_new_source_heads
  show "selectHead h e = Inr (e1, sgs) \<Longrightarrow> en_heads e1 = en_heads e"
    by (auto simp: selectHead_def Let_def split: if_splits option.splits)
  show "engine_copy reg dest source e = Inr (b, e1, sgs) \<Longrightarrow> en_heads e1 = en_heads e"
    by (auto simp: engine_copy_def rbind_Inr_iff split: option.splits dest: add)
  show "mimeHandler q x reg data pos e = Inr (b, e1, sgs) \<Longrightarrow> en_heads e1 = en_heads e"
    by (auto simp: mimeHandler_def importShow_def rbind_Inr_iff
        split: mime_data.splits option.splits if_splits dest: add)
  show "saveShow opened date e = Inr (b, e1) \<Longrightarrow> en_heads e1 = en_heads e"
    by (auto simp: saveShow_def split: if_splits)
  show "en_heads (fst (saver_step q x e)) = en_heads e"
    by (auto simp: saver_step_def Saved_def split: option.splits)
  show "en_heads (fst (snd (loadShow opened contents clr e))) = en_heads e"
    by (auto simp: loadShow_def clear_sources_def)
  show "loader_step q x reg e = Inr (e1, sgs) \<Longrightarrow> en_heads e1 = en_heads e"
    by (erule loader_stepE) (simp_all add: Loaded_def)
  show "en_heads (snd (importShow names idx e)) = en_heads e"
    by (simp add: importShow_def)
  show "importer_step load e = Inr (e1, sgs) \<Longrightarrow> en_heads e1 = en_heads e"
    by (auto simp: importer_step_def Imported_def rbind_Inr_iff case_prod_beta
        split: option.splits list.splits)
qed

lemma engine_do_dark:
  assumes "all_dark e" and "\<not> restarts ev" and "engine_do su ev e = Inr (e', out)"
  shows "all_dark e' \<and> out = []"
proof (cases ev)
  case (Head_event i hev)
  then have "hev \<noteq> Restart_head" using assms(2) by (auto simp: restarts_def)
  then show ?thesis using head_in_engine_dark [OF assms(1)] assms(3) Head_event by simp
next
  case Kill_event
  then show ?thesis using assms(3) engine_kill_all_dark by auto
next
  case (Clicked pos)
  then show ?thesis using assms(1,3) clicked_dark by auto
next
  case (Deselected pos)
  then show ?thesis using assms(1,3) deselect_dark by auto
qed (use assms in \<open>auto simp: restarts_def rbind_Inr_iff clicked_dark deselect_dark
  heads_kept(5-8) elim!: all_dark_heads dest: heads_kept(1-4) heads_kept(9)\<close>)

section \<open>References to frame sources\<close>

definition same_shape :: "('c, 'f, 'm) show_data \<Rightarrow> ('c, 'f, 'm) show_data \<Rightarrow> bool" where
  "same_shape sh sh' \<longleftrightarrow> sh_sources sh' = sh_sources sh \<and> length (sh_store sh') = length (sh_store sh)"

definition ref_below :: "nat \<Rightarrow> 'f play_ref option \<Rightarrow> bool" where
  "ref_below n r = (case r of Some (Some (a, p)) \<Rightarrow> a < n | _ \<Rightarrow> True)"

definition show_ok :: "('c, 'f, 'm) show_data \<Rightarrow> bool" where
  "show_ok sh \<longleftrightarrow> (\<forall>a. Some a \<in> set (sh_sources sh) \<longrightarrow> a < length (sh_store sh))"

lemma same_shape_refl [simp]: "same_shape sh sh"
  by (simp add: same_shape_def)

lemma same_shape_trans: "same_shape a b \<Longrightarrow> same_shape b c \<Longrightarrow> same_shape a c"
  by (simp add: same_shape_def)

lemma same_shape_ok: "same_shape sh sh' \<Longrightarrow> show_ok sh \<Longrightarrow> show_ok sh'"
  by (simp add: same_shape_def show_ok_def)

lemma ref_below_None [simp]: "ref_below n None" "ref_below n (Some None)"
  by (simp_all add: ref_below_def)

lemma ref_below_mono: "ref_below n r \<Longrightarrow> n \<le> n' \<Longrightarrow> ref_below n' r"
  by (auto simp: ref_below_def split: option.splits)

lemma ref_below_Suc: "ref_below n r \<Longrightarrow> ref_below (Suc n) r"
  by (erule ref_below_mono) simp

lemma ref_nextFrame_shape:
  "ref_nextFrame q now r sh = Inr (fp, r', sh') \<Longrightarrow>
   same_shape sh sh' \<and> (ref_below n (Some r) \<longrightarrow> ref_below n (Some r'))"
  by (auto simp: ref_nextFrame_def rbind_Inr_iff same_shape_def ref_below_def split: option.splits)

lemma ref_reset_shape:
  "ref_reset q now r sh = Inr (r', sh') \<Longrightarrow>
   same_shape sh sh' \<and> (ref_below n (Some r) \<longrightarrow> ref_below n (Some r'))"
  by (auto simp: ref_reset_def rbind_Inr_iff same_shape_def ref_below_def split: option.splits)

lemma getPlayback_below: "show_ok sh \<Longrightarrow> ref_below (length (sh_store sh)) (Some (getPlayback q pos sh))"
  by (auto simp: getPlayback_def getFrameSource_at_def show_ok_def ref_below_def dest: nth_mem
      split: option.splits)

definition head_below :: "nat \<Rightarrow> ('f, 'z) head \<Rightarrow> bool" where
  "head_below n h = ref_below n (hd_pb h)"

lemma head_below_update [simp]:
  "head_below n (h\<lparr>hd_sources := s\<rparr>) = head_below n h" "head_below n (h\<lparr>hd_mail := m\<rparr>) = head_below n h"
  "head_below n (h\<lparr>hd_driver := d\<rparr>) = head_below n h" "head_below n (h\<lparr>hd_resampler := r\<rparr>) = head_below n h"
  "head_below n (h\<lparr>hd_targetPPS := t\<rparr>) = head_below n h" "head_below n (h\<lparr>hd_killed := k\<rparr>) = head_below n h"
  "head_below n (h\<lparr>hd_pointBuf := b\<rparr>) = head_below n h" "head_below n (h\<lparr>hd_frame_index := i\<rparr>) = head_below n h"
  by (simp_all add: head_below_def)

lemma loadFrameSource_below:
  "ref_below n f \<Longrightarrow> loadFrameSource f immediate h = (h', sgs) \<Longrightarrow> head_below n h'"
  by (auto simp: loadFrameSource_def Let_def head_below_def)

lemma deliver_below: "head_below n h \<Longrightarrow> deliver sg h = (h', sgs) \<Longrightarrow> head_below n h'"
  by (cases sg) (auto simp: deliver_def dump_def elim: loadFrameSource_below [rotated])

lemma deliver_all_below: "head_below n h \<Longrightarrow> deliver_all sgs h = (h', out) \<Longrightarrow> head_below n h'"
proof (induction sgs arbitrary: h out)
  case (Cons sg sgs)
  then show ?case by (auto simp: Let_def split: prod.splits dest: deliver_below)
qed simp

lemma kill_below: "kill h = (h', sgs) \<Longrightarrow> head_below n h'"
  by (auto simp: kill_def elim: loadFrameSource_below [rotated])

lemma next_of_pb_shape:
  "next_of_pb q now h sh = Inr (fp, h', sh') \<Longrightarrow> head_below n h \<Longrightarrow> same_shape sh sh' \<and> head_below n h'"
  by (auto simp: next_of_pb_def rbind_Inr_iff head_below_def split: option.splits
      dest: ref_nextFrame_shape [where n = n])

lemma next_source_frame_shape:
  fixes sgs :: "('c, 'm) head_signal list" and h :: "('f, 'z) head"
  assumes "next_source_frame q now h sh = Inr (fp, h', sh', sgs)"
    and "show_ok sh" and "head_below (length (sh_store sh)) h"
  shows "same_shape sh sh' \<and> head_below (length (sh_store sh)) h'"
proof -
  let ?n = "length (sh_store sh)"
  obtain s srcs sgs1 where g: "getNextFramesource (hd_sources h) = (s, srcs, sgs1)"
    by (metis prod_cases3)
  obtain h1 and e1 :: "('c, 'm) head_signal list"
    where d: "deliver_all sgs1 (h\<lparr>hd_sources := srcs\<rparr>) = (h1, e1)"
    by (metis surj_pair)
  obtain p sh1 where
    p: "(if sint s > -1 then rbind (ref_reset q now (getPlayback q (unat s) sh) sh) (\<lambda>(p, sh1). Inr (Some p, sh1))
         else Inr (None, sh)) = Inr (p, sh1)"
    and n: "next_of_pb q now (fst (loadFrameSource p False h1 ::
      ('f, 'z) head \<times> ('c, 'm) head_signal list)) sh1 = Inr (fp, h', sh')"
    using assms(1) unfolding next_source_frame_def g Let_def prod.case d
    by (auto simp: rbind_Inr_iff split_beta)
  have 1: "same_shape sh sh1 \<and> ref_below ?n p"
    using p getPlayback_below [OF assms(2), of q "unat s"]
    by (auto simp: rbind_Inr_iff split: if_splits dest: ref_reset_shape [where n = ?n])
  obtain h2 and e2 :: "('c, 'm) head_signal list"
    where l: "loadFrameSource p False h1 = (h2, e2)" by (metis surj_pair)
  have "head_below ?n h2" using 1 loadFrameSource_below [OF _ l] by simp
  then show ?thesis using n 1 next_of_pb_shape [of q now h2 sh1 fp h' sh' ?n]
    by (auto simp: l elim: same_shape_trans)
qed

lemma fetch_frame_shape:
  assumes "fetch_frame q now h sh = Inr (fp, h', sh', sgs)"
    and "show_ok sh" and "head_below (length (sh_store sh)) h"
  shows "same_shape sh sh' \<and> head_below (length (sh_store sh)) h'"
proof -
  obtain fp1 h1 sh1 where 1: "next_of_pb q now h sh = Inr (fp1, h1, sh1)"
    and 2: "(case fp1 of Some f \<Rightarrow> Inr (Some f, h1, sh1, []) | None \<Rightarrow> next_source_frame q now h1 sh1) =
      Inr (fp, h', sh', sgs)"
    using assms(1) by (auto simp: fetch_frame_def rbind_Inr_iff)
  have s: "same_shape sh sh1" "head_below (length (sh_store sh)) h1"
    using next_of_pb_shape [OF 1 assms(3)] by auto
  then have "show_ok sh1" "length (sh_store sh1) = length (sh_store sh)"
    using assms(2) by (auto simp: same_shape_ok same_shape_def)
  then show ?thesis using 2 s next_source_frame_shape [of q now h1 sh1 fp h' sh' sgs]
    by (auto split: option.splits elim: same_shape_trans)
qed

lemma data_round_shape:
  assumes "data_round fuel q e now d h sh = Inr (go, h', sh', sgs, taken)"
    and "show_ok sh" and "head_below (length (sh_store sh)) h"
  shows "same_shape sh sh' \<and> head_below (length (sh_store sh)) h'"
proof -
  obtain t d' where n: "driver_new_points (hd_pointBuf h) (hd_frame_index h) d = (t, d')"
    by (metis surj_pair)
  let ?h = "h\<lparr>hd_driver := Some d', hd_pointBuf := [], hd_frame_index := 0\<rparr>"
  have "head_below (length (sh_store sh)) ?h" using assms(3) by simp
  from fetch_frame_shape [OF _ assms(2) this] show ?thesis
    using assms(1,3)
    by (auto simp: data_round_def n Let_def rbind_Inr_iff split: if_splits option.splits)
qed

lemma data_loop_shape:
  "data_loop k q e now h sh = Inr (h', sh', sgs, taken) \<Longrightarrow> show_ok sh \<Longrightarrow>
   head_below (length (sh_store sh)) h \<Longrightarrow> same_shape sh sh' \<and> head_below (length (sh_store sh)) h'"
proof (induction k arbitrary: h sh h' sh' sgs taken)
  case (Suc k)
  show ?case
  proof (cases "\<exists>d. hd_driver h = Some d \<and> driver_fill d > 300")
    case False
    then show ?thesis using Suc.prems by (auto split: option.splits if_splits)
  next
    case True
    then obtain d where d: "hd_driver h = Some d" "driver_fill d > 300" by blast
    then obtain go h1 sh1 sgs1 taken1 where
      r: "data_round (Suc k) q e now d h sh = Inr (go, h1, sh1, sgs1, taken1)"
      and rest: "(if go then rbind (data_loop k q e now h1 sh1) (\<lambda>(h2, sh2, sgs2, taken2).
           Inr (h2, sh2, sgs1 @ sgs2, taken1 @ taken2)) else Inr (h1, sh1, sgs1, taken1)) =
         Inr (h', sh', sgs, taken)"
      using Suc.prems(1) by (auto simp: rbind_Inr_iff)
    have s: "same_shape sh sh1" "head_below (length (sh_store sh)) h1"
      using data_round_shape [OF r Suc.prems(2,3)] by auto
    then have "show_ok sh1" "length (sh_store sh1) = length (sh_store sh)"
      using Suc.prems(2) by (auto simp: same_shape_ok same_shape_def)
    then show ?thesis using rest s Suc.IH [of h1 sh1]
      by (auto simp: rbind_Inr_iff split: if_splits elim: same_shape_trans)
  qed
qed simp

lemma slot_below:
  "head_below n h \<Longrightarrow> deliver_mail h = (h', sgs) \<Longrightarrow> head_below n h'"
  "head_below n h \<Longrightarrow> manual h = (h', sgs) \<Longrightarrow> head_below n h'"
  "head_below n h \<Longrightarrow> beat h = (h', sgs) \<Longrightarrow> head_below n h'"
  by (auto simp: deliver_mail_def manual_def beat_def split: list.splits prod.splits
      dest: deliver_below [rotated] deliver_all_below [rotated])

lemma head_below_calls [simp]:
  "head_below n (head_select pos active h) = head_below n h"
  "head_below n (restart h) = head_below n h"
  "head_below n (set_shutter state h) = head_below n h"
  by (simp_all add: head_select_def restart_def set_shutter_def split: prod.splits option.splits)

lemma head_do_shape:
  assumes "head_do q z ev (h, sh) = Inr ((h', sh'), sgs, taken)" and "\<And>s. ev \<noteq> Show_event s"
    and "show_ok sh" and "head_below (length (sh_store sh)) h"
  shows "same_shape sh sh' \<and> head_below (length (sh_store sh)) h'"
proof (cases ev)
  case (Data_requested fuel now)
  then show ?thesis using assms(1,3,4) data_loop_shape [of fuel q z now h sh]
    by (auto simp: rbind_Inr_iff dataRequested_def)
next
  case Kill_head
  then show ?thesis using assms(1) by (auto split: prod.splits dest: kill_below)
next
  case Mail
  then show ?thesis using assms(1) by (auto split: prod.splits dest: slot_below [OF assms(4)])
next
  case Manual_trigger
  then show ?thesis using assms(1) by (auto split: prod.splits dest: slot_below [OF assms(4)])
next
  case Beat_trigger
  then show ?thesis using assms(1) by (auto split: prod.splits dest: slot_below [OF assms(4)])
next
  case (Set_driver d)
  then show ?thesis using assms(1,4)
    by (auto simp: setDriver_ptr_def rbind_Inr_iff split: option.splits if_splits)
next
  case (Show_event s)
  then show ?thesis using assms(2) by simp
qed (use assms(1,4) in \<open>auto simp: head_setSelectionMode_def head_setStepMode_def
  setPPS_def HWPpsChanged_def rbind_Inr_iff Let_def split: prod.splits\<close>)

section \<open>The invariant of the engine\<close>

definition locks_ok :: "('c, 'f, 'm, 'z) engine \<Rightarrow> bool" where
  "locks_ok e \<longleftrightarrow> (en_save_locked e \<longleftrightarrow> en_saver e \<noteq> None) \<and>
     (en_load_locked e \<longleftrightarrow> en_loader e \<noteq> None) \<and> (en_import_locked e \<longleftrightarrow> en_importer e \<noteq> None)"

definition refs_ok :: "('c, 'f, 'm, 'z) engine \<Rightarrow> bool" where
  "refs_ok e \<longleftrightarrow> length (en_heads e) = MAX_HEADS \<and> show_ok (en_show e) \<and>
     (\<forall>h \<in> set (en_heads e). head_below (length (sh_store (en_show e))) h)"

lemma set_put_source: "set (put_source p fs srcs) \<subseteq> insert fs (insert None (set srcs))"
  by (auto simp: put_source_def dest!: set_update_subset_insert [THEN subsetD] split: if_splits)

lemma refs_ok_add: "refs_ok e \<Longrightarrow> refs_ok (fst (add_new_source s pos e))"
proof -
  assume r: "refs_ok e"
  let ?n = "length (sh_store (en_show e))"
  have "show_ok (en_show (fst (add_new_source s pos e)))"
    using r set_put_source [of _ "Some ?n" "sh_sources (en_show e)"]
    by (fastforce simp: show_ok_def refs_ok_def)
  then show ?thesis using r by (auto simp: refs_ok_def head_below_def intro: ref_below_Suc)
qed

lemma refs_ok_null: "refs_ok e \<Longrightarrow> refs_ok (fst (addFrameSource None pos e))"
  using set_put_source [of _ None "sh_sources (en_show e)"]
  by (fastforce simp: show_ok_def refs_ok_def)

lemma refs_ok_same:
  "refs_ok e \<Longrightarrow> en_heads e' = en_heads e \<Longrightarrow> en_show e' = en_show e \<Longrightarrow> refs_ok e'"
  by (simp add: refs_ok_def)

lemma refs_ok_jobs [simp]:
  "refs_ok (e\<lparr>en_importer := x\<rparr>) = refs_ok e" "refs_ok (e\<lparr>en_loader := y\<rparr>) = refs_ok e"
  by (simp_all add: refs_ok_def)

lemma refs_ok_added:
  "refs_ok e \<Longrightarrow> add_new_source s pos e = (e1, sgs) \<Longrightarrow> refs_ok e1"
  using refs_ok_add [of e s pos] by simp

lemma locks_ok_added: "locks_ok e \<Longrightarrow> add_new_source s pos e = (e1, sgs) \<Longrightarrow> locks_ok e1"
  using add_new_source_simps [of s pos e] by (simp add: locks_ok_def)

lemma refs_ok_heads:
  assumes "refs_ok e" and "length hs = length (en_heads e)"
    and "\<And>h. h \<in> set hs \<Longrightarrow> head_below (length (sh_store (en_show e))) h"
  shows "refs_ok (e\<lparr>en_heads := hs\<rparr>)"
  using assms by (simp add: refs_ok_def)

lemma head_in_engine_ok:
  assumes "refs_ok e" and "head_in_engine su i ev e = Inr (e', out)"
  shows "refs_ok e'" and "locks_ok e \<Longrightarrow> locks_ok e'"
proof -
  have "refs_ok e' \<and> (locks_ok e \<longrightarrow> locks_ok e')"
    using assms(2)
  proof (cases rule: head_in_engineE)
    case (some h sh sgs)
    have "same_shape (en_show e) sh \<and> head_below (length (sh_store (en_show e))) h"
      using head_do_shape [OF some(3,2)] assms(1) some(1) by (auto simp: refs_ok_def)
    then show ?thesis using assms(1)
      by (auto simp: some(4) refs_ok_def same_shape_def locks_ok_def intro: same_shape_ok
          dest!: set_update_subset_insert [THEN subsetD] elim: same_shape_ok [rotated])
  qed (use assms(1) in simp)
  then show "refs_ok e'" and "locks_ok e \<Longrightarrow> locks_ok e'" by simp_all
qed

lemma refs_ok_ops:
  assumes "refs_ok e"
  shows "refs_ok (engine_kill e)" "refs_ok (engine_restart e)" "refs_ok (clicked pos e)"
    "refs_ok (deselect pos e)"
    "selectHead h e = Inr (e1, sgs) \<Longrightarrow> refs_ok e1"
    "engine_copy reg dest source e = Inr (b, e1, sgs) \<Longrightarrow> refs_ok e1"
    "mimeHandler q x reg data pos e = Inr (b, e1, sgs) \<Longrightarrow> refs_ok e1"
    "saveShow opened date e = Inr (b, e1) \<Longrightarrow> refs_ok e1"
    "refs_ok (fst (saver_step q x e))"
    "refs_ok (fst (snd (loadShow opened contents clr e)))"
    "loader_step q x reg e = Inr (e1, sgs) \<Longrightarrow> refs_ok e1"
    "refs_ok (snd (importShow names idx e))"
    "importer_step load e = Inr (e1, sgs) \<Longrightarrow> refs_ok e1"
proof -
  have b: "h \<in> set (en_heads e) \<Longrightarrow> head_below (length (sh_store (en_show e))) h" for h
    using assms by (simp add: refs_ok_def)
  have k: "head_below n (fst (kill h :: ('b, 'd) head \<times> ('a, 'c) head_signal list))" for n h
    by (rule kill_below [OF prod.collapse [symmetric]])
  note same = refs_ok_same [OF assms] and add = refs_ok_added [OF assms]
  show "refs_ok (engine_kill e)" "refs_ok (engine_restart e)" "refs_ok (deselect pos e)"
    unfolding engine_kill_def engine_restart_def deselect_def
    by (rule refs_ok_heads [OF assms]; auto simp: k b)+
  show "refs_ok (clicked pos e)"
    by (auto simp: clicked_def getHead_def setHead_def Let_def assms b nth_mem
        intro!: refs_ok_heads [OF assms] dest!: set_update_subset_insert [THEN subsetD] split: option.splits if_splits)
  show "selectHead h e = Inr (e1, sgs) \<Longrightarrow> refs_ok e1"
    by (auto simp: selectHead_def Let_def assms split: if_splits option.splits intro: same)
  show "engine_copy reg dest source e = Inr (b, e1, sgs) \<Longrightarrow> refs_ok e1"
    using assms by (auto simp: engine_copy_def rbind_Inr_iff split: option.splits dest: add)
  show "mimeHandler q x reg data pos e = Inr (b, e1, sgs) \<Longrightarrow> refs_ok e1"
    by (auto simp: mimeHandler_def importShow_def rbind_Inr_iff assms
        split: mime_data.splits option.splits if_splits dest: add intro: same)
  show "saveShow opened date e = Inr (b, e1) \<Longrightarrow> refs_ok e1"
    by (auto simp: saveShow_def assms split: if_splits intro: same)
  show "refs_ok (fst (saver_step q x e))"
    by (auto simp: saver_step_def Saved_def assms split: option.splits intro: same)
  show "refs_ok (fst (snd (loadShow opened contents clr e)))"
    using assms by (auto simp: loadShow_def clear_sources_def refs_ok_def show_ok_def)
  show "loader_step q x reg e = Inr (e1, sgs) \<Longrightarrow> refs_ok e1"
    using assms refs_ok_add [OF assms] refs_ok_null [OF assms]
    by (elim loader_stepE) (auto simp: Loaded_def intro: same)
  show "refs_ok (snd (importShow names idx e))"
    by (auto simp: importShow_def assms intro: same)
  show "importer_step load e = Inr (e1, sgs) \<Longrightarrow> refs_ok e1"
    using refs_ok_add [OF assms]
    by (auto simp: importer_step_def Imported_def rbind_Inr_iff case_prod_beta assms
        split: option.splits list.splits intro: same)
qed

lemma locks_ok_ops:
  assumes "locks_ok e"
  shows "locks_ok (engine_kill e)" "locks_ok (engine_restart e)" "locks_ok (clicked pos e)"
    "locks_ok (deselect pos e)"
    "selectHead h e = Inr (e1, sgs) \<Longrightarrow> locks_ok e1"
    "engine_copy reg dest source e = Inr (b, e1, sgs) \<Longrightarrow> locks_ok e1"
    "mimeHandler q x reg data pos e = Inr (b, e1, sgs) \<Longrightarrow> locks_ok e1"
    "saveShow opened date e = Inr (b, e1) \<Longrightarrow> locks_ok e1"
    "locks_ok (fst (saver_step q x e))"
    "locks_ok (fst (snd (loadShow opened contents clr e)))"
    "loader_step q x reg e = Inr (e1, sgs) \<Longrightarrow> locks_ok e1"
    "locks_ok (snd (importShow names idx e))"
    "importer_step load e = Inr (e1, sgs) \<Longrightarrow> locks_ok e1"
proof -
  note add = locks_ok_added [OF assms]
  show "locks_ok (engine_kill e)" "locks_ok (engine_restart e)" "locks_ok (deselect pos e)"
    "locks_ok (clicked pos e)"
    using assms by (auto simp: engine_kill_def engine_restart_def deselect_def clicked_def setHead_def
        locks_ok_def Let_def split: option.splits)
  show "selectHead h e = Inr (e1, sgs) \<Longrightarrow> locks_ok e1"
    using assms by (auto simp: selectHead_def Let_def locks_ok_def split: if_splits option.splits)
  show "engine_copy reg dest source e = Inr (b, e1, sgs) \<Longrightarrow> locks_ok e1"
    using assms by (auto simp: engine_copy_def rbind_Inr_iff split: option.splits dest: add)
  show "mimeHandler q x reg data pos e = Inr (b, e1, sgs) \<Longrightarrow> locks_ok e1"
    using assms by (auto simp: mimeHandler_def importShow_def rbind_Inr_iff
        split: mime_data.splits option.splits if_splits dest: add) (auto simp: locks_ok_def)
  show "saveShow opened date e = Inr (b, e1) \<Longrightarrow> locks_ok e1"
    using assms by (auto simp: saveShow_def locks_ok_def split: if_splits)
  show "locks_ok (fst (saver_step q x e))"
    using assms by (auto simp: saver_step_def Saved_def locks_ok_def split: option.splits)
  show "locks_ok (fst (snd (loadShow opened contents clr e)))"
    using assms by (auto simp: loadShow_def clear_sources_def locks_ok_def)
  show "locks_ok (snd (importShow names idx e))"
    using assms by (auto simp: importShow_def locks_ok_def)
  show "loader_step q x reg e = Inr (e1, sgs) \<Longrightarrow> locks_ok e1"
    using assms by (elim loader_stepE) (auto simp: Loaded_def locks_ok_def)
  show "importer_step load e = Inr (e1, sgs) \<Longrightarrow> locks_ok e1"
    using assms
    by (auto simp: importer_step_def Imported_def rbind_Inr_iff case_prod_beta locks_ok_def
        split: option.splits list.splits)
qed

lemma engine_do_ok:
  assumes "refs_ok e" and "locks_ok e" and "engine_do su ev e = Inr (e', out)"
  shows "refs_ok e' \<and> locks_ok e'"
proof (cases ev)
  case (Head_event i hev)
  then show ?thesis using head_in_engine_ok [OF assms(1)] assms(2,3) by auto
next
  case (Source_added s pos)
  then show ?thesis using assms refs_ok_add [OF assms(1), of s pos]
      locks_ok_added [OF assms(2), OF prod.collapse [symmetric], of s pos] by auto
qed (use assms(3) refs_ok_ops [OF assms(1)] locks_ok_ops [OF assms(2)] in \<open>auto simp: rbind_Inr_iff\<close>)

lemma engine_run_ok:
  "engine_run su evs e out e' \<Longrightarrow> refs_ok e \<Longrightarrow> locks_ok e \<Longrightarrow> refs_ok e' \<and> locks_ok e'"
  by (induction rule: engine_run.induct) (auto dest: engine_do_ok)

section \<open>Start\<close>

lemma bring_up_head_no_playback:
  "bring_up_head z reg env uc rnd = Inr h \<Longrightarrow> hd_pb h = None"
  by (auto simp: bring_up_head_def LaserHead_def setDriver_def setDriver_ptr_def rbind_Inr_iff
      split: option.splits if_splits)

lemma bring_up_heads_ok:
  "bring_up_heads z reg env uc rnds = Inr hs \<Longrightarrow> length hs = length rnds \<and> (\<forall>h \<in> set hs. hd_pb h = None)"
  by (induction rnds arbitrary: hs) (auto simp: rbind_Inr_iff dest: bring_up_head_no_playback)

lemma Engine_ok: "Engine z reg env uc rnds rnd = Inr e \<Longrightarrow> refs_ok e \<and> locks_ok e"
  by (auto simp: Engine_def rbind_Inr_iff refs_ok_def locks_ok_def show_ok_def head_below_def
      dest: bring_up_heads_ok)

text \<open>With a dummy driver in the registry every head comes up, connected to one.\<close>

definition dummy_registry :: "'f driver registry" where
  "dummy_registry = Some [(''Dummy (ILDA)'', Dummy_driver Dummy_ILDA)]"

lemma bring_up_head_dummy:
  assumes "newDriver ''Dummy (ILDA)'' reg = Inr (Some (Dummy_driver Dummy_ILDA))"
  shows "\<exists>h. bring_up_head z reg env uc rnd = Inr h \<and> hd_sources h = PlaybackList rnd \<and>
    hd_pb h = None \<and> hd_driver h = Some (Dummy_driver (snd (dummy_connect 0 Dummy_ILDA)))"
  using assms
  by (auto simp: bring_up_head_def LaserHead_def setDriver_def setDriver_ptr_def setInputPPS_def
      setOutputPPS_def set_resampler_def Let_def rbind_Inr_iff driver_flags_def driver_pps_def
      driver_connect_first_def OUTPUTS_ILDA_def Resample_def)

lemma Engine_comes_up:
  assumes "newDriver ''Dummy (ILDA)'' reg = Inr (Some (Dummy_driver Dummy_ILDA))"
  shows "\<exists>e :: ('c, 'f, 'm, 'z) engine. Engine z reg env uc rnds rnd = Inr e \<and> sh_store (en_show e) = [] \<and>
    sh_sources (en_show e) = [] \<and> en_saver e = None \<and> \<not> en_save_locked e"
proof -
  have "\<exists>hs. bring_up_heads z reg env uc rs = Inr hs" for rs
  proof (induction rs)
    case (Cons r rs)
    then show ?case using bring_up_head_dummy [OF assms, of z env uc r] by auto
  qed simp
  then obtain hs where "bring_up_heads z reg env uc (map rnds [0..<MAX_HEADS]) = Inr hs" by blast
  then show ?thesis by (simp add: Engine_def)
qed

lemma newDriver_dummy_registry:
  "newDriver ''Dummy (ILDA)'' dummy_registry = Inr (Some (Dummy_driver Dummy_ILDA))"
  by (simp add: newDriver_def dummy_registry_def)

section \<open>Properties\<close>



text \<open>The surroundings of the examples: exact numbers, the unit filter, no classes and an empty disc.\<close>

definition demo_surroundings :: "(int \<times> int \<times> int, rat, rat, unit) surroundings" where
  "demo_surroundings = \<lparr>su_qt = exact_qt, su_text = exact_text, su_zita = unit_filter, su_classes = None,
     su_load = (\<lambda>_. Inr None)\<rparr>"

definition quiet_engine :: "(int \<times> int \<times> int, rat, rat, unit) engine" where
  "quiet_engine = \<lparr>en_show = demo_show, en_heads = replicate 8 demo_head, en_selected = 0,
     en_save_locked = False, en_load_locked = False, en_import_locked = False,
     en_saver = None, en_loader = None, en_importer = None\<rparr>"

lemma killed_demo_head_answers:
  "head_do exact_qt unit_filter (Data_requested 5 0) (demo_head\<lparr>hd_killed := True, hd_pb := None\<rparr>, demo_show) =
   Inr ((demo_head\<lparr>hd_killed := True, hd_pb := None\<rparr>, demo_show),
        [Head_inactive, End_of_source, New_frame None], [])"
proof -
  have n: "getNextFramesource demo_list = (0, demo_list, [Load 0])"
    by (simp add: demo_list_def getNextFramesource_def next_source.simps rotate_selections_def
        first_selection_def load_signal_def)
  have f: "driver_fill (Dummy_driver Dummy_ILDA) = 2000"
    by (simp add: driver_fill_def dummy_BufferFillStatus_def Dummy_ILDA_def size_sub_le
        dummy_BUFFER_SZ_def)
  have d: "driver_new_points [] 0 (Dummy_driver Dummy_ILDA) = (0, Dummy_driver Dummy_ILDA)"
    by (simp add: driver_new_points_def dummy_NewPoints_def Dummy_ILDA_def size_sub_def Let_def)
  have r: "data_round k exact_qt unit_filter 0 (Dummy_driver Dummy_ILDA)
      (demo_head\<lparr>hd_killed := True, hd_pb := None\<rparr>) demo_show =
      Inr (False, demo_head\<lparr>hd_killed := True, hd_pb := None\<rparr>, demo_show,
        [Head_inactive, End_of_source, New_frame None], [])" for k
    by (simp add: data_round_def d demo_head_def fetch_frame_def next_of_pb_def
        next_source_frame_def n deliver_def getPlayback_def getFrameSource_at_def demo_show_def
        ref_reset_def loadFrameSource_def)
  have h: "hd_driver (demo_head\<lparr>hd_killed := True, hd_pb := None\<rparr>) = Some (Dummy_driver Dummy_ILDA)"
    by (simp add: demo_head_def)
  show ?thesis unfolding head_do.simps dataRequested_def numeral_eq_Suc data_loop.simps h
    by (simp add: f r)
qed

lemma demo_heads_killed:
  "en_heads (engine_kill quiet_engine) = replicate 8 (demo_head\<lparr>hd_killed := True, hd_pb := None\<rparr>)"
  by (simp add: engine_kill_def quiet_engine_def kill_def loadFrameSource_def demo_head_def
      set_shutter_def driver_shutter_def)



end
