(* ===== verification/Midi.thy ===== *)
theory Midi
  imports Lucifer_Prelude
begin

unbundle bit_operations_syntax

text \<open>
  \<open>alsamidi.h\<close>, \<open>alsamidi.cpp\<close>, \<open>midi.h\<close> and \<open>midi.cpp\<close>: the MIDI port with its two queues, the
  parser that reads it and the sixteen channels between the parser and the control surfaces.

  The raw MIDI device of ALSA is not part of the sources. Its calls are the fields of the record
  \<open>raw_midi\<close> over a type of device states; the locale \<open>raw_device\<close> states what their manual says:
  a write takes a prefix of what it is given, a read gives the next bytes that came in. The
  message parser of the \<open>jdksmidi\<close> library is the record \<open>midi_lib\<close>.
\<close>

section \<open>The port\<close>

record 's raw_midi =
  rm_open :: "string \<Rightarrow> 's \<Rightarrow> bool \<times> 's"
  rm_in_events :: "'s \<Rightarrow> bool list" \<comment> \<open>the read descriptors: is \<open>POLLIN\<close> set\<close>
  rm_out_events :: "'s \<Rightarrow> bool list" \<comment> \<open>the write descriptors: is \<open>POLLOUT\<close> set\<close>
  rm_read :: "nat \<Rightarrow> 's \<Rightarrow> u8 list \<times> 's" \<comment> \<open>no bytes for a result of zero or less\<close>
  rm_write :: "u8 list \<Rightarrow> 's \<Rightarrow> int \<times> 's"

record alsa_midi =
  am_open :: bool \<comment> \<open>\<open>input\<close> and \<open>output\<close> are set\<close>
  am_tx :: "u8 list"
  am_rx :: "u8 list"
  am_readers :: nat
  am_fds :: "bool list" \<comment> \<open>\<open>write_fds\<close>: are the notifiers enabled\<close>

definition AlsaMidi :: alsa_midi where
  "AlsaMidi = \<lparr>am_open = False, am_tx = [], am_rx = [], am_readers = 0, am_fds = []\<rparr>"

definition am_close :: "alsa_midi \<Rightarrow> alsa_midi" where
  "am_close m = m\<lparr>am_open := False, am_fds := [], am_tx := [], am_rx := []\<rparr>"

definition open_port :: "'s raw_midi \<Rightarrow> string \<Rightarrow> alsa_midi \<Rightarrow> 's \<Rightarrow> bool \<times> alsa_midi \<times> 's" where
  "open_port ops name m s =
     (let m1 = (if am_open m then am_close m else m);
          (ok, s1) = rm_open ops name s
      in if \<not> ok then (False, m1, s1)
         else (True, m1\<lparr>am_open := True,
                 am_readers := am_readers m1 + length (filter id (rm_in_events ops s1)),
                 am_fds := map (\<lambda>_. False) (filter id (rm_out_events ops s1))\<rparr>, s1))"

text \<open>The loop of \<open>readAvailable\<close>; a device that never runs dry would keep it busy.\<close>

fun read_available :: "nat \<Rightarrow> 's raw_midi \<Rightarrow> u8 list \<Rightarrow> 's \<Rightarrow> (u8 list \<times> 's) res" where
  "read_available 0 ops rx s = Inl Out_of_fuel"
| "read_available (Suc fuel) ops rx s =
     (let (buf, s1) = rm_read ops 64 s
      in if buf = [] then Inr (rx, s1) else read_available fuel ops (rx @ buf) s1)"

text \<open>\<open>readAvailable\<close>: whether \<open>readyRead\<close> is emitted, and the new states.\<close>

definition readAvailable :: "nat \<Rightarrow> 's raw_midi \<Rightarrow> alsa_midi \<Rightarrow> 's \<Rightarrow> (bool \<times> alsa_midi \<times> 's) res" where
  "readAvailable fuel ops m s =
     rbind (read_available fuel ops (am_rx m) s) (\<lambda>(rx, s1).
       Inr (rx \<noteq> [], m\<lparr>am_rx := rx\<rparr>, s1))"

text \<open>
  The loop of \<open>writeAvailable\<close>. A device that claims to have taken more than the queue holds
  would make the code pop an empty deque.
\<close>

function write_available :: "'s raw_midi \<Rightarrow> u8 list \<Rightarrow> 's \<Rightarrow> (u8 list \<times> 's) res" where
  "write_available ops tx s =
     (let avail = (if length tx > 64 then 64 else length tx);
          (r, s1) = rm_write ops (take avail tx) s
      in if r > 0 then
           (if nat r \<le> length tx then write_available ops (drop (nat r) tx) s1
            else Inl Undefined_behaviour)
         else Inr (tx, s1))"
  by pat_completeness auto
termination by (relation "measure (\<lambda>(ops, tx, s). length tx)") auto

declare write_available.simps [simp del]

definition writeAvailable :: "'s raw_midi \<Rightarrow> alsa_midi \<Rightarrow> 's \<Rightarrow> (alsa_midi \<times> 's) res" where
  "writeAvailable ops m s =
     rbind (write_available ops (am_tx m) s) (\<lambda>(tx, s1).
       Inr (m\<lparr>am_tx := tx, am_fds := map (\<lambda>_. tx \<noteq> []) (am_fds m)\<rparr>, s1))"

definition am_readData :: "nat \<Rightarrow> alsa_midi \<Rightarrow> u8 list \<times> alsa_midi" where
  "am_readData maxsize m =
     (let r = (if length (am_rx m) > maxsize then maxsize else length (am_rx m))
      in (take r (am_rx m), m\<lparr>am_rx := drop r (am_rx m)\<rparr>))"

definition am_writeData :: "'s raw_midi \<Rightarrow> u8 list \<Rightarrow> alsa_midi \<Rightarrow> 's \<Rightarrow> (nat \<times> alsa_midi \<times> 's) res" where
  "am_writeData ops data m s =
     rbind (writeAvailable ops (m\<lparr>am_tx := am_tx m @ data\<rparr>) s) (\<lambda>(m1, s1).
       Inr (length data, m1, s1))"

definition am_isSequential :: bool where
  "am_isSequential = True"

section \<open>The ports of the system\<close>

record alsa_cards =
  ac_next_card :: "int \<Rightarrow> int option" \<comment> \<open>None: an error\<close>
  ac_ctl_open :: "int \<Rightarrow> bool"
  ac_next_device :: "int \<Rightarrow> int \<Rightarrow> int option"
  ac_subs_in :: "int \<Rightarrow> int \<Rightarrow> nat option"
  ac_subs_out :: "int \<Rightarrow> int \<Rightarrow> nat option"
  ac_sub_name :: "int \<Rightarrow> int \<Rightarrow> nat \<Rightarrow> string option"

type_synonym midi_port = "string \<times> string"

text \<open>The branch for \<open>subs == 0\<close> is inside the loop over \<open>sub < subs\<close> and never taken.\<close>

definition sub_ports :: "alsa_cards \<Rightarrow> int \<Rightarrow> int \<Rightarrow> nat \<Rightarrow> midi_port list" where
  "sub_ports env crd device subs = concat (map (\<lambda>sub.
     case ac_sub_name env crd device sub of None \<Rightarrow> []
     | Some nm \<Rightarrow> [(''hw:'' @ dec_int crd @ '','' @ dec_int device @ '','' @ dec_string sub, nm)])
     [0..<subs])"

definition device_subs :: "alsa_cards \<Rightarrow> int \<Rightarrow> int \<Rightarrow> nat" where
  "device_subs env crd device =
     (let subs_in = (case ac_subs_in env crd device of Some n \<Rightarrow> n | None \<Rightarrow> 0);
          subs_out = (case ac_subs_out env crd device of Some n \<Rightarrow> n | None \<Rightarrow> 0)
      in if subs_out < subs_in then subs_out else subs_in)"

text \<open>The devices of a card; the flag tells that the whole enumeration ends with an error.\<close>

fun card_ports :: "nat \<Rightarrow> alsa_cards \<Rightarrow> int \<Rightarrow> int \<Rightarrow> (bool \<times> midi_port list) res" where
  "card_ports 0 env crd device = Inl Out_of_fuel"
| "card_ports (Suc fuel) env crd device = (case ac_next_device env crd device of
     None \<Rightarrow> Inr (True, [])
   | Some d \<Rightarrow> if d < 0 then Inr (False, [])
       else rbind (card_ports fuel env crd d) (\<lambda>(err, ps).
         Inr (err, sub_ports env crd d (device_subs env crd d) @ ps)))"

fun cards_ports :: "nat \<Rightarrow> alsa_cards \<Rightarrow> int \<Rightarrow> midi_port list res" where
  "cards_ports 0 env crd = Inl Out_of_fuel"
| "cards_ports (Suc fuel) env crd =
     (if \<not> ac_ctl_open env crd then Inr []
      else rbind (card_ports fuel env crd (- 1)) (\<lambda>(err, ps).
        if err then Inr ps
        else (case ac_next_card env crd of None \<Rightarrow> Inr ps
          | Some c \<Rightarrow> if c \<ge> 0 then rbind (cards_ports fuel env c) (\<lambda>qs. Inr (ps @ qs))
                      else Inr ps)))"

definition enumeratePorts :: "nat \<Rightarrow> alsa_cards \<Rightarrow> midi_port list res" where
  "enumeratePorts fuel env = (case ac_next_card env (- 1) of
     None \<Rightarrow> Inr []
   | Some crd \<Rightarrow> if crd < 0 then Inr [] else cards_ports fuel env crd)"

section \<open>Channels and parser\<close>

record ('m, 'p) midi_lib =
  ml_Parse :: "u8 \<Rightarrow> 'p \<Rightarrow> 'm option \<times> 'p" \<comment> \<open>a message, when the byte completes one\<close>
  ml_IsChannelMsg :: "'m \<Rightarrow> bool"
  ml_GetChannel :: "'m \<Rightarrow> nat"
  ml_IsNoteOn :: "'m \<Rightarrow> bool"
  ml_IsNoteOff :: "'m \<Rightarrow> bool"
  ml_IsPolyPressure :: "'m \<Rightarrow> bool"
  ml_IsControlChange :: "'m \<Rightarrow> bool"
  ml_IsProgramChange :: "'m \<Rightarrow> bool"
  ml_IsChannelPressure :: "'m \<Rightarrow> bool"
  ml_IsPitchBend :: "'m \<Rightarrow> bool"
  ml_IsMTC :: "'m \<Rightarrow> bool"
  ml_IsSongSelect :: "'m \<Rightarrow> bool"
  ml_IsSongPosition :: "'m \<Rightarrow> bool"
  ml_IsTuneRequest :: "'m \<Rightarrow> bool"
  ml_GetNote :: "'m \<Rightarrow> int"
  ml_GetVelocity :: "'m \<Rightarrow> int"
  ml_GetController :: "'m \<Rightarrow> int"
  ml_GetControllerValue :: "'m \<Rightarrow> int"
  ml_GetPGValue :: "'m \<Rightarrow> int"
  ml_GetChannelPressure :: "'m \<Rightarrow> int"
  ml_GetBenderValue :: "'m \<Rightarrow> int"
  ml_GetByte1 :: "'m \<Rightarrow> int"

datatype channel_signal =
    NoteOn int int
  | NoteOff int int
  | Aftertouch int int
  | Controller int int
  | ProgramChange int
  | ChannelPressure int
  | PitchWheel int

datatype parser_signal =
    On_channel nat channel_signal
  | MTCTick int
  | SongSelect int
  | SongPosition int
  | TuneRequest

definition emit_if :: "bool \<Rightarrow> 'a \<Rightarrow> 'a list" where
  "emit_if b x = (if b then [x] else [])"

definition channel_message :: "('m, 'p) midi_lib \<Rightarrow> 'm \<Rightarrow> channel_signal list" where
  "channel_message lib m =
     emit_if (ml_IsNoteOn lib m) (NoteOn (ml_GetNote lib m) (ml_GetVelocity lib m)) @
     emit_if (ml_IsNoteOff lib m) (NoteOff (ml_GetNote lib m) (ml_GetVelocity lib m)) @
     emit_if (ml_IsPolyPressure lib m) (Aftertouch (ml_GetNote lib m) (ml_GetVelocity lib m)) @
     emit_if (ml_IsControlChange lib m)
       (Controller (ml_GetController lib m) (ml_GetControllerValue lib m)) @
     emit_if (ml_IsProgramChange lib m) (ProgramChange (ml_GetPGValue lib m)) @
     emit_if (ml_IsChannelPressure lib m) (ChannelPressure (ml_GetChannelPressure lib m)) @
     emit_if (ml_IsPitchBend lib m) (PitchWheel (ml_GetBenderValue lib m))"

text \<open>\<open>MIDIChannel::send\<close>: the status byte of a message gets the number of the channel.\<close>

definition channel_send :: "nat \<Rightarrow> u8 list \<Rightarrow> u8 list" where
  "channel_send chan data = (case data of [] \<Rightarrow> []
     | b # bs \<Rightarrow> ((b AND 0xF0) OR of_nat chan) # bs)"

record 'p midi_parser =
  mp_channels :: "nat list"
  mp_parser :: 'p
  mp_io :: bool \<comment> \<open>\<open>iodevice\<close> is set\<close>

definition MIDIParser :: "'p \<Rightarrow> 'p midi_parser" where
  "MIDIParser p = \<lparr>mp_channels = [0..<16], mp_parser = p, mp_io = False\<rparr>"

definition setQIODevice :: "bool \<Rightarrow> 'p midi_parser \<Rightarrow> 'p midi_parser" where
  "setQIODevice io mp = mp\<lparr>mp_io := io\<rparr>"

definition dispatch :: "('m, 'p) midi_lib \<Rightarrow> nat list \<Rightarrow> 'm \<Rightarrow> parser_signal list res" where
  "dispatch lib chans m =
     (if ml_IsChannelMsg lib m then
        rbind (vec_at chans (ml_GetChannel lib m)) (\<lambda>c.
          Inr (map (On_channel c) (channel_message lib m)))
      else Inr (
        emit_if (ml_IsMTC lib m) (MTCTick (ml_GetByte1 lib m)) @
        emit_if (ml_IsSongSelect lib m) (SongSelect (ml_GetByte1 lib m)) @
        emit_if (ml_IsSongPosition lib m) (SongPosition (ml_GetBenderValue lib m)) @
        emit_if (ml_IsTuneRequest lib m) TuneRequest))"

fun parse_bytes :: "('m, 'p) midi_lib \<Rightarrow> nat list \<Rightarrow> u8 list \<Rightarrow> 'p \<Rightarrow> (parser_signal list \<times> 'p) res" where
  "parse_bytes lib chans [] p = Inr ([], p)"
| "parse_bytes lib chans (b # bs) p =
     (let (m, p1) = ml_Parse lib b p
      in rbind (case m of None \<Rightarrow> Inr [] | Some m \<Rightarrow> dispatch lib chans m) (\<lambda>sgs.
         rbind (parse_bytes lib chans bs p1) (\<lambda>(sgs', p2). Inr (sgs @ sgs', p2))))"

text \<open>
  The loop of \<open>readData\<close>, from the first chunk on. \<open>QIODevice::read\<close> is \<open>am_readData\<close>; the
  buffer Qt puts between them does not change the order of the bytes.
\<close>

function read_rounds :: "('m, 'p) midi_lib \<Rightarrow> nat list \<Rightarrow> u8 list \<Rightarrow> 'p \<Rightarrow> alsa_midi \<Rightarrow>
    (parser_signal list \<times> 'p \<times> alsa_midi) res" where
  "read_rounds lib chans data p m =
     rbind (parse_bytes lib chans data p) (\<lambda>(sgs, p1).
     let (data1, m1) = am_readData 64 m in
     if data1 = [] then Inr (sgs, p1, m1)
     else rbind (read_rounds lib chans data1 p1 m1) (\<lambda>(sgs', p2, m2). Inr (sgs @ sgs', p2, m2)))"
  by pat_completeness auto
termination
  by (relation "measure (\<lambda>(lib, chans, data, p, m). length (am_rx m))")
    (auto simp: am_readData_def Let_def split: if_splits)

declare read_rounds.simps [simp del]

definition parser_readData :: "('m, 'p) midi_lib \<Rightarrow> 'p midi_parser \<Rightarrow> alsa_midi \<Rightarrow>
    (parser_signal list \<times> 'p midi_parser \<times> alsa_midi) res" where
  "parser_readData lib mp m =
     (if \<not> mp_io mp then Inl Undefined_behaviour
      else if \<not> am_open m then Inr ([], mp, m)
      else (let (data, m1) = am_readData 64 m in
        rbind (read_rounds lib (mp_channels mp) data (mp_parser mp) m1) (\<lambda>(sgs, p, m2).
          Inr (sgs, mp\<lparr>mp_parser := p\<rparr>, m2))))"

text \<open>\<open>MIDIParser::send\<close>; \<open>QIODevice::write\<close> does nothing while the port is closed.\<close>

definition parser_send :: "'s raw_midi \<Rightarrow> u8 list \<Rightarrow> 'p midi_parser \<Rightarrow> alsa_midi \<Rightarrow> 's \<Rightarrow>
    (alsa_midi \<times> 's) res" where
  "parser_send ops data mp m s =
     (if \<not> mp_io mp then Inr (m, s)
      else if data = [] then Inl Undefined_behaviour
      else if \<not> am_open m then Inr (m, s)
      else rbind (am_writeData ops data m s) (\<lambda>(_, m1, s1). Inr (m1, s1)))"

end
