(* ===== verification/Midi_Transport.thy ===== *)
theory Midi_Transport
  imports Midi
begin

text \<open>
  What the MIDI port and its parser do with the bytes: the locale \<open>raw_device\<close> is the contract of
  the device below the port, its interpretation \<open>wire\<close> a device that takes a bounded number of
  bytes before it blocks. Nothing is lost, repeated or reordered between a control surface and the
  device, in either direction, however the bytes are cut into chunks on their way.
\<close>

section \<open>The device\<close>

locale raw_device =
  fixes ops :: "'s raw_midi"
    and sent :: "'s \<Rightarrow> u8 list" \<comment> \<open>everything the device has taken\<close>
    and inp :: "'s \<Rightarrow> u8 list" \<comment> \<open>what it holds for the reader\<close>
  assumes write_bound: "rm_write ops buf s = (r, s') \<Longrightarrow> r \<le> int (length buf)"
    and write_sent: "rm_write ops buf s = (r, s') \<Longrightarrow> sent s' = sent s @ take (nat r) buf"
    and read_next: "rm_read ops n s = (bs, s') \<Longrightarrow> inp s = bs @ inp s'"
begin

text \<open>Every writing loop ends, and the device has what the queue has lost.\<close>

lemma write_loop:
  "\<exists>tx' s'. write_available ops tx s = Inr (tx', s') \<and> sent s' @ tx' = sent s @ tx"
proof (induction "length tx" arbitrary: tx s rule: less_induct)
  case less
  let ?n = "if length tx > 64 then 64 else length tx"
  obtain r s1 where w: "rm_write ops (take ?n tx) s = (r, s1)" by (metis surj_pair)
  have r: "nat r \<le> ?n" using write_bound [OF w] by (auto split: if_splits)
  have s1: "sent s1 = sent s @ take (nat r) tx" using write_sent [OF w] r by (simp add: min_def)
  show ?case
  proof (cases "r > 0")
    case False
    then show ?thesis using w s1 by (subst write_available.simps) (simp add: Let_def)
  next
    case True
    then have le: "nat r \<le> length tx" and lt: "length (drop (nat r) tx) < length tx"
      using r by (auto split: if_splits)
    obtain tx' s' where "write_available ops (drop (nat r) tx) s1 = Inr (tx', s')"
      and "sent s' @ tx' = sent s @ tx" using less [OF lt, of s1] s1 by auto
    then show ?thesis using w s1 True le
      by (subst write_available.simps) (auto simp: Let_def)
  qed
qed

lemma read_loop:
  "length (inp s) < fuel \<Longrightarrow>
   \<exists>got s'. read_available fuel ops rx s = Inr (rx @ got, s') \<and> inp s = got @ inp s'"
proof (induction fuel arbitrary: rx s)
  case (Suc fuel)
  obtain bs s1 where r: "rm_read ops 64 s = (bs, s1)" by (metis surj_pair)
  have i: "inp s = bs @ inp s1" by (rule read_next [OF r])
  show ?case
  proof (cases "bs = []")
    case False
    then have "length (inp s1) < fuel" using Suc.prems i by (cases bs) auto
    then show ?thesis using Suc.IH [of s1 "rx @ bs"] r i False by auto
  qed (use r i in auto)
qed simp

lemma write_data:
  "\<exists>m' s'. am_writeData ops data m s = Inr (length data, m', s') \<and>
     sent s' @ am_tx m' = sent s @ am_tx m @ data \<and> am_open m' = am_open m \<and>
     am_fds m' = map (\<lambda>_. am_tx m' \<noteq> []) (am_fds m)"
  using write_loop [of "am_tx m @ data" s]
  by (auto simp: am_writeData_def writeAvailable_def)

lemma write_again:
  "\<exists>m' s'. writeAvailable ops m s = Inr (m', s') \<and>
     sent s' @ am_tx m' = sent s @ am_tx m \<and> am_open m' = am_open m \<and>
     am_fds m' = map (\<lambda>_. am_tx m' \<noteq> []) (am_fds m)"
  using write_loop [of "am_tx m" s] by (auto simp: writeAvailable_def)

end

text \<open>A device that takes \<open>wr_room\<close> more bytes until it answers that it would block.\<close>

record wire =
  wr_in :: "u8 list"
  wr_sent :: "u8 list"
  wr_room :: nat

definition wire_write :: "u8 list \<Rightarrow> wire \<Rightarrow> int \<times> wire" where
  "wire_write buf w =
     (let n = min (wr_room w) (length buf)
      in (if n = 0 then - 11 else int n,
          w\<lparr>wr_sent := wr_sent w @ take n buf, wr_room := wr_room w - n\<rparr>))"

definition wire_ops :: "wire raw_midi" where
  "wire_ops = \<lparr>rm_open = (\<lambda>_ w. (True, w)), rm_in_events = (\<lambda>_. [True]),
     rm_out_events = (\<lambda>_. [True]),
     rm_read = (\<lambda>n w. (take n (wr_in w), w\<lparr>wr_in := drop n (wr_in w)\<rparr>)),
     rm_write = wire_write\<rparr>"

interpretation wire: raw_device wire_ops wr_sent wr_in
  by unfold_locales (auto simp: wire_ops_def wire_write_def Let_def min_def split: if_splits)

section \<open>Chunks\<close>

lemma parse_bytes_append:
  "parse_bytes lib chans (xs @ ys) p =
     rbind (parse_bytes lib chans xs p) (\<lambda>(a, p1).
     rbind (parse_bytes lib chans ys p1) (\<lambda>(b, p2). Inr (a @ b, p2)))"
proof (induction xs arbitrary: p)
  case Nil
  then show ?case by (cases "parse_bytes lib chans ys p") auto
next
  case (Cons x xs)
  obtain m p1 where m: "ml_Parse lib x p = (m, p1)" by (metis surj_pair)
  show ?case
    by (cases "case m of None \<Rightarrow> Inr [] | Some m \<Rightarrow> dispatch lib chans m";
        cases "parse_bytes lib chans xs p1")
      (auto simp: m Cons.IH rbind_def split: sum.splits)
qed

lemma read_rounds_parse:
  "read_rounds lib chans data p m =
     rbind (parse_bytes lib chans (data @ am_rx m) p) (\<lambda>(sgs, p'). Inr (sgs, p', m\<lparr>am_rx := []\<rparr>))"
proof (induction "length (am_rx m)" arbitrary: data p m rule: less_induct)
  case less
  let ?n = "if length (am_rx m) > 64 then 64 else length (am_rx m)"
  show ?case
  proof (cases "am_rx m = []")
    case True
    then have "m\<lparr>am_rx := []\<rparr> = m" by simp
    then show ?thesis using True
      by (subst read_rounds.simps)
        (simp add: am_readData_def Let_def split_beta)
  next
    case False
    let ?m = "m\<lparr>am_rx := drop ?n (am_rx m)\<rparr>"
    have lt: "length (am_rx ?m) < length (am_rx m)" using False by auto
    have ih: "read_rounds lib chans (take ?n (am_rx m)) p1 ?m =
        rbind (parse_bytes lib chans (am_rx m) p1) (\<lambda>(sgs, p'). Inr (sgs, p', m\<lparr>am_rx := []\<rparr>))" for p1
      using less [OF lt, of "take ?n (am_rx m)" p1] by simp
    have "read_rounds lib chans data p m = rbind (parse_bytes lib chans data p) (\<lambda>(sgs, p1).
        rbind (read_rounds lib chans (take ?n (am_rx m)) p1 ?m) (\<lambda>(sgs', p2, m2). Inr (sgs @ sgs', p2, m2)))"
      using False by (subst read_rounds.simps) (simp add: am_readData_def Let_def)
    then show ?thesis unfolding ih parse_bytes_append
      by (auto simp: rbind_def split: sum.splits)
  qed
qed

lemma parser_readData_all:
  "am_open m \<Longrightarrow> mp_io mp \<Longrightarrow> parser_readData lib mp m =
     rbind (parse_bytes lib (mp_channels mp) (am_rx m) (mp_parser mp))
       (\<lambda>(sgs, p). Inr (sgs, mp\<lparr>mp_parser := p\<rparr>, m\<lparr>am_rx := []\<rparr>))"
  by (auto simp: parser_readData_def am_readData_def Let_def read_rounds_parse rbind_def
      split: sum.splits)

section \<open>Properties\<close>

datatype midi_out = Send_data "u8 list" | Writable

fun midi_out_step :: "'s raw_midi \<Rightarrow> midi_out \<Rightarrow> alsa_midi \<times> 's \<Rightarrow> (alsa_midi \<times> 's) res" where
  "midi_out_step ops (Send_data data) (m, s) =
     rbind (am_writeData ops data m s) (\<lambda>(_, m1, s1). Inr (m1, s1))"
| "midi_out_step ops Writable (m, s) = writeAvailable ops m s"

fun midi_out_run :: "'s raw_midi \<Rightarrow> midi_out list \<Rightarrow> alsa_midi \<times> 's \<Rightarrow> (alsa_midi \<times> 's) res" where
  "midi_out_run ops [] st = Inr st"
| "midi_out_run ops (ev # evs) st = rbind (midi_out_step ops ev st) (midi_out_run ops evs)"

definition sent_data :: "midi_out list \<Rightarrow> u8 list" where
  "sent_data evs = concat (map (\<lambda>ev. case ev of Send_data d \<Rightarrow> d | Writable \<Rightarrow> []) evs)"

lemma midi_out_step_fifo:
  assumes "raw_device ops sent inp"
  shows "\<exists>m' s'. midi_out_step ops ev (m, s) = Inr (m', s') \<and>
    sent s' @ am_tx m' = sent s @ am_tx m @ sent_data [ev] \<and>
    am_fds m' = map (\<lambda>_. am_tx m' \<noteq> []) (am_fds m)"
proof (cases ev)
  case (Send_data data)
  obtain m' s' where "am_writeData ops data m s = Inr (length data, m', s')"
    "sent s' @ am_tx m' = sent s @ am_tx m @ data" "am_fds m' = map (\<lambda>_. am_tx m' \<noteq> []) (am_fds m)"
    using raw_device.write_data [OF assms] by blast
  then show ?thesis by (simp add: Send_data sent_data_def)
next
  case Writable
  obtain m' s' where "writeAvailable ops m s = Inr (m', s')"
    "sent s' @ am_tx m' = sent s @ am_tx m" "am_fds m' = map (\<lambda>_. am_tx m' \<noteq> []) (am_fds m)"
    using raw_device.write_again [OF assms] by blast
  then show ?thesis by (simp add: Writable sent_data_def)
qed

text \<open>
  C37. The way out is a queue: however the messages to the port and the device's readiness
  alternate, every loop ends, the bytes the device has taken followed by the bytes still queued
  are those of the messages in their order, and after any event the write notifiers are enabled
  exactly when bytes are queued.
\<close>

theorem midi_output_is_fifo:
  assumes "raw_device ops sent inp"
  shows "\<exists>m' s'. midi_out_run ops evs (m, s) = Inr (m', s') \<and>
    sent s' @ am_tx m' = sent s @ am_tx m @ sent_data evs \<and>
    length (am_fds m') = length (am_fds m) \<and>
    (evs \<noteq> [] \<longrightarrow> am_fds m' = replicate (length (am_fds m)) (am_tx m' \<noteq> []))"
proof (induction evs arbitrary: m s)
  case Nil
  then show ?case by (simp add: sent_data_def)
next
  case (Cons ev evs)
  obtain m1 s1 where 1: "midi_out_step ops ev (m, s) = Inr (m1, s1)"
    "sent s1 @ am_tx m1 = sent s @ am_tx m @ sent_data [ev]"
    "am_fds m1 = map (\<lambda>_. am_tx m1 \<noteq> []) (am_fds m)"
    using midi_out_step_fifo [OF assms] by blast
  obtain m2 s2 where 2: "midi_out_run ops evs (m1, s1) = Inr (m2, s2)"
    "sent s2 @ am_tx m2 = sent s1 @ am_tx m1 @ sent_data evs"
    "length (am_fds m2) = length (am_fds m1)"
    "evs \<noteq> [] \<longrightarrow> am_fds m2 = replicate (length (am_fds m1)) (am_tx m2 \<noteq> [])"
    using Cons.IH by blast
  have "sent s2 @ am_tx m2 = sent s @ am_tx m @ sent_data (ev # evs)"
    using 1(2) 2(2) by (simp add: sent_data_def flip: append_assoc)
  moreover have "am_fds m2 = replicate (length (am_fds m)) (am_tx m2 \<noteq> [])"
    using 1(3) 2 by (cases evs) (auto simp: map_replicate_const)
  ultimately show ?case using 1(1) 2(1) by auto
qed

theorem midi_output_is_fifo_witness:
  "\<exists>m' s'. midi_out_run wire_ops [Send_data [0xB0, 1, 2], Writable, Send_data [0xB0, 3, 4]]
      (AlsaMidi\<lparr>am_open := True, am_fds := [False]\<rparr>, \<lparr>wr_in = [], wr_sent = [], wr_room = 4\<rparr>) = Inr (m', s') \<and>
    wr_sent s' @ am_tx m' = [0xB0, 1, 2, 0xB0, 3, 4]"
  using midi_output_is_fifo [OF wire.raw_device_axioms,
      of "[Send_data [0xB0, 1, 2], Writable, Send_data [0xB0, 3, 4]]"
        "AlsaMidi\<lparr>am_open := True, am_fds := [False]\<rparr>" "\<lparr>wr_in = [], wr_sent = [], wr_room = 4\<rparr>"]
  by (auto simp: sent_data_def AlsaMidi_def)


text \<open>A parser that knows three-byte messages only, to run the examples.\<close>

definition three_byte_lib :: "(u8 list, u8 list) midi_lib" where
  "three_byte_lib = \<lparr>ml_Parse = (\<lambda>b p. if length p = 2 then (Some (p @ [b]), []) else (None, p @ [b])),
     ml_IsChannelMsg = (\<lambda>_. True), ml_GetChannel = (\<lambda>m. unat (hd m AND 0x0F)),
     ml_IsNoteOn = (\<lambda>_. False), ml_IsNoteOff = (\<lambda>_. False), ml_IsPolyPressure = (\<lambda>_. False),
     ml_IsControlChange = (\<lambda>m. hd m AND 0xF0 = 0xB0), ml_IsProgramChange = (\<lambda>_. False),
     ml_IsChannelPressure = (\<lambda>_. False), ml_IsPitchBend = (\<lambda>_. False), ml_IsMTC = (\<lambda>_. False),
     ml_IsSongSelect = (\<lambda>_. False), ml_IsSongPosition = (\<lambda>_. False),
     ml_IsTuneRequest = (\<lambda>_. False), ml_GetNote = (\<lambda>_. 0), ml_GetVelocity = (\<lambda>_. 0),
     ml_GetController = (\<lambda>m. uint (m ! 1)), ml_GetControllerValue = (\<lambda>m. uint (m ! 2)),
     ml_GetPGValue = (\<lambda>_. 0), ml_GetChannelPressure = (\<lambda>_. 0), ml_GetBenderValue = (\<lambda>_. 0),
     ml_GetByte1 = (\<lambda>_. 0)\<rparr>"


end
