(* ===== verification/Control_Surface.thy ===== *)
theory Control_Surface
  imports Midi
begin

text \<open>
  \<open>controlsurface.h\<close> and \<open>controlsurface.cpp\<close>: the base class of the control surfaces, and the
  table of the switches and lamps of the MotorMix from \<open>motormix.cpp\<close>.

  The virtual functions of the class are the locale \<open>control_surface\<close>, with what the base class
  and the engine expect of them; the MotorMix is its interpretation, in \<open>Motor_Mix\<close>.
\<close>

section \<open>The base class\<close>

record surface =
  controlvalues :: "int list"

text \<open>The conversion of an \<open>int\<close> to an \<open>unsigned int\<close>.\<close>

definition to_unsigned :: "int \<Rightarrow> nat" where
  "to_unsigned i = nat (i mod 2 ^ 32)"

definition ControlSurface :: "nat \<Rightarrow> int list" where
  "ControlSurface num_controls = replicate num_controls 0"

definition numberOfControls :: "'a surface_scheme \<Rightarrow> nat" where
  "numberOfControls s = length (controlvalues s)"

text \<open>The result names the control for which \<open>controlChanged\<close> is emitted.\<close>

definition controlValueChanged :: "nat \<Rightarrow> int \<Rightarrow> 'a surface_scheme \<Rightarrow>
    'a surface_scheme \<times> nat option" where
  "controlValueChanged control value s =
     (if control < length (controlvalues s)
      then (s\<lparr>controlvalues := (controlvalues s)[control := value]\<rparr>, Some control)
      else (s, None))"

definition getControlValue :: "nat \<Rightarrow> 'a surface_scheme \<Rightarrow> int" where
  "getControlValue control s =
     (if control < length (controlvalues s) then controlvalues s ! control else - 1)"

text \<open>What \<open>controlParameters\<close> reports: name, minimum, maximum, steps and indicator states.\<close>

type_synonym parameters = "string \<times> int \<times> int \<times> int \<times> nat"

definition setControlState :: "(nat \<Rightarrow> 's \<Rightarrow> parameters option) \<Rightarrow>
    (nat \<Rightarrow> nat \<Rightarrow> 's \<Rightarrow> bool \<times> 's) \<Rightarrow> nat \<Rightarrow> nat \<Rightarrow> 's \<Rightarrow> 's" where
  "setControlState params setctl control value s = (case params control s of
     None \<Rightarrow> s
   | Some (name, mn, mx, steps, states) \<Rightarrow>
       if value < states then snd (setctl control value s) else s)"

definition base_connectMidi :: bool where
  "base_connectMidi = False"

definition disconnectFromSurface :: "nat \<Rightarrow> 's \<Rightarrow> 's" where
  "disconnectFromSurface control s = s"

locale control_surface =
  fixes controls :: "'s \<Rightarrow> nat"
    and params :: "nat \<Rightarrow> 's \<Rightarrow> parameters option"
    and setctl :: "nat \<Rightarrow> nat \<Rightarrow> 's \<Rightarrow> bool \<times> 's"
  assumes params_range: "params c s \<noteq> None \<longleftrightarrow> c < controls s"
    and set_range: "\<not> c < controls s \<Longrightarrow> setctl c v s = (False, s)"
    and set_accepts: "params c s = Some (name, mn, mx, steps, states) \<Longrightarrow> v < states \<Longrightarrow>
      fst (setctl c v s)"
    and set_keeps: "controls (snd (setctl c v s)) = controls s"
    and set_params: "params c' (snd (setctl c v s)) = params c' s"
begin

text \<open>
  \<open>setControlState\<close> drops what the surface would refuse: it either leaves the surface alone or
  makes a call that succeeds.
\<close>

lemma set_state_accepted:
  "setControlState params setctl c v s = s \<or>
   (c < controls s \<and> setctl c v s = (True, setControlState params setctl c v s))"
proof (cases "params c s")
  case (Some p)
  obtain name mn mx steps states where p: "p = (name, mn, mx, steps, states)" by (cases p)
  have "c < controls s" using params_range [of c s] Some by simp
  then show ?thesis using set_accepts [of c s name mn mx steps states v] Some p
    by (cases "setctl c v s") (auto simp: setControlState_def)
qed (simp add: setControlState_def)

lemma set_state_keeps:
  "controls (setControlState params setctl c v s) = controls s"
  using set_state_accepted [of c v s] set_keeps [of c v s] by auto

end

section \<open>The switches of the MotorMix\<close>

datatype control = Control
  (ctrl1_number: int) (cntrl1_value: int) (cntrl2_number: int) (cntrl2_pressed: int)
  (cntrl2_released: int) (led_ctl1_number: int) (led_ctl1_value: int) (led_ctl2_number: int)
  (led_ctl2_off: int) (led_ctl2_on: int) (led_ctl2_blink: int)
  (control_name: string) (control_min: int) (control_max: int) (control_steps: int)
  (indicatorStates: int)

definition switches :: "control list" where
  "switches = [
     Control 0x0F 0x00 0x2F 0x40 0x00 0x00 0x00 0x00 0x00 0x00 0x00 ''Fader Touch [0]'' 0 1 2 0,
     Control 0x0F 0x01 0x2F 0x40 0x00 0x00 0x00 0x00 0x00 0x00 0x00 ''Fader Touch [1]'' 0 1 2 0,
     Control 0x0F 0x02 0x2F 0x40 0x00 0x00 0x00 0x00 0x00 0x00 0x00 ''Fader Touch [2]'' 0 1 2 0,
     Control 0x0F 0x03 0x2F 0x40 0x00 0x00 0x00 0x00 0x00 0x00 0x00 ''Fader Touch [3]'' 0 1 2 0,
     Control 0x0F 0x04 0x2F 0x40 0x00 0x00 0x00 0x00 0x00 0x00 0x00 ''Fader Touch [4]'' 0 1 2 0,
     Control 0x0F 0x05 0x2F 0x40 0x00 0x00 0x00 0x00 0x00 0x00 0x00 ''Fader Touch [5]'' 0 1 2 0,
     Control 0x0F 0x06 0x2F 0x40 0x00 0x00 0x00 0x00 0x00 0x00 0x00 ''Fader Touch [6]'' 0 1 2 0,
     Control 0x0F 0x07 0x2F 0x40 0x00 0x00 0x00 0x00 0x00 0x00 0x00 ''Fader Touch [7]'' 0 1 2 0,
     Control 0x0F 0x00 0x2F 0x41 0x01 0x0C 0x00 0x2C 0x01 0x41 0x51 ''Select [0]'' 0 1 2 3,
     Control 0x0F 0x01 0x2F 0x41 0x01 0x0C 0x01 0x2C 0x01 0x41 0x51 ''Select [1]'' 0 1 2 3,
     Control 0x0F 0x02 0x2F 0x41 0x01 0x0C 0x02 0x2C 0x01 0x41 0x51 ''Select [2]'' 0 1 2 3,
     Control 0x0F 0x03 0x2F 0x41 0x01 0x0C 0x03 0x2C 0x01 0x41 0x51 ''Select [3]'' 0 1 2 3,
     Control 0x0F 0x04 0x2F 0x41 0x01 0x0C 0x04 0x2C 0x01 0x41 0x51 ''Select [4]'' 0 1 2 3,
     Control 0x0F 0x05 0x2F 0x41 0x01 0x0C 0x05 0x2C 0x01 0x41 0x51 ''Select [5]'' 0 1 2 3,
     Control 0x0F 0x06 0x2F 0x41 0x01 0x0C 0x06 0x2C 0x01 0x41 0x51 ''Select [6]'' 0 1 2 3,
     Control 0x0F 0x07 0x2F 0x41 0x01 0x0C 0x07 0x2C 0x01 0x41 0x51 ''Select [7]'' 0 1 2 3,
     Control 0x0F 0x00 0x2F 0x42 0x02 0x0C 0x00 0x2C 0x02 0x42 0x52 ''Mute [0]'' 0 1 2 3,
     Control 0x0F 0x01 0x2F 0x42 0x02 0x0C 0x01 0x2C 0x02 0x42 0x52 ''Mute [1]'' 0 1 2 3,
     Control 0x0F 0x02 0x2F 0x42 0x02 0x0C 0x02 0x2C 0x02 0x42 0x52 ''Mute [2]'' 0 1 2 3,
     Control 0x0F 0x03 0x2F 0x42 0x02 0x0C 0x03 0x2C 0x02 0x42 0x52 ''Mute [3]'' 0 1 2 3,
     Control 0x0F 0x04 0x2F 0x42 0x02 0x0C 0x04 0x2C 0x02 0x42 0x52 ''Mute [4]'' 0 1 2 3,
     Control 0x0F 0x05 0x2F 0x42 0x02 0x0C 0x05 0x2C 0x02 0x42 0x52 ''Mute [5]'' 0 1 2 3,
     Control 0x0F 0x06 0x2F 0x42 0x02 0x0C 0x06 0x2C 0x02 0x42 0x52 ''Mute [6]'' 0 1 2 3,
     Control 0x0F 0x07 0x2F 0x42 0x02 0x0C 0x07 0x2C 0x02 0x42 0x52 ''Mute [7]'' 0 1 2 3,
     Control 0x0F 0x00 0x2F 0x43 0x03 0x0C 0x00 0x2C 0x03 0x43 0x53 ''Solo [0]'' 0 1 2 3,
     Control 0x0F 0x01 0x2F 0x43 0x03 0x0C 0x01 0x2C 0x03 0x43 0x53 ''Solo [1]'' 0 1 2 3,
     Control 0x0F 0x02 0x2F 0x43 0x03 0x0C 0x02 0x2C 0x03 0x43 0x53 ''Solo [2]'' 0 1 2 3,
     Control 0x0F 0x03 0x2F 0x43 0x03 0x0C 0x03 0x2C 0x03 0x43 0x53 ''Solo [3]'' 0 1 2 3,
     Control 0x0F 0x04 0x2F 0x43 0x03 0x0C 0x04 0x2C 0x03 0x43 0x53 ''Solo [4]'' 0 1 2 3,
     Control 0x0F 0x05 0x2F 0x43 0x03 0x0C 0x05 0x2C 0x03 0x43 0x53 ''Solo [5]'' 0 1 2 3,
     Control 0x0F 0x06 0x2F 0x43 0x03 0x0C 0x06 0x2C 0x03 0x43 0x53 ''Solo [6]'' 0 1 2 3,
     Control 0x0F 0x07 0x2F 0x43 0x03 0x0C 0x07 0x2C 0x03 0x43 0x53 ''Solo [7]'' 0 1 2 3,
     Control 0x0F 0x00 0x2F 0x44 0x04 0x0C 0x00 0x2C 0x04 0x44 0x54 ''Multi [0]'' 0 1 2 3,
     Control 0x0F 0x01 0x2F 0x44 0x04 0x0C 0x01 0x2C 0x04 0x44 0x54 ''Multi [1]'' 0 1 2 3,
     Control 0x0F 0x02 0x2F 0x44 0x04 0x0C 0x02 0x2C 0x04 0x44 0x54 ''Multi [2]'' 0 1 2 3,
     Control 0x0F 0x03 0x2F 0x44 0x04 0x0C 0x03 0x2C 0x04 0x44 0x54 ''Multi [3]'' 0 1 2 3,
     Control 0x0F 0x04 0x2F 0x44 0x04 0x0C 0x04 0x2C 0x04 0x44 0x54 ''Multi [4]'' 0 1 2 3,
     Control 0x0F 0x05 0x2F 0x44 0x04 0x0C 0x05 0x2C 0x04 0x44 0x54 ''Multi [5]'' 0 1 2 3,
     Control 0x0F 0x06 0x2F 0x44 0x04 0x0C 0x06 0x2C 0x04 0x44 0x54 ''Multi [6]'' 0 1 2 3,
     Control 0x0F 0x07 0x2F 0x44 0x04 0x0C 0x07 0x2C 0x04 0x44 0x54 ''Multi [7]'' 0 1 2 3,
     Control 0x0F 0x00 0x2F 0x45 0x05 0x0C 0x00 0x2C 0x05 0x45 0x55 ''Rdy [0]'' 0 1 2 3,
     Control 0x0F 0x01 0x2F 0x45 0x05 0x0C 0x01 0x2C 0x05 0x45 0x55 ''Rdy [1]'' 0 1 2 3,
     Control 0x0F 0x02 0x2F 0x45 0x05 0x0C 0x02 0x2C 0x05 0x45 0x55 ''Rdy [2]'' 0 1 2 3,
     Control 0x0F 0x03 0x2F 0x45 0x05 0x0C 0x03 0x2C 0x05 0x45 0x55 ''Rdy [3]'' 0 1 2 3,
     Control 0x0F 0x04 0x2F 0x45 0x05 0x0C 0x04 0x2C 0x05 0x45 0x55 ''Rdy [4]'' 0 1 2 3,
     Control 0x0F 0x05 0x2F 0x45 0x05 0x0C 0x05 0x2C 0x05 0x45 0x55 ''Rdy [5]'' 0 1 2 3,
     Control 0x0F 0x06 0x2F 0x45 0x05 0x0C 0x06 0x2C 0x05 0x45 0x55 ''Rdy [6]'' 0 1 2 3,
     Control 0x0F 0x07 0x2F 0x45 0x05 0x0C 0x07 0x2C 0x05 0x45 0x55 ''Rdy [7]'' 0 1 2 3,
     Control 0x0F 0x08 0x2F 0x40 0x00 0x0C 0x08 0x2C 0x00 0x40 0x50 ''Shift'' 0 1 2 3,
     Control 0x0F 0x08 0x2F 0x41 0x01 0x0C 0x08 0x2C 0x01 0x41 0x51 ''Undo'' 0 1 2 3,
     Control 0x0F 0x08 0x2F 0x42 0x02 0x0C 0x08 0x2C 0x02 0x42 0x52 ''Default'' 0 1 2 3,
     Control 0x0F 0x08 0x2F 0x43 0x03 0x0C 0x08 0x2C 0x03 0x43 0x53 ''All'' 0 1 2 3,
     Control 0x0F 0x08 0x2F 0x44 0x04 0x0C 0x08 0x2C 0x04 0x44 0x54 ''Window'' 0 1 2 3,
     Control 0x0F 0x08 0x2F 0x45 0x05 0x0C 0x08 0x2C 0x05 0x45 0x55 ''Plugin'' 0 1 2 3,
     Control 0x0F 0x08 0x2F 0x46 0x06 0x0C 0x08 0x2C 0x06 0x46 0x56 ''Suspend'' 0 1 2 3,
     Control 0x0F 0x08 0x2F 0x47 0x07 0x0C 0x08 0x2C 0x07 0x47 0x57 ''Auto Enable'' 0 1 2 3,
     Control 0x0F 0x09 0x2F 0x40 0x00 0x0C 0x09 0x2C 0x00 0x40 0x50 ''Escape'' 0 1 2 3,
     Control 0x0F 0x09 0x2F 0x41 0x01 0x0C 0x09 0x2C 0x01 0x41 0x51 ''Enter'' 0 1 2 3,
     Control 0x0F 0x09 0x2F 0x42 0x02 0x0C 0x09 0x2C 0x02 0x42 0x52 ''Last'' 0 1 2 3,
     Control 0x0F 0x09 0x2F 0x43 0x03 0x0C 0x09 0x2C 0x03 0x43 0x53 ''Next'' 0 1 2 3,
     Control 0x0F 0x09 0x2F 0x44 0x04 0x0C 0x09 0x2C 0x04 0x44 0x54 ''Rewind'' 0 1 2 3,
     Control 0x0F 0x09 0x2F 0x45 0x05 0x0C 0x09 0x2C 0x05 0x45 0x55 ''FFwd'' 0 1 2 3,
     Control 0x0F 0x09 0x2F 0x46 0x06 0x0C 0x09 0x2C 0x06 0x46 0x56 ''Stop'' 0 1 2 3,
     Control 0x0F 0x09 0x2F 0x47 0x07 0x0C 0x09 0x2C 0x07 0x47 0x57 ''Play'' 0 1 2 3,
     Control 0x0F 0x0A 0x2F 0x40 0x00 0x00 0x00 0x00 0x00 0x00 0x00 ''Left Arrow'' 0 1 2 0,
     Control 0x0F 0x0A 0x2F 0x41 0x01 0x00 0x00 0x00 0x00 0x00 0x00 ''Right Arrow'' 0 1 2 0,
     Control 0x0F 0x0A 0x2F 0x42 0x02 0x0C 0x0A 0x2C 0x00 0x40 0x50 ''Bank'' 0 1 2 3,
     Control 0x0F 0x0A 0x2F 0x43 0x03 0x0C 0x0A 0x2C 0x01 0x41 0x51 ''Group'' 0 1 2 3,
     Control 0x0F 0x0A 0x2F 0x44 0x04 0x0C 0x0A 0x2C 0x02 0x42 0x52 ''Record Rdy'' 0 1 2 3,
     Control 0x0F 0x0A 0x2F 0x45 0x05 0x0C 0x0A 0x2C 0x04 0x44 0x54 ''Write'' 0 1 2 3,
     Control 0x0F 0x0A 0x2F 0x46 0x06 0x0C 0x0A 0x2C 0x06 0x46 0x56 ''Burn'' 0 1 2 3,
     Control 0x00 0x00 0x00 0x00 0x00 0x0C 0x0A 0x2C 0x03 0x43 0x53 ''Funct A'' 0 0 0 3,
     Control 0x00 0x00 0x00 0x00 0x00 0x0C 0x0A 0x2C 0x05 0x45 0x55 ''Funct B'' 0 0 0 3,
     Control 0x00 0x00 0x00 0x00 0x00 0x0C 0x0A 0x2C 0x07 0x47 0x57 ''Funct C'' 0 0 0 3,
     Control 0x00 0x00 0x00 0x00 0x00 0x0C 0x0B 0x2C 0x01 0x41 0x51 ''Effect 1'' 0 0 0 3,
     Control 0x00 0x00 0x00 0x00 0x00 0x0C 0x0B 0x2C 0x03 0x43 0x53 ''Effect 2'' 0 0 0 3,
     Control 0x00 0x00 0x00 0x00 0x00 0x0C 0x0B 0x2C 0x05 0x45 0x55 ''Effect 3'' 0 0 0 3,
     Control 0x00 0x00 0x00 0x00 0x00 0x0C 0x0B 0x2C 0x07 0x47 0x57 ''Effect 4'' 0 0 0 3,
     Control 0x0F 0x0B 0x2F 0x40 0x00 0x0C 0x0B 0x2C 0x00 0x40 0x50 ''Fx-Bypass'' 0 1 2 3,
     Control 0x0F 0x0B 0x2F 0x41 0x01 0x0C 0x0B 0x2C 0x02 0x42 0x52 ''Send Mute'' 0 1 2 3,
     Control 0x0F 0x0B 0x2F 0x42 0x02 0x0C 0x0B 0x2C 0x04 0x44 0x54 ''PrePost'' 0 1 2 3,
     Control 0x0F 0x0B 0x2F 0x43 0x03 0x0C 0x0B 0x2C 0x06 0x46 0x56 ''Select'' 0 1 2 3]"

end
