(* ===== verification/Motor_Mix.thy ===== *)
theory Motor_Mix
  imports Control_Surface
begin

text \<open>
  \<open>motormix.h\<close> and \<open>motormix.cpp\<close>: the MotorMix control surface, with its keys (two MIDI messages
  each), its lamps, its display, and the lamps that show which heads are selected and active.

  The record extends that of the base class. What the constructor leaves uninitialised (the last
  four entries of \<open>headControls\<close>, the channel, the arrays of the heads) is taken from the argument
  \<open>junk\<close>. \<open>mm_out\<close> collects the messages as the channel hands them to the parser.
\<close>

section \<open>State\<close>

record motor_mix = surface +
  mm_engine :: bool \<comment> \<open>\<open>connectEngine\<close> was called\<close>
  mm_controllers :: "int \<times> int"
  mm_headControls :: "int list"
  mm_head_selected :: "bool list"
  mm_head_active :: "bool list"
  mm_head_state :: "int list"
  mm_channel :: "nat option"
  mm_timer :: "int option"
  mm_shift :: int
  mm_esc :: int
  mm_out :: "u8 list list"

definition displayCount :: nat where "displayCount = 1"

definition displayWidth :: nat where "displayWidth = 40"

definition displayHeight :: nat where "displayHeight = 2"

definition displayWidthPerChannel :: nat where "displayWidthPerChannel = 5"

definition numberOfChannels :: nat where "numberOfChannels = 8"

section \<open>Controls\<close>

text \<open>
  A constructed surface has exactly as many controls as the table has switches, so the test on
  the number of controls keeps the index inside the table; the model tests both.
\<close>

definition controlParameters :: "nat \<Rightarrow> 'a surface_scheme \<Rightarrow> parameters option" where
  "controlParameters control s =
     (if control < numberOfControls s \<and> control < length switches
      then (let c = switches ! control
            in Some (control_name c, control_min c, control_max c, control_steps c,
                     nat (indicatorStates c)))
      else None)"

text \<open>
  \<open>controlByName\<close> runs over the table; all its entries are controls of a constructed surface.
\<close>

definition controlByName :: "string \<Rightarrow> int" where
  "controlByName name = (case find_index (\<lambda>c. name = control_name c) switches of
     Some i \<Rightarrow> int i | None \<Rightarrow> - 1)"

definition send_out :: "u8 list \<Rightarrow> motor_mix \<Rightarrow> motor_mix" where
  "send_out data m = (case mm_channel m of
     None \<Rightarrow> m
   | Some ch \<Rightarrow> m\<lparr>mm_out := mm_out m @ [channel_send ch data]\<rparr>)"

definition lamp_code :: "control \<Rightarrow> nat \<Rightarrow> int" where
  "lamp_code c val = (if val = 0 then led_ctl2_off c else if val = 1 then led_ctl2_on c
                      else led_ctl2_blink c)"

definition lamp_message :: "control \<Rightarrow> nat \<Rightarrow> u8 list" where
  "lamp_message c val = [0xB0, of_int (led_ctl1_number c), of_int (led_ctl1_value c),
     of_int (led_ctl2_number c), of_int (lamp_code c val)]"

definition setControl :: "nat \<Rightarrow> nat \<Rightarrow> motor_mix \<Rightarrow> bool \<times> motor_mix" where
  "setControl control val m =
     (if control < numberOfControls m \<and> control < length switches then
        (if val < 3 then (True, send_out (lamp_message (switches ! control) val) m) else (False, m))
      else (False, m))"

definition MotorMix :: "motor_mix \<Rightarrow> motor_mix" where
  "MotorMix junk = junk\<lparr>controlvalues := ControlSurface (length switches), mm_engine := False,
     mm_controllers := (0, 0),
     mm_headControls := [controlByName ''Fx-Bypass'', controlByName ''Send Mute'',
       controlByName ''PrePost'', controlByName ''Select''] @ drop 4 (mm_headControls junk),
     mm_timer := None, mm_out := []\<rparr>"

definition connectMidi :: "nat option \<Rightarrow> motor_mix \<Rightarrow> bool \<times> motor_mix" where
  "connectMidi midi m = (midi \<noteq> None, m\<lparr>mm_channel := midi\<rparr>)"

section \<open>The display\<close>

definition text_bytes :: "string \<Rightarrow> u8 list" where
  "text_bytes cs = map (\<lambda>c. of_nat (of_char c)) cs"

definition displayWrite :: "nat \<Rightarrow> string \<Rightarrow> motor_mix \<Rightarrow> bool \<times> motor_mix" where
  "displayWrite position cs m =
     (mm_channel m \<noteq> None,
      send_out ([0xB0, 0xF0, 0x00, 0x01, 0x0F, 0x00, 0x11, 0x00, 0x10] @ [of_nat position] @
        text_bytes cs @ [0xF7]) m)"

definition messageTimeout :: "motor_mix \<Rightarrow> motor_mix" where
  "messageTimeout m = (snd (displayWrite 0 (replicate 40 CHR '' '') m))\<lparr>mm_timer := None\<rparr>"

definition message :: "string \<Rightarrow> int \<Rightarrow> motor_mix \<Rightarrow> motor_mix" where
  "message txt duration m =
     (let m1 = messageTimeout (m\<lparr>mm_timer := None\<rparr>);
          m2 = snd (displayWrite 0 (take 40 txt) m1)
      in m2\<lparr>mm_timer := Some duration\<rparr>)"

section \<open>The lamps of the heads\<close>

definition head_status :: "motor_mix \<Rightarrow> nat \<Rightarrow> int" where
  "head_status m i =
     (if mm_head_selected m ! i then 2 else if mm_head_active m ! i then 1 else 0)"

definition head_lamp :: "nat \<Rightarrow> motor_mix \<Rightarrow> motor_mix" where
  "head_lamp i m =
     (let hs = head_status m i; old = mm_head_state m ! i; c = to_unsigned (mm_headControls m ! i)
      in if hs \<noteq> old then
           (let m1 = (if hs = 1 \<and> old = 2 then snd (setControl c 0 m) else m);
                m2 = snd (setControl c (nat hs) m1)
            in m2\<lparr>mm_head_state := (mm_head_state m2)[i := hs]\<rparr>)
         else m)"

definition updateHeadStatus :: "motor_mix \<Rightarrow> motor_mix" where
  "updateHeadStatus m = fold head_lamp [0..<MAX_HEADS] m"

text \<open>The heads come from the signal mapper of \<open>connectEngine\<close>, which knows eight.\<close>

definition set_active :: "bool \<Rightarrow> nat \<Rightarrow> motor_mix \<Rightarrow> motor_mix res" where
  "set_active b h m = rbind (vec_at (mm_head_active m) h) (\<lambda>old.
     let m1 = m\<lparr>mm_head_active := (mm_head_active m)[h := b]\<rparr>
     in Inr (if old \<noteq> b then updateHeadStatus m1 else m1))"

definition headActive :: "nat \<Rightarrow> motor_mix \<Rightarrow> motor_mix res" where
  "headActive h m = set_active True h m"

definition headInactive :: "nat \<Rightarrow> motor_mix \<Rightarrow> motor_mix res" where
  "headInactive h m = set_active False h m"

definition headSelected :: "int \<Rightarrow> motor_mix \<Rightarrow> motor_mix" where
  "headSelected h m = updateHeadStatus
     (m\<lparr>mm_head_selected := map (\<lambda>i. h = int i) [0..<MAX_HEADS]\<rparr>)"

definition outputEffectSelected :: "int \<Rightarrow> motor_mix \<Rightarrow> motor_mix" where
  "outputEffectSelected effect m = m"

section \<open>The engine's side\<close>

definition connectEngine :: "motor_mix \<Rightarrow> motor_mix" where
  "connectEngine m =
     (let m1 = m\<lparr>mm_engine := True, mm_head_active := replicate MAX_HEADS False,
                 mm_head_selected := replicate MAX_HEADS False,
                 mm_head_state := replicate MAX_HEADS (- 1)\<rparr>;
          m2 = snd (displayWrite 0 (replicate 41 CHR '' '') m1);
          m3 = snd (displayWrite 40 (replicate 41 CHR '' '') m2);
          m4 = fold (\<lambda>i s. snd (setControl i 0 s)) [0..<numberOfControls m3] m3
      in m4\<lparr>mm_shift := controlByName ''Shift'', mm_esc := controlByName ''Escape''\<rparr>)"

section \<open>Keys\<close>

text \<open>\<open>controlChangedData\<close>: the heads for which \<open>headSelectionChanged\<close> is emitted.\<close>

definition controlChangedData :: "nat \<Rightarrow> motor_mix \<Rightarrow> motor_mix \<times> nat list" where
  "controlChangedData control m =
     (let shift = (getControlValue (to_unsigned (mm_shift m)) m \<noteq> 0);
          escape = (getControlValue (to_unsigned (mm_esc m)) m \<noteq> 0);
          m1 = snd (setControl (to_unsigned (mm_shift m)) (if shift then 1 else 0) m);
          m2 = snd (setControl (to_unsigned (mm_esc m)) (if escape then 1 else 0) m1)
      in (m2, if \<not> shift \<and> \<not> escape then
                (case find_index (\<lambda>c. int control = c) (take MAX_HEADS (mm_headControls m)) of
                   Some i \<Rightarrow> [i] | None \<Rightarrow> [])
              else []))"

text \<open>The first switch that the last two messages press or release.\<close>

definition key_matches :: "int \<Rightarrow> int \<Rightarrow> int \<Rightarrow> int \<Rightarrow> control \<Rightarrow> bool" where
  "key_matches c0 v0 c1 v1 sw \<longleftrightarrow> ctrl1_number sw = c0 \<and> cntrl1_value sw = v0 \<and>
     cntrl2_number sw = c1 \<and> (cntrl2_pressed sw = v1 \<or> cntrl2_released sw = v1)"

definition find_key :: "int \<Rightarrow> int \<Rightarrow> int \<Rightarrow> int \<Rightarrow> (nat \<times> bool) option" where
  "find_key c0 v0 c1 v1 = map_option (\<lambda>i. (i, cntrl2_pressed (switches ! i) = v1))
     (find_index (key_matches c0 v0 c1 v1) switches)"

definition midiControlValueChanged :: "int \<Rightarrow> int \<Rightarrow> motor_mix \<Rightarrow> (motor_mix \<times> nat list) res" where
  "midiControlValueChanged number val m =
     rbind (vec_at (controlvalues m) 0) (\<lambda>_.
     rbind (vec_at (controlvalues m) 1) (\<lambda>v0.
       let m1 = m\<lparr>mm_controllers := (snd (mm_controllers m), number),
                  controlvalues := (controlvalues m)[0 := v0, 1 := val]\<rparr>
       in case find_key (snd (mm_controllers m)) v0 number val of
            None \<Rightarrow> Inr (m1, [])
          | Some (i, pressed) \<Rightarrow>
              (case controlValueChanged i (if pressed then 1 else 0) m1 of
                 (m2, Some control) \<Rightarrow>
                   Inr (if mm_engine m2 then controlChangedData control m2 else (m2, []))
               | (m2, None) \<Rightarrow> Inr (m2, []))))"

end
