(* ===== verification/Motor_Mix_Lamps.thy ===== *)
theory Motor_Mix_Lamps
  imports Motor_Mix
begin

text \<open>
  The theorems on the MotorMix: it is a \<open>control_surface\<close>; its keys are recognised; the lamps of
  the four heads that have one show what the engine and the heads last reported.
\<close>

section \<open>The contract of the base class\<close>

lemma send_out_simps [simp]:
  "controlvalues (send_out d m) = controlvalues m"
  "mm_channel (send_out d m) = mm_channel m"
  "mm_headControls (send_out d m) = mm_headControls m"
  "mm_head_selected (send_out d m) = mm_head_selected m"
  "mm_head_active (send_out d m) = mm_head_active m"
  "mm_head_state (send_out d m) = mm_head_state m"
  "mm_shift (send_out d m) = mm_shift m" "mm_esc (send_out d m) = mm_esc m"
  "mm_engine (send_out d m) = mm_engine m" "mm_controllers (send_out d m) = mm_controllers m"
  by (simp_all add: send_out_def split: option.splits)

lemma setControl_simps [simp]:
  "controlvalues (snd (setControl c v m)) = controlvalues m"
  "mm_channel (snd (setControl c v m)) = mm_channel m"
  "mm_headControls (snd (setControl c v m)) = mm_headControls m"
  "mm_head_selected (snd (setControl c v m)) = mm_head_selected m"
  "mm_head_active (snd (setControl c v m)) = mm_head_active m"
  "mm_head_state (snd (setControl c v m)) = mm_head_state m"
  "mm_shift (snd (setControl c v m)) = mm_shift m" "mm_esc (snd (setControl c v m)) = mm_esc m"
  "mm_engine (snd (setControl c v m)) = mm_engine m"
  by (simp_all add: setControl_def)

lemma length_switches [simp]: "length switches = 82"
  by (simp add: switches_def)

lemma indicator_states: "c < 82 \<Longrightarrow> indicatorStates (switches ! c) \<le> 3"
proof -
  have "list_all (\<lambda>c. indicatorStates c \<le> 3) switches" by (simp add: switches_def)
  then show "c < 82 \<Longrightarrow> indicatorStates (switches ! c) \<le> 3" by (simp add: list_all_length)
qed

interpretation mix: control_surface "\<lambda>m. min (numberOfControls m) (length switches)"
  controlParameters setControl
proof unfold_locales
  fix c v c' :: nat and s :: motor_mix and name and mn mx steps :: int and states
  show "controlParameters c s \<noteq> None \<longleftrightarrow> c < min (numberOfControls s) (length switches)"
    by (simp add: controlParameters_def Let_def)
  show "\<not> c < min (numberOfControls s) (length switches) \<Longrightarrow> setControl c v s = (False, s)"
    by (auto simp: setControl_def)
  show "controlParameters c s = Some (name, mn, mx, steps, states) \<Longrightarrow> v < states \<Longrightarrow>
      fst (setControl c v s)"
    using indicator_states [of c]
    by (auto simp: controlParameters_def setControl_def Let_def split: if_splits)
  show "min (numberOfControls (snd (setControl c v s))) (length switches) =
      min (numberOfControls s) (length switches)"
    by (simp add: numberOfControls_def)
  show "controlParameters c' (snd (setControl c v s)) = controlParameters c' s"
    by (simp add: controlParameters_def numberOfControls_def)
qed

section \<open>Keys\<close>

definition has_key :: "control \<Rightarrow> bool" where
  "has_key c \<longleftrightarrow> ctrl1_number c = 15"

text \<open>
  No two switches send the same pair of messages: the number of a switch is different for every
  entry of the table (the lamps without a key get negative numbers), and a key sends 64 more when
  it is pressed than when it is released.
\<close>

definition switch_number :: "control \<Rightarrow> int" where
  "switch_number c = (if has_key c then cntrl1_value c * 256 + cntrl2_released c
     else - (led_ctl1_value c * 256 + led_ctl2_off c) - 1)"

lemma switch_numbers_distinct: "distinct (map switch_number switches)"
  by (simp add: switches_def switch_number_def has_key_def)

lemma key_codes:
  "c \<in> set switches \<Longrightarrow> has_key c \<Longrightarrow> cntrl2_number c = 47 \<and>
     cntrl2_pressed c = cntrl2_released c + 64 \<and> 0 \<le> cntrl2_released c \<and> cntrl2_released c < 64"
proof -
  have "list_all (\<lambda>c. has_key c \<longrightarrow> cntrl2_number c = 47 \<and>
     cntrl2_pressed c = cntrl2_released c + 64 \<and> 0 \<le> cntrl2_released c \<and> cntrl2_released c < 64) switches"
    by (simp add: switches_def has_key_def)
  then show "c \<in> set switches \<Longrightarrow> has_key c \<Longrightarrow> cntrl2_number c = 47 \<and>
     cntrl2_pressed c = cntrl2_released c + 64 \<and> 0 \<le> cntrl2_released c \<and> cntrl2_released c < 64"
    by (simp add: list_all_iff)
qed

lemma find_index_unique:
  "i < length xs \<Longrightarrow> P (xs ! i) \<Longrightarrow> (\<And>j. j < length xs \<Longrightarrow> P (xs ! j) \<Longrightarrow> j = i) \<Longrightarrow>
   find_index P xs = Some i"
  by (metis find_index_None_iff find_index_SomeD nth_mem option.exhaust)

lemma keys_are_unambiguous:
  assumes i: "i < 82" and k: "has_key (switches ! i)"
    and v: "v = cntrl2_pressed (switches ! i) \<or> v = cntrl2_released (switches ! i)"
  shows "find_key 15 (cntrl1_value (switches ! i)) 47 v =
    Some (i, v = cntrl2_pressed (switches ! i))"
proof -
  let ?c = "switches ! i"
  have c: "cntrl2_number ?c = 47" "cntrl2_pressed ?c = cntrl2_released ?c + 64"
    "0 \<le> cntrl2_released ?c" "cntrl2_released ?c < 64"
    using key_codes [OF _ k] i by simp_all
  have "find_index (key_matches 15 (cntrl1_value ?c) 47 v) switches = Some i"
  proof (rule find_index_unique)
    show "key_matches 15 (cntrl1_value ?c) 47 v ?c"
      using c k v by (auto simp: key_matches_def has_key_def)
    fix j assume j: "j < length switches" "key_matches 15 (cntrl1_value ?c) 47 v (switches ! j)"
    then have kj: "has_key (switches ! j)" by (simp add: key_matches_def has_key_def)
    have "cntrl2_pressed (switches ! j) = cntrl2_released (switches ! j) + 64"
      "0 \<le> cntrl2_released (switches ! j)" "cntrl2_released (switches ! j) < 64"
      using key_codes [OF _ kj] j(1) by simp_all
    then have "switch_number (switches ! j) = switch_number ?c"
      using c v j(2) k kj by (auto simp: key_matches_def switch_number_def)
    then show "j = i" using switch_numbers_distinct i j(1)
      by (auto simp: distinct_conv_nth)
  qed (simp add: i)
  then show ?thesis by (auto simp: find_key_def)
qed

lemma first_half_is_no_key: "find_key c0 v0 15 v1 = None"
proof -
  have "list_all (\<lambda>c. cntrl2_number c \<noteq> 15) switches" by (simp add: switches_def)
  then have "find_index (key_matches c0 v0 15 v1) switches = None"
    by (auto simp: find_index_None_iff key_matches_def list_all_iff)
  then show ?thesis by (simp add: find_key_def)
qed

section \<open>Lamps\<close>

definition has_lamp :: "control \<Rightarrow> bool" where
  "has_lamp c \<longleftrightarrow> led_ctl1_number c = 12"

definition lamp_number :: "control \<Rightarrow> int" where
  "lamp_number c = (if has_lamp c then led_ctl1_value c * 256 + led_ctl2_off c
     else - (cntrl1_value c * 256 + cntrl2_released c) - 1)"

lemma lamp_numbers_distinct: "distinct (map lamp_number switches)"
  by (simp add: switches_def lamp_number_def has_lamp_def)

definition lamp_ok :: "control \<Rightarrow> bool" where
  "lamp_ok c \<longleftrightarrow> (if has_lamp c
     then 0 \<le> led_ctl1_value c \<and> led_ctl1_value c < 12 \<and> 0 \<le> led_ctl2_off c \<and> led_ctl2_off c < 8 \<and>
       led_ctl2_on c = led_ctl2_off c + 64 \<and> led_ctl2_blink c = led_ctl2_off c + 80
     else led_ctl1_number c = 0)"

lemma lamps_ok: "c \<in> set switches \<Longrightarrow> lamp_ok c"
proof -
  have "list_all lamp_ok switches" by (simp add: switches_def lamp_ok_def has_lamp_def)
  then show "c \<in> set switches \<Longrightarrow> lamp_ok c" by (simp add: list_all_iff)
qed

lemma of_int_u8_inject:
  "0 \<le> a \<Longrightarrow> a < 256 \<Longrightarrow> 0 \<le> b \<Longrightarrow> b < 256 \<Longrightarrow> (of_int a :: u8) = of_int b \<longleftrightarrow> a = b"
  by (auto simp: word_of_int_eq_iff take_bit_int_eq_self)

text \<open>The messages of a lamp differ from those of every other lamp and from each other.\<close>

lemma lamp_message_inject:
  assumes j: "j < 82" and k: "k < 82" and l: "has_lamp (switches ! k)" and v: "v < 3" and w: "w < 3"
    and eq: "channel_send ch (lamp_message (switches ! j) v) = channel_send ch (lamp_message (switches ! k) w)"
  shows "j = k \<and> v = w"
proof -
  let ?j = "switches ! j" and ?k = "switches ! k"
  have oj: "lamp_ok ?j" and ok: "lamp_ok ?k" using lamps_ok j k by simp_all
  have e: "(of_int (led_ctl1_number ?j) :: u8) = of_int (led_ctl1_number ?k)"
    "(of_int (led_ctl1_value ?j) :: u8) = of_int (led_ctl1_value ?k)"
    "(of_int (lamp_code ?j v) :: u8) = of_int (lamp_code ?k w)"
    using eq by (simp_all add: channel_send_def lamp_message_def)
  have lj: "has_lamp ?j"
    using e(1) oj l by (auto simp: lamp_ok_def has_lamp_def split: if_splits)
  have cj: "0 \<le> lamp_code ?j v \<and> lamp_code ?j v < 256" and ck: "0 \<le> lamp_code ?k w \<and> lamp_code ?k w < 256"
    using oj ok lj l by (auto simp: lamp_ok_def lamp_code_def)
  have "led_ctl1_value ?j = led_ctl1_value ?k"
    using e(2) oj ok lj l by (auto simp: lamp_ok_def of_int_u8_inject)
  moreover have "lamp_code ?j v = lamp_code ?k w" using e(3) cj ck of_int_u8_inject by blast
  ultimately have "lamp_number ?j = lamp_number ?k \<and> v = w"
    using oj ok lj l v w by (auto simp: lamp_ok_def lamp_code_def lamp_number_def split: if_splits)
  then show ?thesis using lamp_numbers_distinct j k by (auto simp: distinct_conv_nth)
qed

text \<open>The values a lamp was set to, read off the messages on channel \<open>ch\<close>.\<close>

definition lamp_value :: "nat \<Rightarrow> nat \<Rightarrow> u8 list \<Rightarrow> nat list" where
  "lamp_value ch k msg = filter (\<lambda>v. msg = channel_send ch (lamp_message (switches ! k) v)) [0, 1, 2]"

definition lamp_values :: "nat \<Rightarrow> nat \<Rightarrow> u8 list list \<Rightarrow> nat list" where
  "lamp_values ch k out = concat (map (lamp_value ch k) out)"

lemma lamp_value_message:
  "j < 82 \<Longrightarrow> k < 82 \<Longrightarrow> has_lamp (switches ! k) \<Longrightarrow> v < 3 \<Longrightarrow>
   lamp_value ch k (channel_send ch (lamp_message (switches ! j) v)) = (if j = k then [v] else [])"
proof -
  assume a: "j < 82" "k < 82" "has_lamp (switches ! k)" "v < 3"
  have i: "channel_send ch (lamp_message (switches ! j) v) = channel_send ch (lamp_message (switches ! k) w)
      \<longleftrightarrow> j = k \<and> v = w" if "w < 3" for w
    using lamp_message_inject [OF a that] by auto
  have "lamp_value ch k (channel_send ch (lamp_message (switches ! j) v)) =
      filter (\<lambda>w. j = k \<and> v = w) [0, 1, 2]"
    unfolding lamp_value_def
  proof (rule filter_cong [OF refl])
    fix w :: nat assume "w \<in> set [0, 1, 2]"
    then have "w < 3" by auto
    then show "(channel_send ch (lamp_message (switches ! j) v) =
        channel_send ch (lamp_message (switches ! k) w)) = (j = k \<and> v = w)" by (rule i)
  qed
  moreover have "v = 0 \<or> v = 1 \<or> v = 2" using a(4) by auto
  ultimately show ?thesis by auto
qed

lemma lamp_value_long: "5 < length msg \<Longrightarrow> lamp_value ch k msg = []"
  by (auto simp: lamp_value_def channel_send_def lamp_message_def)

text \<open>The heads' lamps: \<open>Fx-Bypass\<close>, \<open>Send Mute\<close>, \<open>PrePost\<close> and \<open>Select\<close>.\<close>

lemma named_controls:
  "controlByName ''Fx-Bypass'' = 78" "controlByName ''Send Mute'' = 79"
  "controlByName ''PrePost'' = 80" "controlByName ''Select'' = 81"
  "controlByName ''Shift'' = 48" "controlByName ''Escape'' = 56"
  by (simp_all add: controlByName_def switches_def)

lemma has_lamp_heads: "i < 4 \<Longrightarrow> has_lamp (switches ! (78 + i))"
proof -
  have "list_all has_lamp (drop 78 switches)" by (simp add: switches_def has_lamp_def)
  then show "i < 4 \<Longrightarrow> has_lamp (switches ! (78 + i))" by (simp add: list_all_length)
qed

text \<open>
  A surface that was constructed and connected: four heads have a lamp, and what the constructor
  left in \<open>headControls\<close> for the other four names none of these lamps.
\<close>

definition connected :: "nat \<Rightarrow> motor_mix \<Rightarrow> bool" where
  "connected ch m \<longleftrightarrow> mm_channel m = Some ch \<and> length (controlvalues m) = 82 \<and>
     length (mm_headControls m) = 8 \<and> take 4 (mm_headControls m) = [78, 79, 80, 81] \<and>
     (\<forall>i. 4 \<le> i \<longrightarrow> i < 8 \<longrightarrow> to_unsigned (mm_headControls m ! i) \<notin> {78..81}) \<and>
     mm_shift m = 48 \<and> mm_esc m = 56 \<and> length (mm_head_selected m) = 8 \<and>
     length (mm_head_active m) = 8 \<and> length (mm_head_state m) = 8"

fun no_blink_to_on :: "nat list \<Rightarrow> bool" where
  "no_blink_to_on (a # b # vs) \<longleftrightarrow> \<not> (a = 2 \<and> b = 1) \<and> no_blink_to_on (b # vs)"
| "no_blink_to_on vs \<longleftrightarrow> True"

lemma no_blink_to_on_snoc:
  "vs \<noteq> [] \<Longrightarrow> no_blink_to_on (vs @ [v]) \<longleftrightarrow> no_blink_to_on vs \<and> \<not> (last vs = 2 \<and> v = 1)"
  by (induction vs rule: no_blink_to_on.induct) auto

text \<open>What the lamp of head \<open>i\<close> shows agrees with the record the surface keeps of it.\<close>

definition in_step :: "nat \<Rightarrow> motor_mix \<Rightarrow> bool" where
  "in_step ch m \<longleftrightarrow> (\<forall>i < 4. let vs = lamp_values ch (78 + i) (mm_out m); st = mm_head_state m ! i in
     vs \<noteq> [] \<and> no_blink_to_on vs \<and> st \<in> {- 1, 0, 1, 2} \<and> int (last vs) = (if st = - 1 then 0 else st))"

lemma lamp_values_setControl:
  assumes "mm_channel m = Some ch" and "length (controlvalues m) = 82"
    and "i < 4" and "v < 3"
  shows "lamp_values ch (78 + i) (mm_out (snd (setControl c v m))) =
    lamp_values ch (78 + i) (mm_out m) @ (if c = 78 + i then [v] else [])"
  using assms lamp_value_message [of c "78 + i" v ch] has_lamp_heads [of i]
  by (auto simp: setControl_def numberOfControls_def send_out_def lamp_values_def)

lemma headControls_nth:
  assumes "connected ch m" and "i < 8"
  shows "i < 4 \<Longrightarrow> to_unsigned (mm_headControls m ! i) = 78 + i"
    and "4 \<le> i \<Longrightarrow> to_unsigned (mm_headControls m ! i) \<notin> {78..81}"
proof -
  assume i: "i < 4"
  have "mm_headControls m ! i = take 4 (mm_headControls m) ! i" using i by simp
  also have "\<dots> = [78, 79, 80, 81] ! i" using assms(1) by (simp add: connected_def)
  finally show "to_unsigned (mm_headControls m ! i) = 78 + i"
    using i by (auto simp: to_unsigned_def numeral_eq_Suc less_Suc_eq)
qed (use assms in \<open>auto simp: connected_def\<close>)

lemma connected_setControl [simp]: "connected ch (snd (setControl c v m)) = connected ch m"
  by (simp add: connected_def)

lemma connected_state [simp]:
  "connected ch (m\<lparr>mm_head_state := (mm_head_state m)[i := x]\<rparr>) = connected ch m"
  by (simp add: connected_def)

lemma head_status_simps [simp]:
  "head_status (snd (setControl c v m)) i = head_status m i"
  "head_status (m\<lparr>mm_head_state := x\<rparr>) i = head_status m i"
  by (simp_all add: head_status_def)

lemma head_status_cases: "head_status m i = 0 \<or> head_status m i = 1 \<or> head_status m i = 2"
  by (simp add: head_status_def)

lemma head_lamp_values:
  assumes c: "connected ch m" and i: "i < 8" and j: "j < 4"
  shows "lamp_values ch (78 + j) (mm_out (head_lamp i m)) = lamp_values ch (78 + j) (mm_out m) @
    (if i = j \<and> head_status m i \<noteq> mm_head_state m ! i
     then (if head_status m i = 1 \<and> mm_head_state m ! i = 2 then [0] else []) @ [nat (head_status m i)]
     else [])"
proof -
  let ?c = "to_unsigned (mm_headControls m ! i)"
  have v: "nat (head_status m i) < 3" using head_status_cases [of m i] by auto
  have k: "mm_channel m = Some ch" "length (controlvalues m) = 82" using c by (simp_all add: connected_def)
  have hit: "?c = 78 + j \<longleftrightarrow> i = j"
    using headControls_nth [OF c i] j by (cases "i < 4") (auto simp: not_less)
  show ?thesis
  proof (cases "i = j")
    case True
    then have "?c = 78 + j" using hit by simp
    then show ?thesis using k v j True by (simp add: head_lamp_def Let_def lamp_values_setControl)
  next
    case False
    then have "?c \<noteq> 78 + j" using hit by simp
    then show ?thesis using k v j False by (simp add: head_lamp_def Let_def lamp_values_setControl)
  qed
qed

lemma head_lamp_state:
  assumes "connected ch m" and "i < 8"
  shows "connected ch (head_lamp i m)" "head_status (head_lamp i m) = head_status m"
    "mm_head_state (head_lamp i m) = (mm_head_state m)[i := head_status m i]"
    "mm_head_selected (head_lamp i m) = mm_head_selected m"
    "mm_head_active (head_lamp i m) = mm_head_active m"
proof -
  show st: "mm_head_state (head_lamp i m) = (mm_head_state m)[i := head_status m i]"
    by (cases "head_status m i = mm_head_state m ! i") (simp_all add: head_lamp_def Let_def)
  show sel: "mm_head_selected (head_lamp i m) = mm_head_selected m"
    and act: "mm_head_active (head_lamp i m) = mm_head_active m"
    by (simp_all add: head_lamp_def Let_def)
  show "head_status (head_lamp i m) = head_status m" by (simp add: head_status_def sel act fun_eq_iff)
  show "connected ch (head_lamp i m)" using assms by (auto simp: head_lamp_def Let_def connected_def)
qed

lemma head_lamp_in_step:
  assumes c: "connected ch m" and s: "in_step ch m" and i: "i < 8"
  shows "in_step ch (head_lamp i m)"
  unfolding in_step_def
proof (intro allI impI)
  fix j :: nat assume j: "j < 4"
  have len: "length (mm_head_state m) = 8" using c by (simp add: connected_def)
  let ?vs = "lamp_values ch (78 + j) (mm_out m)"
  have old: "?vs \<noteq> []" "no_blink_to_on ?vs" "mm_head_state m ! j \<in> {- 1, 0, 1, 2}"
    "int (last ?vs) = (if mm_head_state m ! j = - 1 then 0 else mm_head_state m ! j)"
    using s j by (auto simp: in_step_def Let_def)
  show "let vs = lamp_values ch (78 + j) (mm_out (head_lamp i m)); st = mm_head_state (head_lamp i m) ! j
     in vs \<noteq> [] \<and> no_blink_to_on vs \<and> st \<in> {- 1, 0, 1, 2} \<and> int (last vs) = (if st = - 1 then 0 else st)"
  proof (cases "i = j \<and> head_status m i \<noteq> mm_head_state m ! i")
    case False
    then have same: "(mm_head_state m)[i := head_status m i] ! j = mm_head_state m ! j"
      using j len by (cases "i = j") auto
    then show ?thesis using old False
      by (auto simp: head_lamp_values [OF c i j] head_lamp_state [OF c i] Let_def)
  next
    case True
    then have ij: "i = j" and ne: "head_status m j \<noteq> mm_head_state m ! j" by auto
    let ?hs = "head_status m j" and ?st = "mm_head_state m ! j"
    have lv: "lamp_values ch (78 + j) (mm_out (head_lamp i m)) =
        ?vs @ (if ?hs = 1 \<and> ?st = 2 then [0] else []) @ [nat ?hs]"
      using head_lamp_values [OF c i j] ij ne by simp
    have sv: "mm_head_state (head_lamp i m) ! j = ?hs"
      using ij i len head_lamp_state(3) [OF c i] by simp
    have nb: "no_blink_to_on (?vs @ [0, v])" if "v \<noteq> 2" for v
      using old no_blink_to_on_snoc [of "?vs @ [0]" v] no_blink_to_on_snoc [of ?vs 0] by simp
    have "no_blink_to_on (?vs @ (if ?hs = 1 \<and> ?st = 2 then [0] else []) @ [nat ?hs])"
    proof (cases "?hs = 1 \<and> ?st = 2")
      case False
      then have "\<not> (last ?vs = 2 \<and> nat ?hs = 1)"
        using old(3,4) head_status_cases [of m j] by (auto split: if_splits)
      then show ?thesis using False old no_blink_to_on_snoc [of ?vs "nat ?hs"] by auto
    qed (use nb [of 1] in simp)
    then show ?thesis using head_status_cases [of m j] unfolding lv sv Let_def by auto
  qed
qed

lemma update_in_step:
  assumes c: "connected ch m" and s: "in_step ch m"
  shows "connected ch (updateHeadStatus m) \<and> in_step ch (updateHeadStatus m) \<and>
    mm_head_state (updateHeadStatus m) = map (head_status m) [0..<8] \<and>
    mm_head_selected (updateHeadStatus m) = mm_head_selected m \<and>
    mm_head_active (updateHeadStatus m) = mm_head_active m"
proof -
  have "connected ch (fold head_lamp [0..<n] m) \<and> in_step ch (fold head_lamp [0..<n] m) \<and>
      head_status (fold head_lamp [0..<n] m) = head_status m \<and>
      mm_head_state (fold head_lamp [0..<n] m) = map (head_status m) [0..<n] @ drop n (mm_head_state m) \<and>
      mm_head_selected (fold head_lamp [0..<n] m) = mm_head_selected m \<and>
      mm_head_active (fold head_lamp [0..<n] m) = mm_head_active m" if "n \<le> 8" for n
    using that
  proof (induction n)
    case 0
    then show ?case using c s by simp
  next
    case (Suc n)
    let ?m = "fold head_lamp [0..<n] m"
    have ih: "connected ch ?m" "in_step ch ?m" "head_status ?m = head_status m"
      "mm_head_state ?m = map (head_status m) [0..<n] @ drop n (mm_head_state m)"
      "mm_head_selected ?m = mm_head_selected m" "mm_head_active ?m = mm_head_active m"
      using Suc by simp_all
    have n: "n < 8" and len: "length (mm_head_state m) = 8" using Suc.prems c by (auto simp: connected_def)
    have "(map (head_status m) [0..<n] @ drop n (mm_head_state m))[n := head_status m n] =
        map (head_status m) [0..<Suc n] @ drop (Suc n) (mm_head_state m)"
      using n len by (intro nth_equalityI) (auto simp: nth_append nth_list_update)
    then show ?case
      using ih head_lamp_state [OF ih(1) n] head_lamp_in_step [OF ih(1,2) n] by simp
  qed
  from this [of 8] show ?thesis using c by (simp add: updateHeadStatus_def MAX_HEADS_def connected_def)
qed

section \<open>Events\<close>

datatype mix_event =
    Head_selected int
  | Head_active nat
  | Head_inactive nat
  | Mix_message string int
  | Message_timeout
  | Midi_control int int

fun mix_step :: "mix_event \<Rightarrow> motor_mix \<Rightarrow> motor_mix res" where
  "mix_step (Head_selected h) m = Inr (headSelected h m)"
| "mix_step (Head_active h) m = headActive h m"
| "mix_step (Head_inactive h) m = headInactive h m"
| "mix_step (Mix_message txt d) m = Inr (message txt d m)"
| "mix_step Message_timeout m = Inr (messageTimeout m)"
| "mix_step (Midi_control number val) m =
     rbind (midiControlValueChanged number val m) (\<lambda>(m', _). Inr m')"

fun mix_run :: "mix_event list \<Rightarrow> motor_mix \<Rightarrow> motor_mix res" where
  "mix_run [] m = Inr m"
| "mix_run (ev # evs) m = rbind (mix_step ev m) (mix_run evs)"

text \<open>
  The specification: the head that was selected last, and the heads whose last report was that
  they are active.
\<close>

fun report :: "mix_event \<Rightarrow> int option \<times> (nat \<Rightarrow> bool) \<Rightarrow> int option \<times> (nat \<Rightarrow> bool)" where
  "report (Head_selected h) (sel, act) = (Some h, act)"
| "report (Head_active h) (sel, act) = (sel, act(h := True))"
| "report (Head_inactive h) (sel, act) = (sel, act(h := False))"
| "report _ st = st"

definition reported :: "mix_event list \<Rightarrow> int option \<times> (nat \<Rightarrow> bool)" where
  "reported evs = fold report evs (None, \<lambda>_. False)"

definition wanted_lamp :: "int option \<times> (nat \<Rightarrow> bool) \<Rightarrow> nat \<Rightarrow> nat" where
  "wanted_lamp st i = (if fst st = Some (int i) then 2 else if snd st i then 1 else 0)"

text \<open>The surface represents a specification state.\<close>

definition represents :: "nat \<Rightarrow> motor_mix \<Rightarrow> int option \<times> (nat \<Rightarrow> bool) \<Rightarrow> bool" where
  "represents ch m st \<longleftrightarrow> connected ch m \<and> in_step ch m \<and>
     (\<forall>i < 8. mm_head_selected m ! i = (fst st = Some (int i)) \<and> mm_head_active m ! i = snd st i) \<and>
     (\<forall>i < 8. mm_head_state m ! i = head_status m i \<or> mm_head_state m ! i = - 1 \<and> head_status m i = 0)"

lemma represents_lamp:
  assumes "represents ch m st" and "i < 4"
  shows "last (lamp_values ch (78 + i) (mm_out m)) = wanted_lamp st i \<and>
    no_blink_to_on (lamp_values ch (78 + i) (mm_out m))"
proof -
  have "int (wanted_lamp st i) = head_status m i"
    using assms by (simp add: represents_def wanted_lamp_def head_status_def)
  moreover have st: "mm_head_state m ! i = head_status m i \<or>
      mm_head_state m ! i = - 1 \<and> head_status m i = 0"
    using assms by (simp add: represents_def)
  moreover have "no_blink_to_on (lamp_values ch (78 + i) (mm_out m)) \<and>
      int (last (lamp_values ch (78 + i) (mm_out m))) =
      (if mm_head_state m ! i = - 1 then 0 else mm_head_state m ! i)"
    using assms by (simp add: represents_def in_step_def Let_def)
  moreover have "head_status m i \<noteq> - 1" using head_status_cases [of m i] by auto
  ultimately show ?thesis by (auto split: if_splits)
qed

lemma represents_update:
  assumes "connected ch m" and "in_step ch m"
    and "\<forall>i < 8. mm_head_selected m ! i = (fst st = Some (int i)) \<and> mm_head_active m ! i = snd st i"
  shows "represents ch (updateHeadStatus m) st"
  using update_in_step [OF assms(1,2)] assms(3)
  by (auto simp: represents_def head_status_def)

lemma in_step_cong:
  "in_step ch m \<Longrightarrow> mm_out m' = mm_out m \<Longrightarrow> mm_head_state m' = mm_head_state m \<Longrightarrow> in_step ch m'"
  by (simp add: in_step_def)

lemma represents_set_active:
  assumes r: "represents ch m st" and h: "h < 8"
  shows "\<exists>m'. set_active b h m = Inr m' \<and> represents ch m' (fst st, (snd st)(h := b))"
proof -
  let ?m = "m\<lparr>mm_head_active := (mm_head_active m)[h := b]\<rparr>"
  have c: "connected ch m" "in_step ch m" and len: "length (mm_head_active m) = 8"
    using r by (simp_all add: represents_def connected_def)
  have c': "connected ch ?m" "in_step ch ?m"
    using c by (auto simp: connected_def elim: in_step_cong)
  have a: "\<forall>i < 8. mm_head_selected ?m ! i = (fst st = Some (int i)) \<and>
      mm_head_active ?m ! i = ((snd st)(h := b)) i"
    using r h len by (auto simp: represents_def nth_list_update)
  show ?thesis
  proof (cases "mm_head_active m ! h = b")
    case True
    have "(mm_head_active m)[h := b] = mm_head_active m"
      by (subst True [symmetric]) (rule list_update_id)
    then have "?m = m" by simp
    moreover have "(snd st)(h := b) = snd st" using True r h by (auto simp: represents_def)
    ultimately show ?thesis using True r h len by (simp add: set_active_def)
  next
    case False
    then show ?thesis using represents_update [OF c' , of "(fst st, (snd st)(h := b))"] a h len
      by (simp add: set_active_def)
  qed
qed

text \<open>Calls that write to the display or to the lamps of other controls do not touch the heads.\<close>

lemma represents_cong:
  assumes "represents ch m st" and "connected ch m'"
    and "\<And>i. i < 4 \<Longrightarrow> lamp_values ch (78 + i) (mm_out m') = lamp_values ch (78 + i) (mm_out m)"
    and "mm_head_state m' = mm_head_state m" and "mm_head_selected m' = mm_head_selected m"
    and "mm_head_active m' = mm_head_active m"
  shows "represents ch m' st"
proof -
  have "in_step ch m'" using assms by (simp add: represents_def in_step_def)
  moreover have "head_status m' = head_status m" using assms by (simp add: head_status_def fun_eq_iff)
  ultimately show ?thesis using assms by (simp add: represents_def)
qed

lemma represents_display:
  assumes "represents ch m st"
  shows "represents ch (snd (displayWrite pos txt m)) st"
proof (rule represents_cong [OF assms])
  have c: "connected ch m" using assms by (simp add: represents_def)
  then show "connected ch (snd (displayWrite pos txt m))"
    by (auto simp: displayWrite_def connected_def)
  fix i :: nat
  have "lamp_value ch (78 + i) (channel_send ch ([0xB0, 0xF0, 0x00, 0x01, 0x0F, 0x00, 0x11, 0x00, 0x10] @
      [of_nat pos] @ text_bytes txt @ [0xF7])) = []"
    by (rule lamp_value_long) (simp add: channel_send_def)
  then show "lamp_values ch (78 + i) (mm_out (snd (displayWrite pos txt m))) =
      lamp_values ch (78 + i) (mm_out m)"
    using c by (simp add: displayWrite_def send_out_def lamp_values_def connected_def)
qed (simp_all add: displayWrite_def)

lemma represents_timer [simp]: "represents ch (m\<lparr>mm_timer := t\<rparr>) st = represents ch m st"
  by (simp add: represents_def connected_def in_step_def head_status_def)

lemma represents_message:
  "represents ch m st \<Longrightarrow> represents ch (messageTimeout m) st"
  "represents ch m st \<Longrightarrow> represents ch (message txt d m) st"
  by (simp_all add: messageTimeout_def message_def Let_def represents_display)

lemma represents_other_lamp:
  assumes "represents ch m st" and "c \<notin> {78..81}" and "v < 3"
  shows "represents ch (snd (setControl c v m)) st"
proof (rule represents_cong [OF assms(1)])
  have c: "connected ch m" using assms(1) by (simp add: represents_def)
  then show "connected ch (snd (setControl c v m))" by simp
  fix i :: nat assume i: "i < 4"
  then show "lamp_values ch (78 + i) (mm_out (snd (setControl c v m))) = lamp_values ch (78 + i) (mm_out m)"
    using assms(2) c lamp_values_setControl [OF _ _ i assms(3), of m ch c] by (auto simp: connected_def)
qed simp_all

lemma represents_values:
  assumes "represents ch m st" and "length vs = 82"
  shows "represents ch (m\<lparr>controlvalues := vs\<rparr>) st" "represents ch (m\<lparr>mm_controllers := p\<rparr>) st"
  using assms by (auto simp: represents_def connected_def in_step_def head_status_def)

lemma controlChangedData_values [simp]: "controlvalues (fst (controlChangedData c m)) = controlvalues m"
  by (simp add: controlChangedData_def Let_def)

lemma represents_controlChanged:
  assumes "represents ch m st"
  shows "represents ch (fst (controlChangedData c m)) st"
proof -
  have "to_unsigned (mm_shift m) = 48" "to_unsigned (mm_esc m) = 56"
    using assms by (simp_all add: represents_def connected_def to_unsigned_def)
  then show ?thesis
    using assms by (simp add: controlChangedData_def Let_def represents_other_lamp)
qed

lemma represents_midi:
  assumes r: "represents ch m st"
  shows "\<exists>m' hs. midiControlValueChanged number val m = Inr (m', hs) \<and> represents ch m' st"
proof -
  have len: "length (controlvalues m) = 82" using r by (simp add: represents_def connected_def)
  let ?m = "m\<lparr>mm_controllers := (snd (mm_controllers m), number),
                  controlvalues := (controlvalues m)[0 := controlvalues m ! 1, 1 := val]\<rparr>"
  have 1: "represents ch ?m st"
    using represents_values(1) [OF represents_values(2) [OF r len], of "(controlvalues m)[0 := controlvalues m ! 1, 1 := val]"]
      len by simp
  show ?thesis
  proof (cases "find_key (snd (mm_controllers m)) (controlvalues m ! 1) number val")
    case None
    then show ?thesis using 1 len by (simp add: midiControlValueChanged_def)
  next
    case (Some p)
    obtain i b where p: "p = (i, b)" by (metis surj_pair)
    have i: "i < 82" using Some by (auto simp: p find_key_def dest: find_index_SomeD)
    let ?m2 = "?m\<lparr>controlvalues := (controlvalues ?m)[i := if b then 1 else 0]\<rparr>"
    have 2: "represents ch ?m2 st" by (rule represents_values(1) [OF 1]) (simp add: len)
    obtain m3 hs where c: "controlChangedData i ?m2 = (m3, hs)" by (metis surj_pair)
    have 3: "represents ch m3 st" using represents_controlChanged [OF 2, of i] c by simp
    have "midiControlValueChanged number val m = Inr (if mm_engine m then (m3, hs) else (?m2, []))"
      using Some len i c by (simp add: midiControlValueChanged_def p controlValueChanged_def)
    then show ?thesis using 2 3 by auto
  qed
qed

lemma represents_selected:
  assumes r: "represents ch m st"
  shows "represents ch (headSelected h m) (Some h, snd st)"
proof -
  let ?m = "m\<lparr>mm_head_selected := map (\<lambda>i. h = int i) [0..<MAX_HEADS]\<rparr>"
  have "connected ch ?m" "in_step ch ?m"
    using r by (auto simp: represents_def connected_def MAX_HEADS_def elim: in_step_cong)
  moreover have "\<forall>i < 8. mm_head_selected ?m ! i = (fst (Some h, snd st) = Some (int i)) \<and>
      mm_head_active ?m ! i = snd (Some h, snd st) i"
    using r by (simp add: represents_def MAX_HEADS_def)
  ultimately show ?thesis unfolding headSelected_def by (rule represents_update)
qed

definition valid_event :: "mix_event \<Rightarrow> bool" where
  "valid_event ev = (case ev of Head_active h \<Rightarrow> h < MAX_HEADS | Head_inactive h \<Rightarrow> h < MAX_HEADS | _ \<Rightarrow> True)"

lemma represents_step:
  assumes "represents ch m st" and "valid_event ev"
  shows "\<exists>m'. mix_step ev m = Inr m' \<and> represents ch m' (report ev st)"
proof (cases ev)
  case (Head_active h)
  then show ?thesis using represents_set_active [OF assms(1), of h True] assms(2)
    by (cases st) (simp add: headActive_def valid_event_def MAX_HEADS_def)
next
  case (Head_inactive h)
  then show ?thesis using represents_set_active [OF assms(1), of h False] assms(2)
    by (cases st) (simp add: headInactive_def valid_event_def MAX_HEADS_def)
next
  case (Midi_control number val)
  then show ?thesis using represents_midi [OF assms(1), of number val] by (cases st) auto
qed (use assms(1) represents_selected represents_message in \<open>cases st, fastforce\<close>)+

lemma represents_run:
  "represents ch m st \<Longrightarrow> \<forall>ev \<in> set evs. valid_event ev \<Longrightarrow>
   \<exists>m'. mix_run evs m = Inr m' \<and> represents ch m' (fold report evs st)"
proof (induction evs arbitrary: m st)
  case (Cons ev evs)
  obtain m1 where "mix_step ev m = Inr m1" "represents ch m1 (report ev st)"
    using represents_step [OF Cons.prems(1), of ev] Cons.prems(2) by auto
  then show ?case using Cons.IH [of m1 "report ev st"] Cons.prems(2) by auto
qed simp

text \<open>The surface as the engine brings it up: constructed, then connected to MIDI and engine.\<close>

definition power_up :: "nat \<Rightarrow> motor_mix \<Rightarrow> motor_mix" where
  "power_up ch junk = connectEngine (snd (connectMidi (Some ch) (MotorMix junk)))"

definition harmless_junk :: "motor_mix \<Rightarrow> bool" where
  "harmless_junk junk \<longleftrightarrow> length (mm_headControls junk) = MAX_HEADS \<and>
     (\<forall>i. 4 \<le> i \<longrightarrow> i < MAX_HEADS \<longrightarrow> to_unsigned (mm_headControls junk ! i) \<notin> {78..81})"

lemma all_lamps_off:
  assumes "mm_channel m = Some ch" and "length (controlvalues m) = 82" and "i < 4"
  shows "lamp_values ch (78 + i) (mm_out (fold (\<lambda>c s. snd (setControl c 0 s)) cs m)) =
    lamp_values ch (78 + i) (mm_out m) @ map (\<lambda>_. 0) (filter (\<lambda>c. c = 78 + i) cs)"
  using assms
proof (induction cs arbitrary: m)
  case (Cons c cs)
  then show ?case by (simp add: lamp_values_setControl)
qed simp

lemma fold_setControl_keeps:
  fixes cs :: "nat list" and m :: motor_mix
  defines "m' \<equiv> fold (\<lambda>c s. snd (setControl c 0 s)) cs m"
  shows "mm_channel m' = mm_channel m" "controlvalues m' = controlvalues m"
    "mm_headControls m' = mm_headControls m" "mm_head_selected m' = mm_head_selected m"
    "mm_head_active m' = mm_head_active m" "mm_head_state m' = mm_head_state m"
    "mm_engine m' = mm_engine m"
  unfolding m'_def by (induction cs arbitrary: m) simp_all

lemma displayWrite_keeps [simp]:
  "mm_channel (snd (displayWrite pos txt m)) = mm_channel m"
  "controlvalues (snd (displayWrite pos txt m)) = controlvalues m"
  "mm_headControls (snd (displayWrite pos txt m)) = mm_headControls m"
  "mm_head_selected (snd (displayWrite pos txt m)) = mm_head_selected m"
  "mm_head_active (snd (displayWrite pos txt m)) = mm_head_active m"
  "mm_head_state (snd (displayWrite pos txt m)) = mm_head_state m"
  "mm_engine (snd (displayWrite pos txt m)) = mm_engine m"
  by (simp_all add: displayWrite_def)

lemma power_up_fields:
  "mm_channel (power_up ch junk) = Some ch" "controlvalues (power_up ch junk) = replicate 82 0"
  "mm_headControls (power_up ch junk) = [78, 79, 80, 81] @ drop 4 (mm_headControls junk)"
  "mm_head_selected (power_up ch junk) = replicate 8 False"
  "mm_head_active (power_up ch junk) = replicate 8 False"
  "mm_head_state (power_up ch junk) = replicate 8 (- 1)"
  "mm_shift (power_up ch junk) = 48" "mm_esc (power_up ch junk) = 56"
  "mm_engine (power_up ch junk)"
  by (simp_all add: power_up_def connectEngine_def connectMidi_def MotorMix_def Let_def
      fold_setControl_keeps named_controls ControlSurface_def MAX_HEADS_def)

lemma lamp_values_display:
  "mm_channel m = Some ch \<Longrightarrow> lamp_values ch k (mm_out (snd (displayWrite pos txt m))) =
   lamp_values ch k (mm_out m)"
proof -
  assume "mm_channel m = Some ch"
  moreover have "lamp_value ch k (channel_send ch ([0xB0, 0xF0, 0x00, 0x01, 0x0F, 0x00, 0x11, 0x00, 0x10] @
      [of_nat pos] @ text_bytes txt @ [0xF7])) = []"
    by (rule lamp_value_long) (simp add: channel_send_def)
  ultimately show ?thesis by (simp add: displayWrite_def send_out_def lamp_values_def)
qed

lemma filter_upt_single: "k < n \<Longrightarrow> filter (\<lambda>c. c = k) [0..<n] = [k]"
  by (induction n) (auto simp: less_Suc_eq filter_empty_conv)

lemma power_up_lamps: "i < 4 \<Longrightarrow> lamp_values ch (78 + i) (mm_out (power_up ch junk)) = [0]"
  by (simp add: power_up_def connectEngine_def connectMidi_def MotorMix_def Let_def all_lamps_off
      ControlSurface_def numberOfControls_def filter_upt_single lamp_values_display)
    (simp add: lamp_values_def)

lemma represents_power_up:
  assumes "harmless_junk junk"
  shows "represents ch (power_up ch junk) (None, \<lambda>_. False)"
proof -
  have len: "length (mm_headControls junk) = 8" using assms by (simp add: harmless_junk_def MAX_HEADS_def)
  have "connected ch (power_up ch junk)"
    using assms by (auto simp: connected_def power_up_fields harmless_junk_def MAX_HEADS_def nth_append)
  moreover have "in_step ch (power_up ch junk)"
    by (simp add: in_step_def power_up_lamps power_up_fields)
  ultimately show ?thesis by (simp add: represents_def power_up_fields head_status_def)
qed

lemma key_recognised:
  assumes m: "connected ch m" "mm_engine m" and k: "c < 82" "has_key (switches ! c)"
    and mods: "getControlValue 48 m = 0" "getControlValue 56 m = 0" "c \<noteq> 48" "c \<noteq> 56"
    and others: "\<forall>i. 4 \<le> i \<longrightarrow> i < 8 \<longrightarrow> mm_headControls m ! i \<noteq> int c"
  shows "\<exists>m1 m2. midiControlValueChanged 15 (cntrl1_value (switches ! c)) m = Inr (m1, []) \<and>
    midiControlValueChanged 47 (cntrl2_pressed (switches ! c)) m1 =
      Inr (m2, if 78 \<le> c then [c - 78] else []) \<and>
    getControlValue c m2 = 1 \<and>
    (\<forall>c'. 2 \<le> c' \<longrightarrow> c' \<noteq> c \<longrightarrow> getControlValue c' m2 = getControlValue c' m)"
proof -
  have len: "length (controlvalues m) = 82" using m(1) by (simp add: connected_def)
  let ?v = "cntrl1_value (switches ! c)" and ?p = "cntrl2_pressed (switches ! c)"
  let ?cv = "(controlvalues m)[0 := controlvalues m ! 1, 1 := ?v]"
  let ?m1 = "m\<lparr>mm_controllers := (snd (mm_controllers m), 15), controlvalues := ?cv\<rparr>"
  let ?cv2 = "?cv[0 := ?v, 1 := ?p, c := 1]"
  let ?m2 = "?m1\<lparr>mm_controllers := (15, 47), controlvalues := ?cv2\<rparr>"
  have 1: "midiControlValueChanged 15 ?v m = Inr (?m1, [])"
    using len by (simp add: midiControlValueChanged_def first_half_is_no_key)
  have key: "find_key 15 ?v 47 ?p = Some (c, True)" using keys_are_unambiguous [OF k, of ?p] by simp
  have 2: "midiControlValueChanged 47 ?p ?m1 = Inr (controlChangedData c ?m2)"
    using len key k(1) m(2) by (simp add: midiControlValueChanged_def controlValueChanged_def)
  have sh: "mm_shift m = 48" "mm_esc m = 56" using m(1) by (simp_all add: connected_def)
  have off: "getControlValue 48 ?m2 = 0" "getControlValue 56 ?m2 = 0"
    using mods len by (simp_all add: getControlValue_def)
  have hc: "take 8 (mm_headControls m) = [78, 79, 80, 81] @ drop 4 (mm_headControls m)"
    using m(1) append_take_drop_id [of 4 "mm_headControls m"] by (simp add: connected_def)
  have rest: "find_index (\<lambda>x. int c = x) (drop 4 (mm_headControls m)) = None"
    using others m(1) by (auto simp: find_index_None_iff in_set_conv_nth connected_def)
  have found: "find_index (\<lambda>x. int c = x) (take 8 (mm_headControls m)) =
      (if 78 \<le> c then Some (c - 78) else None)"
  proof (cases "78 \<le> c")
    case True
    then have "c = 78 \<or> c = 79 \<or> c = 80 \<or> c = 81" using k(1) by linarith
    then show ?thesis unfolding hc by (elim disjE) simp_all
  next
    case False
    then show ?thesis unfolding hc using rest by simp
  qed
  have 4: "snd (controlChangedData c ?m2) = (if 78 \<le> c then [c - 78] else [])"
    using off found by (simp add: controlChangedData_def Let_def sh to_unsigned_def MAX_HEADS_def)
  have "midiControlValueChanged 47 ?p ?m1 =
      Inr (fst (controlChangedData c ?m2), if 78 \<le> c then [c - 78] else [])"
    unfolding 2 4 [symmetric] by (simp only: prod.collapse)
  moreover have "getControlValue c (fst (controlChangedData c ?m2)) = 1"
    using len k(1) by (simp add: getControlValue_def)
  moreover have "\<forall>c'. 2 \<le> c' \<longrightarrow> c' \<noteq> c \<longrightarrow>
      getControlValue c' (fst (controlChangedData c ?m2)) = getControlValue c' m"
    using len by (simp add: getControlValue_def)
  ultimately show ?thesis using 1 by blast
qed

lemma controlChangedData_engine [simp]: "mm_engine (fst (controlChangedData c m)) = mm_engine m"
  by (simp add: controlChangedData_def Let_def)

lemma midi_keeps_engine:
  "midiControlValueChanged number val m = Inr (m', hs) \<Longrightarrow> mm_engine m' = mm_engine m"
proof -
  assume a: "midiControlValueChanged number val m = Inr (m', hs)"
  let ?m = "m\<lparr>mm_controllers := (snd (mm_controllers m), number),
                  controlvalues := (controlvalues m)[0 := controlvalues m ! 1, 1 := val]\<rparr>"
  have len: "0 < length (controlvalues m)" "1 < length (controlvalues m)"
    using a by (auto simp: midiControlValueChanged_def rbind_Inr_iff vec_at_Inr_iff)
  show ?thesis
  proof (cases "find_key (snd (mm_controllers m)) (controlvalues m ! 1) number val")
    case None
    then show ?thesis using a len by (auto simp: midiControlValueChanged_def)
  next
    case (Some p)
    obtain i b where p: "p = (i, b)" by (cases p)
    show ?thesis
    proof (cases "i < length (controlvalues m)")
      case True
      let ?m2 = "?m\<lparr>controlvalues := (controlvalues ?m)[i := if b then 1 else 0]\<rparr>"
      have "(if mm_engine m then controlChangedData i ?m2 else (?m2, [])) = (m', hs)"
        using a Some p len True
        by (cases b; cases "mm_engine m") (simp_all add: midiControlValueChanged_def controlValueChanged_def)
      then have "m' = (if mm_engine m then fst (controlChangedData i ?m2) else ?m2)"
        by (metis fst_conv)
      then show ?thesis by simp
    next
      case False
      then show ?thesis using a Some p len
        by (auto simp: midiControlValueChanged_def controlValueChanged_def)
    qed
  qed
qed

lemma update_keeps_engine [simp]: "mm_engine (updateHeadStatus m) = mm_engine m"
proof -
  have "mm_engine (fold head_lamp is m) = mm_engine m" for "is" m
    by (induction "is" arbitrary: m) (simp_all add: head_lamp_def Let_def)
  then show ?thesis by (simp add: updateHeadStatus_def)
qed

lemma mix_run_keeps_engine: "mix_run evs m = Inr m' \<Longrightarrow> mm_engine m' = mm_engine m"
proof (induction evs arbitrary: m)
  case (Cons ev evs)
  then obtain m1 where 1: "mix_step ev m = Inr m1" "mix_run evs m1 = Inr m'" by (auto simp: rbind_Inr_iff)
  have "mm_engine m1 = mm_engine m"
    using 1(1) by (cases ev) (auto simp: headSelected_def headActive_def headInactive_def set_active_def
        message_def messageTimeout_def Let_def rbind_Inr_iff midi_keeps_engine split: if_splits)
  then show ?case using Cons.IH 1(2) by simp
qed simp

section \<open>Properties\<close>

text \<open>
  C39. The lamps of the first four heads (the controls 78 to 81) show what was last reported:
  whatever messages, keys and reports reach a surface the engine has brought up, none fails, and
  the last lamp message sent for a head is blinking for the selected head, else on for an active
  head, else off. A lamp is never switched from blinking straight to on, which the firmware of the
  surface does not handle. The entries of the control table the constructor leaves uninitialised
  must not happen to name one of the four lamps.
\<close>

theorem lamps_show_the_heads:
  assumes "harmless_junk junk" and "\<forall>ev \<in> set evs. valid_event ev"
  shows "\<exists>m. mix_run evs (power_up ch junk) = Inr m \<and>
    (\<forall>i < 4. last (lamp_values ch (78 + i) (mm_out m)) = wanted_lamp (reported evs) i \<and>
             no_blink_to_on (lamp_values ch (78 + i) (mm_out m)))"
  using represents_run [OF represents_power_up [OF assms(1)] assms(2)] represents_lamp
  by (fastforce simp: reported_def)

definition zero_junk :: motor_mix where
  "zero_junk = \<lparr>controlvalues = [], mm_engine = False, mm_controllers = (0, 0),
     mm_headControls = replicate 8 0, mm_head_selected = [], mm_head_active = [],
     mm_head_state = [], mm_channel = None, mm_timer = None, mm_shift = 0, mm_esc = 0, mm_out = []\<rparr>"

lemma harmless_zero_junk: "harmless_junk zero_junk"
  by (simp add: harmless_junk_def zero_junk_def MAX_HEADS_def to_unsigned_def)

theorem lamps_show_the_heads_witness:
  "\<exists>m. mix_run [Head_active 1, Head_selected 1, Midi_control 15 3, Head_selected 0] (power_up 0 zero_junk) = Inr m \<and>
     last (lamp_values 0 78 (mm_out m)) = 2 \<and> last (lamp_values 0 79 (mm_out m)) = 1"
proof -
  let ?evs = "[Head_active 1, Head_selected 1, Midi_control 15 3, Head_selected 0]"
  have "\<forall>ev \<in> set ?evs. valid_event ev" by (simp add: valid_event_def MAX_HEADS_def)
  then obtain m where m: "mix_run ?evs (power_up 0 zero_junk) = Inr m"
    "\<forall>i < 4. last (lamp_values 0 (78 + i) (mm_out m)) = wanted_lamp (reported ?evs) i"
    using lamps_show_the_heads [OF harmless_zero_junk, of ?evs 0] by blast
  have "wanted_lamp (reported ?evs) 0 = 2" "wanted_lamp (reported ?evs) 1 = 1"
    by (simp_all add: wanted_lamp_def reported_def)
  then show ?thesis using m(1) m(2) [rule_format, of 0] m(2) [rule_format, of 1] by auto
qed


lemma connected_power_up: "connected 0 (power_up 0 zero_junk)"
  using represents_power_up [OF harmless_zero_junk] by (simp add: represents_def)


text \<open>
  The history of MIDI messages is kept in the values of the controls 0 and 1, the touch
  sensors of the first two faders: whenever a message is not the second half of a key, the value
  of control 1 is afterwards the value of that message, and the value of control 0 that of the
  message before.
\<close>

theorem fader_touch_is_overwritten:
  assumes "2 \<le> length (controlvalues m)"
    and "find_key (snd (mm_controllers m)) (getControlValue 1 m) number val = None"
  shows "\<exists>m'. midiControlValueChanged number val m = Inr (m', []) \<and>
    getControlValue 1 m' = val \<and> getControlValue 0 m' = getControlValue 1 m"
proof -
  have 0: "0 < length (controlvalues m)" and 1: "1 < length (controlvalues m)"
    using assms(1) by linarith+
  show ?thesis
    using assms(2) 0 1
    by (intro exI [of _ "m\<lparr>mm_controllers := (snd (mm_controllers m), number),
        controlvalues := (controlvalues m)[0 := controlvalues m ! 1, 1 := val]\<rparr>"])
      (simp add: midiControlValueChanged_def getControlValue_def)
qed

theorem fader_touch_is_overwritten_witness:
  "\<exists>m'. midiControlValueChanged 15 5 (power_up 0 zero_junk) = Inr (m', []) \<and> getControlValue 1 m' = 5"
  using fader_touch_is_overwritten [of "power_up 0 zero_junk" 15 5] first_half_is_no_key
  by (auto simp: power_up_fields)

end
