(* ===== verification/Engine_Midi.thy ===== *)
theory Engine_Midi
  imports Engine_Runs Midi_Transport Motor_Mix_Lamps
begin

text \<open>
  The MIDI members of the class \<open>Engine\<close> (\<open>engine.h\<close>, \<open>engine.cpp\<close>): the port, the parser, the
  sixteen control surfaces, and how a key of a surface reaches the heads and comes back to the lamps.

  The settings the program keeps (\<open>QSettings\<close>, groups \<open>Engine\<close> and \<open>Midi\<close>) are a map. A null
  \<open>QString\<close> is None. The connections between the engine and a surface are calls: all these objects
  live in the thread of the engine.
\<close>

section \<open>State\<close>

text \<open>An entry of \<open>surfaces\<close>; the constructor of the engine leaves the last one uninitialised.\<close>

datatype surface_slot = Uninitialised | No_surface | Surface motor_mix

record 'p engine_midi =
  em_port_name :: string
  em_port :: alsa_midi
  em_parser :: "'p midi_parser"
  em_surfaces :: "surface_slot list"
  em_settings :: "string \<rightharpoonup> string"

definition setting :: "string \<Rightarrow> 'p engine_midi \<Rightarrow> string" where
  "setting key em = (case em_settings em key of None \<Rightarrow> [] | Some v \<Rightarrow> v)"

definition controller_key :: "nat \<Rightarrow> string" where
  "controller_key ch = ''Controller '' @ dec_string (ch + 1)"

section \<open>Setting up\<close>

definition setMIDICard :: "nat \<Rightarrow> alsa_cards \<Rightarrow> 's raw_midi \<Rightarrow> string option \<Rightarrow> 'p engine_midi \<Rightarrow> 's \<Rightarrow>
    ('p engine_midi \<times> 's) res" where
  "setMIDICard fuel env ops name em s = (case name of None \<Rightarrow> Inr (em, s)
     | Some nm \<Rightarrow> rbind (enumeratePorts fuel env) (\<lambda>ports.
         let (port_name, fn) = (case find_index (\<lambda>p. snd p = nm) ports of
                Some i \<Rightarrow> (nm, fst (ports ! i)) | None \<Rightarrow> (''None'', []));
             (ok, port, s1) = open_port ops fn (em_port em) s
         in Inr (em\<lparr>em_port_name := port_name, em_port := port,
                    em_parser := setQIODevice True (em_parser em),
                    em_settings := (em_settings em)(''Device'' \<mapsto> nm)\<rparr>, s1)))"

text \<open>\<open>junk\<close> is what the memory of a new surface holds.\<close>

definition setMIDIChannelDriver :: "motor_mix \<Rightarrow> nat \<Rightarrow> string option \<Rightarrow> 'p engine_midi \<Rightarrow>
    'p engine_midi res" where
  "setMIDIChannelDriver junk channel driver em = (case driver of None \<Rightarrow> Inr em
     | Some nm \<Rightarrow>
         if channel > 15 then Inr em
         else rbind (vec_at (em_surfaces em) channel) (\<lambda>old.
           if old = Uninitialised then Inl Undefined_behaviour
           else let new = (if nm = ''MotorMix'' then
                     Surface (snd (connectMidi (Some (mp_channels (em_parser em) ! channel)) (MotorMix junk)))
                   else No_surface)
             in Inr (em\<lparr>em_surfaces := (em_surfaces em)[channel := new],
                        em_settings := (em_settings em)(controller_key channel \<mapsto> nm)\<rparr>)))"

definition connect_surface :: "nat \<Rightarrow> 'p engine_midi \<Rightarrow> 'p engine_midi" where
  "connect_surface channel em = (case em_surfaces em ! channel of
     Surface m \<Rightarrow> em\<lparr>em_surfaces := (em_surfaces em)[channel := Surface (connectEngine m)]\<rparr>
   | _ \<Rightarrow> em)"

text \<open>The part of the constructor of \<open>Engine\<close> that configures the MIDI interface; its loop.\<close>

fun start_surfaces :: "(nat \<Rightarrow> motor_mix) \<Rightarrow> nat list \<Rightarrow> 'p engine_midi \<Rightarrow> 'p engine_midi res" where
  "start_surfaces junk [] em = Inr em"
| "start_surfaces junk (i # is) em =
     rbind (setMIDIChannelDriver (junk i) i (Some (setting (controller_key i) em))
         (em\<lparr>em_surfaces := (em_surfaces em)[i := No_surface]\<rparr>)) (\<lambda>em1.
       start_surfaces junk is (connect_surface i em1))"

definition start_midi :: "nat \<Rightarrow> alsa_cards \<Rightarrow> 's raw_midi \<Rightarrow> (nat \<Rightarrow> motor_mix) \<Rightarrow> 'p \<Rightarrow>
    (string \<rightharpoonup> string) \<Rightarrow> 's \<Rightarrow> ('p engine_midi \<times> 's) res" where
  "start_midi fuel env ops junk p settings s =
     (let em = \<lparr>em_port_name = [], em_port = AlsaMidi, em_parser = MIDIParser p,
                em_surfaces = replicate 16 Uninitialised, em_settings = settings\<rparr>
      in rbind (setMIDICard fuel env ops (Some (setting ''Device'' em)) em s) (\<lambda>(em1, s1).
         rbind (start_surfaces junk [0..<15] em1) (\<lambda>em2. Inr (em2, s1))))"

section \<open>The end of the engine\<close>

text \<open>
  \<open>~Engine\<close>: the output is stopped, and the destructor waits until no show is saved or loaded (the
  flag). It does not wait for an import.
\<close>

definition delete_engine :: "('c, 'f, 'm, 'z) engine \<Rightarrow> bool \<times> ('c, 'f, 'm, 'z) engine" where
  "delete_engine e = (\<not> en_save_locked e \<and> \<not> en_load_locked e, engine_kill e)"

section \<open>Surfaces and engine together\<close>

text \<open>The engine's \<open>headSelectionChanged\<close> reaches every surface that is connected to it.\<close>

definition tell_surface :: "int \<Rightarrow> surface_slot \<Rightarrow> surface_slot" where
  "tell_surface h sl = (case sl of
     Surface m \<Rightarrow> Surface (if mm_engine m then headSelected h m else m) | _ \<Rightarrow> sl)"

fun tell_surfaces :: "engine_signal list \<Rightarrow> 'p engine_midi \<Rightarrow> 'p engine_midi" where
  "tell_surfaces [] em = em"
| "tell_surfaces (Head_selection_changed h # sgs) em =
     tell_surfaces sgs (em\<lparr>em_surfaces := map (tell_surface h) (em_surfaces em)\<rparr>)"
| "tell_surfaces (sg # sgs) em = tell_surfaces sgs em"

text \<open>A surface's \<open>headSelectionChanged\<close> is connected to \<open>selectHead\<close>.\<close>

fun surface_selects :: "nat list \<Rightarrow> ('c, 'f, 'm, 'z) engine \<Rightarrow> 'p engine_midi \<Rightarrow>
    (('c, 'f, 'm, 'z) engine \<times> 'p engine_midi) res" where
  "surface_selects [] e em = Inr (e, em)"
| "surface_selects (h # hs) e em =
     rbind (selectHead (int h) e) (\<lambda>(e1, sgs). surface_selects hs e1 (tell_surfaces sgs em))"

text \<open>A controller message that the parser has dispatched to a channel.\<close>

definition controller_message :: "nat \<Rightarrow> int \<Rightarrow> int \<Rightarrow> ('c, 'f, 'm, 'z) engine \<Rightarrow> 'p engine_midi \<Rightarrow>
    (('c, 'f, 'm, 'z) engine \<times> 'p engine_midi) res" where
  "controller_message ch number val e em = (case em_surfaces em ! ch of
     Surface m \<Rightarrow> rbind (midiControlValueChanged number val m) (\<lambda>(m1, hs).
       surface_selects hs e (em\<lparr>em_surfaces := (em_surfaces em)[ch := Surface m1]\<rparr>))
   | _ \<Rightarrow> Inr (e, em))"

section \<open>Lemmas\<close>

lemma length_tell_surfaces [simp]: "length (em_surfaces (tell_surfaces sgs em)) = length (em_surfaces em)"
  by (induction sgs em rule: tell_surfaces.induct) simp_all

lemma tell_indicators: "\<forall>sg \<in> set sgs. \<exists>p c. sg = Set_indicator p c \<Longrightarrow> tell_surfaces sgs em = em"
  by (induction sgs) auto

lemma selectHead_in_range:
  assumes "length (en_heads e) = MAX_HEADS" and "h < MAX_HEADS"
  shows "\<exists>sgs. selectHead (int h) e = Inr (e\<lparr>en_selected := int h\<rparr>, Head_selection_changed (int h) # sgs) \<and>
    (\<forall>sg \<in> set sgs. \<exists>p c. sg = Set_indicator p c)"
proof -
  let ?e = "e\<lparr>en_selected := int h\<rparr>"
  have "getHead (int h) ?e = Some (en_heads e ! h)" using assms by (simp add: getHead_def)
  then show ?thesis using assms(2)
    by (auto simp: selectHead_def Let_def selectionChangedData_def)
qed

lemma setting_update: "setting k (em\<lparr>em_settings := (em_settings em)(k' \<mapsto> setting k' em)\<rparr>) = setting k em"
  by (simp add: setting_def)

lemma start_surfaces_result:
  assumes "mp_channels (em_parser em) = [0..<16]"
  shows "length (em_surfaces em) = 16 \<Longrightarrow> distinct is \<Longrightarrow> \<forall>i \<in> set is. i < 16 \<Longrightarrow>
    \<exists>em'. start_surfaces junk is em = Inr em' \<and> em_parser em' = em_parser em \<and>
      em_port em' = em_port em \<and> length (em_surfaces em') = 16 \<and>
      (\<forall>i < 16. em_surfaces em' ! i = (if i \<notin> set is then em_surfaces em ! i
         else if setting (controller_key i) em = ''MotorMix'' then Surface (power_up i (junk i))
         else No_surface))"
  using assms
proof (induction "is" arbitrary: em)
  case (Cons i "is")
  let ?nm = "setting (controller_key i) em"
  let ?sl = "if ?nm = ''MotorMix'' then Surface (power_up i (junk i)) else No_surface"
  let ?em = "em\<lparr>em_surfaces := (em_surfaces em)[i := ?sl],
      em_settings := (em_settings em)(controller_key i \<mapsto> ?nm)\<rparr>"
  have i: "i < 16" "i \<notin> set is" using Cons.prems by auto
  have "start_surfaces junk (i # is) em = start_surfaces junk is ?em"
    using i Cons.prems(1,4)
    by (cases em) (simp add: setMIDIChannelDriver_def connect_surface_def power_up_def setting_def Let_def)
  moreover have "setting k ?em = setting k em" for k by (simp add: setting_def)
  moreover have "\<exists>em'. start_surfaces junk is ?em = Inr em' \<and> em_parser em' = em_parser ?em \<and>
      em_port em' = em_port ?em \<and> length (em_surfaces em') = 16 \<and>
      (\<forall>j < 16. em_surfaces em' ! j = (if j \<notin> set is then em_surfaces ?em ! j
         else if setting (controller_key j) ?em = ''MotorMix'' then Surface (power_up j (junk j))
         else No_surface))"
    by (rule Cons.IH) (use Cons.prems in simp_all)
  ultimately show ?case using i Cons.prems(1) by (auto simp: nth_list_update)
qed simp

lemma controller_message_key:
  assumes ch: "ch < length (em_surfaces em)" "em_surfaces em ! ch = Surface m"
    and m: "represents ch m st" "mm_engine m" "getControlValue 48 m = 0" "getControlValue 56 m = 0"
    and h: "h < 4" and heads: "length (en_heads e) = MAX_HEADS"
  shows "\<exists>em1 em2 m2. controller_message ch 15 (cntrl1_value (switches ! (78 + h))) e em = Inr (e, em1) \<and>
    controller_message ch 47 (cntrl2_pressed (switches ! (78 + h))) e em1 =
      Inr (e\<lparr>en_selected := int h\<rparr>, em2) \<and>
    em_surfaces em2 ! ch = Surface m2 \<and> represents ch m2 (Some (int h), snd st)"
proof -
  let ?c = "78 + h"
  have con: "connected ch m" using m(1) by (simp add: represents_def)
  have others: "\<forall>i. 4 \<le> i \<longrightarrow> i < 8 \<longrightarrow> mm_headControls m ! i \<noteq> int ?c"
  proof (intro allI impI)
    fix i :: nat assume "4 \<le> i" "i < 8"
    then have "to_unsigned (mm_headControls m ! i) \<notin> {78..81}" using con by (simp add: connected_def)
    then show "mm_headControls m ! i \<noteq> int ?c" using h by (auto simp: to_unsigned_def)
  qed
  have lamp: "has_key (switches ! ?c)"
  proof -
    have "h = 0 \<or> h = 1 \<or> h = 2 \<or> h = 3" using h by linarith
    then show ?thesis by (elim disjE) (simp_all add: switches_def has_key_def)
  qed
  obtain m1 m2 where k: "midiControlValueChanged 15 (cntrl1_value (switches ! ?c)) m = Inr (m1, [])"
    "midiControlValueChanged 47 (cntrl2_pressed (switches ! ?c)) m1 = Inr (m2, [h])"
    using key_recognised [OF con m(2) _ lamp m(3,4) _ _ others] h by auto
  have r: "represents ch m2 st" "mm_engine m2"
    using represents_midi [OF m(1)] represents_midi midi_keeps_engine [OF k(1)] midi_keeps_engine [OF k(2)]
      k m(2) by (metis Inr_inject fst_conv prod.inject sum.inject(2))+
  let ?em1 = "em\<lparr>em_surfaces := (em_surfaces em)[ch := Surface m1]\<rparr>"
  let ?em2 = "em\<lparr>em_surfaces := (em_surfaces em)[ch := Surface m2]\<rparr>"
  obtain sgs where s: "selectHead (int h) e = Inr (e\<lparr>en_selected := int h\<rparr>, Head_selection_changed (int h) # sgs)"
    "\<forall>sg \<in> set sgs. \<exists>p c. sg = Set_indicator p c"
    using selectHead_in_range [OF heads, of h] h by (auto simp: MAX_HEADS_def)
  let ?em3 = "?em2\<lparr>em_surfaces := map (tell_surface (int h)) (em_surfaces ?em2)\<rparr>"
  have 1: "controller_message ch 15 (cntrl1_value (switches ! ?c)) e em = Inr (e, ?em1)"
    using ch k(1) by (simp add: controller_message_def)
  have 2: "controller_message ch 47 (cntrl2_pressed (switches ! ?c)) e ?em1 =
      Inr (e\<lparr>en_selected := int h\<rparr>, ?em3)"
    using ch k(2) s by (simp add: controller_message_def tell_indicators)
  have 3: "em_surfaces ?em3 ! ch = Surface (headSelected (int h) m2)"
    using ch r(2) by (simp add: tell_surface_def)
  show ?thesis using 1 2 3 represents_selected [OF r(1)] by blast
qed

section \<open>Properties\<close>

text \<open>
  C13. The MIDI interface comes up as configured: of the first fifteen surfaces exactly those whose
  setting names the MotorMix are one, on their own channel and connected to the engine. The
  sixteenth entry is left uninitialised, and choosing a driver for it deletes what it happens to
  point to.
\<close>

theorem midi_starts_as_configured:
  assumes "start_midi fuel env ops junk p settings s = Inr (em, s1)"
  shows "(\<forall>ch < 15. em_surfaces em ! ch =
      (if settings (controller_key ch) = Some ''MotorMix''
       then Surface (power_up ch (junk ch)) else No_surface)) \<and>
    setMIDIChannelDriver jk 15 (Some d) em = Inl Undefined_behaviour"
proof -
  let ?em = "\<lparr>em_port_name = [], em_port = AlsaMidi, em_parser = MIDIParser p,
                em_surfaces = replicate 16 Uninitialised, em_settings = settings\<rparr>"
  obtain em1 where 1: "setMIDICard fuel env ops (Some (setting ''Device'' ?em)) ?em s = Inr (em1, s1)"
    "start_surfaces junk [0..<15] em1 = Inr em"
    using assms by (auto simp: start_midi_def Let_def rbind_Inr_iff)
  have em1: "em_surfaces em1 = replicate 16 Uninitialised" "mp_channels (em_parser em1) = [0..<16]"
    "setting (controller_key ch) em1 = setting (controller_key ch) ?em" for ch
    using 1(1) by (auto simp: setMIDICard_def rbind_Inr_iff Let_def case_prod_beta setting_def
        setQIODevice_def MIDIParser_def controller_key_def)
  have l: "length (em_surfaces em1) = 16" using em1(1) by simp
  from start_surfaces_result [OF em1(2) l, of "[0..<15]" junk] 1(2)
  have r: "length (em_surfaces em) = 16" "\<forall>i < 16. em_surfaces em ! i =
      (if i \<notin> set [0..<15] then em_surfaces em1 ! i
       else if setting (controller_key i) em1 = ''MotorMix'' then Surface (power_up i (junk i))
       else No_surface)" by auto
  have "em_surfaces em ! 15 = Uninitialised" using r(2) em1(1) by simp
  then have "setMIDIChannelDriver jk 15 (Some d) em = Inl Undefined_behaviour"
    using r(1) by (simp add: setMIDIChannelDriver_def)
  moreover have "em_surfaces em ! ch =
      (if settings (controller_key ch) = Some ''MotorMix''
       then Surface (power_up ch (junk ch)) else No_surface)" if "ch < 15" for ch
    using that r(2) em1(3) [of ch] by (simp add: setting_def split: option.splits)
  ultimately show ?thesis by blast
qed

definition no_cards :: alsa_cards where
  "no_cards = \<lparr>ac_next_card = (\<lambda>_. Some (- 1)), ac_ctl_open = (\<lambda>_. False),
     ac_next_device = (\<lambda>_ _. None), ac_subs_in = (\<lambda>_ _. None), ac_subs_out = (\<lambda>_ _. None),
     ac_sub_name = (\<lambda>_ _ _. None)\<rparr>"

theorem midi_starts_as_configured_witness:
  "\<exists>em s1. start_midi 1 no_cards wire_ops (\<lambda>_. zero_junk) () [controller_key 2 \<mapsto> ''MotorMix'']
      \<lparr>wr_in = [], wr_sent = [], wr_room = 4\<rparr> = Inr (em, s1) \<and>
    em_surfaces em ! 2 = Surface (power_up 2 zero_junk)"
proof -
  let ?st = "[controller_key 2 \<mapsto> ''MotorMix'']" and ?s = "\<lparr>wr_in = [], wr_sent = [], wr_room = 4\<rparr>"
  let ?em = "\<lparr>em_port_name = [], em_port = AlsaMidi, em_parser = MIDIParser (),
                em_surfaces = replicate 16 Uninitialised, em_settings = ?st\<rparr>"
  obtain em1 s1 where 1: "setMIDICard 1 no_cards wire_ops (Some (setting ''Device'' ?em)) ?em ?s = Inr (em1, s1)"
    "mp_channels (em_parser em1) = [0..<16]" "length (em_surfaces em1) = 16"
    by (simp add: setMIDICard_def enumeratePorts_def no_cards_def case_prod_beta Let_def setQIODevice_def
        MIDIParser_def)
  obtain em where "start_surfaces (\<lambda>_. zero_junk) [0..<15] em1 = Inr em"
    using start_surfaces_result [OF 1(2,3), of "[0..<15]" "\<lambda>_. zero_junk"] by auto
  then have "start_midi 1 no_cards wire_ops (\<lambda>_. zero_junk) () ?st ?s = Inr (em, s1)"
    using 1(1) by (simp add: start_midi_def)
  with midi_starts_as_configured [OF this] show ?thesis by (intro exI [of _ em] exI [of _ s1]) simp
qed

text \<open>
  C9. A key of a surface selects a head and the surface shows it: when neither \<open>Shift\<close> nor \<open>Escape\<close>
  is held, the two messages of the key of head \<open>h\<close>, on a surface in any state it can reach, make the
  engine select that head, and afterwards the last message to the lamp of that head is blinking and
  to the lamp of no other head.
\<close>

theorem head_key_selects_the_head:
  assumes "harmless_junk junk" and "\<forall>ev \<in> set evs. valid_event ev"
    and "mix_run evs (power_up ch junk) = Inr m"
    and "ch < length (em_surfaces em)" and "em_surfaces em ! ch = Surface m"
    and "getControlValue 48 m = 0" and "getControlValue 56 m = 0"
    and "length (en_heads e) = MAX_HEADS" and "h < 4"
  shows "\<exists>em1 em2 m2. controller_message ch 15 (cntrl1_value (switches ! (78 + h))) e em = Inr (e, em1) \<and>
    controller_message ch 47 (cntrl2_pressed (switches ! (78 + h))) e em1 =
      Inr (e\<lparr>en_selected := int h\<rparr>, em2) \<and>
    em_surfaces em2 ! ch = Surface m2 \<and>
    (\<forall>i < 4. (last (lamp_values ch (78 + i) (mm_out m2)) = 2) = (i = h))"
proof -
  obtain st where st: "represents ch m st"
    using represents_run [OF represents_power_up [OF assms(1), of ch] assms(2)] assms(3) by auto
  have "mm_engine m" using mix_run_keeps_engine [OF assms(3)] by (simp add: power_up_fields)
  from controller_message_key [OF assms(4,5) st this assms(6,7,9,8)]
  obtain em1 em2 m2 where 1: "controller_message ch 15 (cntrl1_value (switches ! (78 + h))) e em = Inr (e, em1)"
    "controller_message ch 47 (cntrl2_pressed (switches ! (78 + h))) e em1 = Inr (e\<lparr>en_selected := int h\<rparr>, em2)"
    "em_surfaces em2 ! ch = Surface m2" "represents ch m2 (Some (int h), snd st)" by blast
  have "(last (lamp_values ch (78 + i) (mm_out m2)) = 2) = (i = h)" if "i < 4" for i
    using represents_lamp [OF 1(4) that] by (auto simp: wanted_lamp_def)
  then show ?thesis using 1 by blast
qed

theorem head_key_selects_the_head_witness:
  "\<exists>em1 em2 :: unit engine_midi. \<exists>m2.
    controller_message 0 15 (cntrl1_value (switches ! 80)) quiet_engine
      \<lparr>em_port_name = [], em_port = AlsaMidi, em_parser = MIDIParser (),
       em_surfaces = [Surface (power_up 0 zero_junk)], em_settings = Map.empty\<rparr> = Inr (quiet_engine, em1) \<and>
    controller_message 0 47 (cntrl2_pressed (switches ! 80)) quiet_engine em1 =
      Inr (quiet_engine\<lparr>en_selected := 2\<rparr>, em2) \<and>
    em_surfaces em2 ! 0 = Surface m2 \<and> last (lamp_values 0 80 (mm_out m2)) = 2"
proof -
  let ?em = "\<lparr>em_port_name = [], em_port = AlsaMidi, em_parser = MIDIParser (),
       em_surfaces = [Surface (power_up 0 zero_junk)], em_settings = Map.empty\<rparr>"
  have k: "getControlValue 48 (power_up 0 zero_junk) = 0" "getControlValue 56 (power_up 0 zero_junk) = 0"
    by (simp_all add: getControlValue_def power_up_fields)
  have r: "\<forall>ev \<in> set []. valid_event ev" "mix_run [] (power_up 0 zero_junk) = Inr (power_up 0 zero_junk)"
    "0 < length (em_surfaces ?em)" "em_surfaces ?em ! 0 = Surface (power_up 0 zero_junk)" by simp_all
  have h: "length (en_heads quiet_engine) = MAX_HEADS" by (simp add: quiet_engine_def MAX_HEADS_def)
  obtain em1 em2 m2 where r2:
    "controller_message 0 15 (cntrl1_value (switches ! 80)) quiet_engine ?em = Inr (quiet_engine, em1)"
    "controller_message 0 47 (cntrl2_pressed (switches ! 80)) quiet_engine em1 =
      Inr (quiet_engine\<lparr>en_selected := 2\<rparr>, em2)"
    "em_surfaces em2 ! 0 = Surface m2" "\<forall>i < 4. (last (lamp_values 0 (78 + i) (mm_out m2)) = 2) = (i = 2)"
    using head_key_selects_the_head [OF harmless_zero_junk r k h, of 2] by auto
  then have "last (lamp_values 0 80 (mm_out m2)) = 2" using r2(4) [rule_format, of 2] by simp
  then show ?thesis using r2(1-3) by blast
qed

end
