(* ===== verification/Engine_Shows.thy ===== *)
theory Engine_Shows
  imports Engine_Runs
begin

text \<open>
  The frame sources of a show: where \<open>addFrameSource\<close> puts a source, what the saving thread writes,
  and that the loading thread brings it back into the same slots. The threads are run without
  interruption here; \<open>Engine_Runs\<close> has what holds when other calls come between.
\<close>

section \<open>Slots\<close>

definition slot_source :: "nat \<Rightarrow> ('c, 'f, 'm) show_data \<Rightarrow> ('c, 'f, 'm) fsource option" where
  "slot_source i sh = map_option (\<lambda>a. sh_store sh ! a) (getFrameSource_at i sh)"

lemma slot_source_outside: "length (sh_sources sh) \<le> i \<Longrightarrow> slot_source i sh = None"
  by (simp add: slot_source_def getFrameSource_at_def)

lemma put_source_nth:
  "i < length (put_source p fs srcs) \<Longrightarrow> put_source p fs srcs ! i =
     (if i = p then fs else if i < length srcs then srcs ! i else None)"
  by (auto simp: put_source_def nth_list_update nth_append)

lemma length_put_source: "length (put_source p fs srcs) = max (length srcs) (p + 1)"
  by (auto simp: put_source_def)

lemma add_new_source_show:
  "en_show (fst (add_new_source s pos e)) =
     (en_show e)\<lparr>sh_store := sh_store (en_show e) @ [s],
       sh_sources := put_source (slot_for pos (sh_sources (en_show e)))
         (Some (length (sh_store (en_show e)))) (sh_sources (en_show e))\<rparr>"
  by (simp add: add_new_source_def new_source_def addFrameSource_def Let_def)

lemma slot_source_added:
  assumes "show_ok (en_show e)"
  shows "slot_source i (en_show (fst (add_new_source s pos e))) =
    (if i = slot_for pos (sh_sources (en_show e)) then Some s else slot_source i (en_show e))"
proof -
  let ?srcs = "sh_sources (en_show e)" and ?n = "length (sh_store (en_show e))"
  have old: "(sh_store (en_show e) @ [s]) ! a = sh_store (en_show e) ! a"
    if "i < length ?srcs" "?srcs ! i = Some a" for a
    using assms that by (metis nth_append nth_mem show_ok_def)
  have out: "slot_source i (en_show e) = None" if "length ?srcs \<le> i"
    using that by (rule slot_source_outside)
  show ?thesis
    using old out
    by (cases "?srcs ! i")
       (auto simp: slot_source_def add_new_source_show getFrameSource_at_def put_source_nth
         length_put_source max_def not_less)
qed

lemma slot_for_empty:
  assumes "pos < 0"
  shows "slot_source (slot_for pos (sh_sources sh)) sh = None \<and>
    (\<forall>i < slot_for pos (sh_sources sh). slot_source i sh \<noteq> None)"
proof (cases "find_index Option.is_none (sh_sources sh)")
  case None
  then have "\<forall>x \<in> set (sh_sources sh). x \<noteq> None"
    by (auto simp: find_index_None_iff Option.is_none_def)
  then show ?thesis using None assms
    by (auto simp: slot_for_def slot_source_def getFrameSource_at_def)
next
  case (Some k)
  then show ?thesis using assms find_index_SomeD [OF Some]
    by (auto simp: slot_for_def slot_source_def getFrameSource_at_def Option.is_none_def)
qed

lemma slot_for_nonneg: "0 \<le> pos \<Longrightarrow> slot_for pos srcs = nat pos"
  by (simp add: slot_for_def)

section \<open>Saving\<close>

fun saver_run :: "nat \<Rightarrow> ('c, 'f, 'm) qt \<Rightarrow> ('f, 'm) text_lib \<Rightarrow> ('c, 'f, 'm, 'z) engine \<Rightarrow>
    ('c, 'f, 'm, 'z) engine \<times> xml_token list option" where
  "saver_run 0 q x e = (e, None)"
| "saver_run (Suc n) q x e = (case saver_step q x e of
     (e1, Some doc, sgs) \<Rightarrow> (e1, Some doc)
   | (e1, None, sgs) \<Rightarrow> saver_run n q x e1)"

definition occupied :: "nat \<Rightarrow> ('c, 'f, 'm) show_data \<Rightarrow> (nat \<times> ('c, 'f, 'm) fsource) list" where
  "occupied i sh = (case slot_source i sh of None \<Rightarrow> [] | Some s \<Rightarrow> [(i, s)])"

definition show_slots :: "('c, 'f, 'm) show_data \<Rightarrow> (nat \<times> ('c, 'f, 'm) fsource) list" where
  "show_slots sh = concat (map (\<lambda>i. occupied i sh) [0..<length (sh_sources sh)])"

definition slot_tokens :: "('c, 'f, 'm) qt \<Rightarrow> ('f, 'm) text_lib \<Rightarrow> (nat \<times> ('c, 'f, 'm) fsource) list \<Rightarrow>
    xml_token list" where
  "slot_tokens q x ps = concat (map (\<lambda>p. sequence_tokens q x (fst p) (snd p)) ps)"

definition show_document :: "('c, 'f, 'm) qt \<Rightarrow> ('f, 'm) text_lib \<Rightarrow> string \<Rightarrow> ('c, 'f, 'm) show_data \<Rightarrow>
    xml_token list" where
  "show_document q x date sh = show_start date @ slot_tokens q x (show_slots sh) @ show_end"

lemma slot_tokens_simps [simp]:
  "slot_tokens q x [] = []" "slot_tokens q x (p # ps) = sequence_tokens q x (fst p) (snd p) @ slot_tokens q x ps"
  "slot_tokens q x (ps @ ps') = slot_tokens q x ps @ slot_tokens q x ps'"
  by (simp_all add: slot_tokens_def)

lemma saver_run_from:
  assumes "k \<le> getSourcesSize e" and "en_saver e = Some (k, written)"
  shows "saver_run (Suc (getSourcesSize e - k)) q x e =
    (fst (Saved e), Some (written @
       slot_tokens q x (concat (map (\<lambda>i. occupied i (en_show e)) [k..<getSourcesSize e])) @ show_end))"
  using assms
proof (induction "getSourcesSize e - k" arbitrary: k e written)
  case 0
  then show ?case by (simp add: saver_step_def Saved_def)
next
  case (Suc n)
  let ?w = "written @ slot_tokens q x (occupied k (en_show e))"
  let ?e1 = "e\<lparr>en_saver := Some (Suc k, ?w)\<rparr>"
  have less: "k < getSourcesSize e" using Suc.hyps(2) by simp
  have step: "saver_step q x e = (?e1, None, [])"
    using less Suc.prems(2)
    by (simp add: saver_step_def occupied_def slot_source_def engine_source_def split: option.split)
  have s: "getSourcesSize ?e1 = getSourcesSize e" "fst (Saved ?e1) = fst (Saved e)"
    by (simp_all add: getSourcesSize_def Saved_def)
  have "saver_run (Suc (getSourcesSize ?e1 - Suc k)) q x ?e1 = (fst (Saved ?e1), Some (?w @
       slot_tokens q x (concat (map (\<lambda>i. occupied i (en_show ?e1)) [Suc k..<getSourcesSize ?e1])) @ show_end))"
    by (rule Suc.hyps(1)) (use Suc.hyps(2) less s in simp_all)
  moreover have "[k..<getSourcesSize e] = k # [Suc k..<getSourcesSize e]" using less by (simp add: upt_rec)
  moreover have "Suc (getSourcesSize e - k) = Suc (Suc (getSourcesSize e - Suc k))" using less by simp
  ultimately show ?case
    using step s by (simp del: saver_run.simps add: saver_run.simps(2) [of "Suc (getSourcesSize e - Suc k)"])
qed

lemma saver_run_document:
  assumes "\<not> en_save_locked e"
  shows "\<exists>e1. saveShow True date e = Inr (True, e1) \<and>
    saver_run (Suc (getSourcesSize e)) q x e1 =
      (e\<lparr>en_save_locked := False, en_saver := None\<rparr>, Some (show_document q x date (en_show e)))"
proof -
  let ?e1 = "e\<lparr>en_save_locked := True, en_saver := Some (0, show_start date)\<rparr>"
  have n: "getSourcesSize ?e1 = getSourcesSize e" by (simp add: getSourcesSize_def)
  have "saver_run (Suc (getSourcesSize ?e1 - 0)) q x ?e1 = (fst (Saved ?e1), Some (show_start date @
       slot_tokens q x (concat (map (\<lambda>i. occupied i (en_show ?e1)) [0..<getSourcesSize ?e1])) @ show_end))"
    by (rule saver_run_from) simp_all
  then show ?thesis
    using assms unfolding n
    by (intro exI [of _ ?e1])
       (simp add: saveShow_def Saved_def show_document_def show_slots_def getSourcesSize_def)
qed

section \<open>Loading ends\<close>

fun loader_run :: "nat \<Rightarrow> ('c, 'f, 'm) qt \<Rightarrow> ('f, 'm) text_lib \<Rightarrow> ('c, 'f, 'm) fsource registry \<Rightarrow>
    ('c, 'f, 'm, 'z) engine \<Rightarrow> ('c, 'f, 'm, 'z) engine res" where
  "loader_run 0 q x reg e = (if en_loader e = None then Inr e else Inl Out_of_fuel)"
| "loader_run (Suc n) q x reg e = (if en_loader e = None then Inr e
     else rbind (loader_step q x reg e) (\<lambda>(e1, sgs). loader_run n q x reg e1))"

lemma load_errors:
  "loadFrames q x reg fuel e = Inl err \<Longrightarrow> err \<in> {Assertion_failed, Uncaught_exception, Out_of_fuel}"
  "load_children q x reg fuel n fs e = Inl err \<Longrightarrow> err \<in> {Assertion_failed, Uncaught_exception, Out_of_fuel}"
proof (induction q x reg fuel e and q x reg fuel n fs e rule: loadFrames_load_children.induct)
  case (2 q x reg fuel e)
  have n: "node_load q x nd r = Inl err \<Longrightarrow> err = Uncaught_exception" for nd r
    by (cases nd) (auto simp: node_load_def static_load_def Let_def split: if_splits)
  from 2(2) show ?case
    by (auto simp: Let_def rbind_Inl_iff split: option.splits if_splits dest: n 2(1) [rotated -1])
next
  case (4 q x reg fuel n fs e)
  have a: "addChild c i s = Inl err \<Longrightarrow> err = Assertion_failed" for c i s
    by (auto simp: addChild_def Let_def split: option.splits if_splits)
  from 4(3) show ?case
    by (auto simp: rbind_Inl_iff dest: a 4(1) 4(2) [rotated -1])
qed simp_all

lemma skip_until_shorter: "skip_until stop r = r \<or> length (skip_until stop r) < length r"
proof (cases r)
  case (Cons t r')
  then show ?thesis using length_skip_until [of stop r'] by auto
qed simp

lemma loader_step_shrinks:
  assumes "en_loader e = Some r" and "loader_step q x reg e = Inr (e1, sgs)" and "en_loader e1 = Some r'"
  shows "length r' < length r"
proof -
  let ?r1 = "skip_until (\<lambda>t. is_start t \<or> token_name t = ''Sequence'') r"
  have l1: "length ?r1 \<le> length r" by (rule length_skip_until)
  have end1: "\<not> (at_end r \<or> is_end (tokenType r) \<and> xml_name r = ''Lucifer'')"
    using assms by (auto simp: loader_step_def Loaded_def)
  then have r: "r \<noteq> []" "tokenType r \<noteq> Invalid_token" by (auto simp: at_end_def)
  have short: "length (readNextStartElement ?r1) < length r"
  proof (cases "?r1 = r")
    case True
    then show ?thesis using readNextStartElement_shorter [OF r] by simp
  next
    case False
    then have "length ?r1 < length r" using skip_until_shorter by blast
    then show ?thesis using length_readNextStartElement [of ?r1] by linarith
  qed
  consider "r' = readNextStartElement ?r1"
    | fs where "loadFrames q x reg (Suc (length (readNextStartElement ?r1))) (readNextStartElement ?r1) =
        Inr (fs, r')"
    using assms end1
    by (auto simp: loader_step_def load_sequence_def Let_def rbind_Inr_iff Loaded_def case_prod_beta
        simp del: loadFrames.simps split: if_splits)
  then show ?thesis
  proof cases
    case 2
    then show ?thesis using load_shrinks(1) [OF 2] short by linarith
  qed (use short in simp)
qed

lemma loader_step_errors:
  "loader_step q x reg e = Inl err \<Longrightarrow> err \<in> {Assertion_failed, Uncaught_exception}"
proof -
  assume a: "loader_step q x reg e = Inl err"
  have f: "loadFrames q x reg (Suc (length r)) r = Inl err \<Longrightarrow> err \<in> {Assertion_failed, Uncaught_exception}"
    for r using load_errors(1) load_fuel(1) [of r "Suc (length r)"] by fastforce
  from a show ?thesis
    by (auto simp: loader_step_def load_sequence_def Let_def rbind_Inl_iff case_prod_beta
        simp del: loadFrames.simps split: option.splits if_splits dest: f)
qed

lemma loader_run_ends:
  "(\<And>r. en_loader e = Some r \<Longrightarrow> length r < n) \<Longrightarrow>
   case loader_run n q x reg e of Inr e' \<Rightarrow> en_loader e' = None
   | Inl err \<Rightarrow> err \<in> {Assertion_failed, Uncaught_exception}"
proof (induction n arbitrary: e)
  case 0
  then show ?case by (cases "en_loader e") auto
next
  case (Suc n)
  show ?case
  proof (cases "en_loader e")
    case (Some r)
    show ?thesis
    proof (cases "loader_step q x reg e")
      case (Inl err)
      then show ?thesis using Some loader_step_errors by fastforce
    next
      case (Inr p)
      obtain e1 sgs where p: "loader_step q x reg e = Inr (e1, sgs)" using Inr by (cases p) simp
      have "length r' < n" if "en_loader e1 = Some r'" for r'
        using loader_step_shrinks [OF Some p that] Suc.prems [OF Some] by linarith
      then show ?thesis using Suc.IH [of e1] p Some by simp
    qed
  qed simp
qed

lemma loader_run_locks:
  "loader_run n q x reg e = Inr e' \<Longrightarrow> locks_ok e \<Longrightarrow> locks_ok e'"
proof (induction n arbitrary: e)
  case (Suc n)
  show ?case
  proof (cases "en_loader e")
    case (Some r)
    then obtain e1 sgs where "loader_step q x reg e = Inr (e1, sgs)" "loader_run n q x reg e1 = Inr e'"
      using Suc.prems(1) by (auto simp: rbind_Inr_iff)
    then show ?thesis using Suc.IH locks_ok_ops(11) [OF Suc.prems(2)] by blast
  qed (use Suc.prems in simp)
qed (auto split: if_splits)

lemma length_find_show: "length (find_show toks) \<le> Suc (length toks)"
  using length_skip_until [of "\<lambda>t. token_name t = ''Lucifer''" "No_token # toks"]
  by (simp add: find_show_def Let_def)

section \<open>Loading what was saved\<close>

definition put_loaded :: "('c, 'f, 'm, 'z) engine \<Rightarrow> nat \<times> ('c, 'f, 'm) fsource \<Rightarrow> ('c, 'f, 'm, 'z) engine" where
  "put_loaded e p = fst (add_new_source (as_loaded (snd p)) (int (fst p)) e)"

lemma put_loaded_jobs:
  "put_loaded (e\<lparr>en_loader := y\<rparr>) p = (put_loaded e p)\<lparr>en_loader := y\<rparr>"
  by (simp add: put_loaded_def add_new_source_def new_source_def addFrameSource_def Let_def)

lemma Loaded_after:
  "fst (Loaded (foldl put_loaded (e\<lparr>en_loader := y\<rparr>) ps)) = fst (Loaded (foldl put_loaded e ps))"
  by (induction ps arbitrary: e) (simp_all add: put_loaded_jobs Loaded_def)

lemma find_show_document:
  assumes "reads_as (show_document q x date sh) toks"
  shows "\<exists>as vs. find_show toks = Start_element ''Lucifer'' as # vs \<and>
    reads_as (slot_tokens q x (show_slots sh) @ show_end) vs"
proof -
  let ?as = "[(''Version'', ''1.1.0''), (''Date'', date)]"
  obtain us vs where 1: "toks = us @ Start_document # vs" "spaces us"
    "reads_as (Start_element ''Lucifer'' ?as # slot_tokens q x (show_slots sh) @ show_end) vs"
    using assms by (auto simp: show_document_def show_start_def elim: reads_as_tag)
  then obtain us' vs' where 2: "vs = us' @ Start_element ''Lucifer'' ?as # vs'" "spaces us'"
    "reads_as (slot_tokens q x (show_slots sh) @ show_end) vs'" by (auto elim: reads_as_tag)
  have "find_show toks = Start_element ''Lucifer'' ?as # vs'"
    using 1(1,2) 2(1,2) by (simp add: find_show_def xml_attr_start)
  then show ?thesis using 2(3) by blast
qed

lemma not_show_tags: "nm \<in> class_tags \<Longrightarrow> nm \<noteq> ''Sequence'' \<and> nm \<noteq> ''Lucifer''"
  by (auto simp: class_tags_def)

lemma skip_to_sequence:
  "trailing us \<Longrightarrow> skip_until (\<lambda>t. is_start t \<or> token_name t = ''Sequence'') (us @ r) =
     skip_until (\<lambda>t. is_start t \<or> token_name t = ''Sequence'') r"
proof (induction us)
  case (Cons u us)
  then show ?case using not_show_tags by (cases u) (simp_all add: trailing_Cons)
qed simp

lemma next_tag_here [simp]:
  "next_tag (Start_element nm as # r) = Start_element nm as # r"
  "next_tag (End_element nm # r) = End_element nm # r"
  by simp_all

lemma load_one_sequence:
  fixes q :: "('c, 'f, 'm) qt"
  assumes x: "text_laws x" and reg: "initialised q reg"
    and s: "savable q x s" "arity_ok s" "i < 2 ^ 63"
    and vs: "reads_as (sequence_tokens q x i s @ ws) vs"
    and e: "en_loader e = Some (next_tag vs)"
  shows "\<exists>e1 sgs vs'. loader_step q x reg e = Inr (e1, sgs) \<and> length vs' + 2 < length (next_tag vs) \<and>
    (\<exists>sgs'. loader_step q x reg e1 = Inr ((put_loaded e (i, s))\<lparr>en_loader := Some (next_tag vs')\<rparr>, sgs')) \<and>
    en_loader e1 \<noteq> None \<and> reads_as ws vs'"
proof -
  let ?as = "[(''Position'', dec_string i)]"
  obtain us v1 where 1: "vs = us @ Start_element ''Sequence'' ?as # v1" "spaces us"
    "reads_as (saveFrames q x s @ End_element ''Sequence'' # ws) v1"
    using vs by (auto simp: sequence_tokens_def elim: reads_as_tag)
  obtain a b where 2: "v1 = a @ b" "reads_as (saveFrames q x s) a"
    "reads_as (End_element ''Sequence'' # ws) b"
    using reads_as_append [OF 1(3)] saveFrames_ends(2) [of q x s] by blast
  obtain us2 v2 where 3: "b = us2 @ End_element ''Sequence'' # v2" "spaces us2" "reads_as ws v2"
    using 2(3) by (auto elim: reads_as_tag)
  obtain nm as' cr where sf: "saveFrames q x s = Start_element nm as' # cr" by (cases s) simp
  obtain us3 a1 where 4: "a = us3 @ Start_element nm as' # a1" "spaces us3" "reads_as cr a1"
    using 2(2) sf by (auto elim: reads_as_tag)
  let ?a = "Start_element nm as' # a1"
  have "reads_as (saveFrames q x s) ?a" unfolding sf by (rule reads_as.tag) (simp_all add: 4(3))
  then obtain us' where 5: "loadFrames q x reg (Suc (length (?a @ b))) (?a @ b) =
      Inr (Some (as_loaded s), us' @ b)" "closing 2 us'"
    using tree_round_trip [OF x reg s(1,2), of ?a b "Suc (length (?a @ b))"] by auto
  have r1: "readNextStartElement (Start_element ''Sequence'' ?as # v1) = ?a @ b"
    using 2(1) 4(1,2) by simp
  have pos: "sint (x_toULong x (dec_string i)) = int i"
  proof -
    have "unat (of_nat i :: u64) = i" using s(3) by (simp add: unat_of_nat_below)
    then have w: "x_toULong x (dec_string i) = of_nat i" using x by (metis text_laws_def)
    have "sint (word_of_int (int i) :: u64) = int i"
      by (subst sint_sbintrunc', rule signed_take_bit_int_eq_self) (use s(3) in simp_all)
    then show ?thesis using w by simp
  qed
  let ?e1 = "(put_loaded e (i, s))\<lparr>en_loader := Some (us' @ b)\<rparr>"
  have nt: "next_tag vs = Start_element ''Sequence'' ?as # v1" using 1(1,2) by simp
  have "load_sequence q x reg (Start_element ''Sequence'' ?as # v1) e =
      Inr (?e1, snd (add_new_source (as_loaded s) (int i) e))"
    unfolding load_sequence_def Let_def r1
    using 5(1) by (simp add: xml_attr_start pos put_loaded_def case_prod_beta del: loadFrames.simps)
  then have step1: "loader_step q x reg e = Inr (?e1, snd (add_new_source (as_loaded s) (int i) e))"
    using e nt by (simp add: loader_step_def at_end_def xml_name_def)
  have hd: "tokenType (us' @ b) = hd us'" "is_end (hd us')" "token_name (hd us') \<noteq> ''Lucifer''" "trailing us'"
    using 5(2) by (cases us'; cases "hd us'"; simp add: closing_def not_show_tags)+
  have "\<not> at_end (us' @ b)" using hd(1,2) by (cases "hd us'") (simp_all add: at_end_def)
  moreover have "skip_until (\<lambda>t. is_start t \<or> token_name t = ''Sequence'') (us' @ b) =
      End_element ''Sequence'' # v2"
    using 3(1,2) skip_to_sequence [OF hd(4)] skip_to_sequence [OF spaces_trailing [OF 3(2)]] by simp
  ultimately have step2: "loader_step q x reg ?e1 =
      Inr (?e1\<lparr>en_loader := Some (next_tag v2)\<rparr>, [])"
    using hd by (simp add: loader_step_def xml_name_def)
  have "length v2 + 2 < length (next_tag vs)" using nt 2(1) 3(1) 4(1) by simp
  then show ?thesis
    by (intro exI [of _ ?e1] exI [of _ "snd (add_new_source (as_loaded s) (int i) e)"] exI [of _ v2]
        exI [of _ "[]"] conjI) (use step1 step2 3(3) in simp_all)
qed

lemma load_slots:
  fixes q :: "('c, 'f, 'm) qt"
  assumes x: "text_laws x" and reg: "initialised q reg"
  shows "reads_as (slot_tokens q x ps @ show_end) vs \<Longrightarrow>
    \<forall>p \<in> set ps. savable q x (snd p) \<and> arity_ok (snd p) \<and> fst p < 2 ^ 63 \<Longrightarrow>
    en_loader e = Some (next_tag vs) \<Longrightarrow> length (next_tag vs) < n \<Longrightarrow>
    loader_run n q x reg e = Inr (fst (Loaded (foldl put_loaded e ps)))"
proof (induction ps arbitrary: e vs n)
  case Nil
  obtain us vs' where "vs = us @ End_element ''Lucifer'' # vs'" "spaces us"
    using Nil.prems(1) by (auto simp: show_end_def elim: reads_as_tag)
  moreover obtain m where "n = Suc m" using Nil.prems(4) by (cases n) auto
  moreover have "loader_run k q x reg (fst (Loaded e)) = Inr (fst (Loaded e))" for k
    by (cases k) (simp_all add: Loaded_def)
  ultimately show ?case using Nil.prems(3)
    by (simp add: loader_step_def at_end_def xml_name_def case_prod_beta)
next
  case (Cons p ps)
  have "reads_as (sequence_tokens q x (fst p) (snd p) @ slot_tokens q x ps @ show_end) vs"
    using Cons.prems(1) by simp
  from load_one_sequence [OF x reg _ _ _ this Cons.prems(3)] Cons.prems(2)
  obtain e1 sgs vs' sgs' where 1: "loader_step q x reg e = Inr (e1, sgs)"
    "length vs' + 2 < length (next_tag vs)"
    "loader_step q x reg e1 = Inr ((put_loaded e (fst p, snd p))\<lparr>en_loader := Some (next_tag vs')\<rparr>, sgs')"
    "en_loader e1 \<noteq> None" "reads_as (slot_tokens q x ps @ show_end) vs'" by auto
  obtain m where n: "n = Suc (Suc m)" "length (next_tag vs') < m"
  proof -
    have "length (next_tag vs') + 2 < n" using 1(2) Cons.prems(4) length_next_tag [of vs'] by linarith
    then show ?thesis using that [of "n - 2"] by simp
  qed
  let ?e2 = "(put_loaded e p)\<lparr>en_loader := Some (next_tag vs')\<rparr>"
  have "loader_run m q x reg ?e2 = Inr (fst (Loaded (foldl put_loaded ?e2 ps)))"
    by (rule Cons.IH [OF 1(5)]) (use Cons.prems(2) n(2) in simp_all)
  moreover have "loader_run n q x reg e = loader_run m q x reg ?e2"
    using 1 n(1) Cons.prems(3) by auto
  ultimately show ?case by (simp add: Loaded_after)
qed

lemma slots_after:
  "show_ok (en_show e) \<Longrightarrow> distinct (map fst ps) \<Longrightarrow>
   slot_source i (en_show (foldl put_loaded e ps)) =
     (case map_of ps i of None \<Rightarrow> slot_source i (en_show e) | Some s \<Rightarrow> Some (as_loaded s))"
proof (induction ps arbitrary: e)
  case (Cons p ps)
  have "show_ok (en_show (put_loaded e p))"
    using Cons.prems(1) set_put_source [of "fst p" "Some (length (sh_store (en_show e)))" "sh_sources (en_show e)"]
    by (fastforce simp: put_loaded_def show_ok_def add_new_source_show slot_for_nonneg)
  moreover have "slot_source i (en_show (put_loaded e p)) =
      (if i = fst p then Some (as_loaded (snd p)) else slot_source i (en_show e))"
    using slot_source_added [OF Cons.prems(1)] by (simp add: put_loaded_def slot_for_nonneg)
  moreover have "map_of ps (fst p) = None" using Cons.prems(2) by (simp add: map_of_eq_None_iff)
  ultimately show ?case using Cons.IH [of "put_loaded e p"] Cons.prems(2)
    by (cases "i = fst p") (simp_all split: option.split)
qed simp

lemma map_of_show_slots: "map_of (show_slots sh) i = slot_source i sh"
proof -
  have "map_of (concat (map (\<lambda>i. occupied i sh) is)) i = (if i \<in> set is then slot_source i sh else None)" for "is"
    by (induction "is") (auto simp: occupied_def map_add_def split: option.splits)
  then show ?thesis by (auto simp: show_slots_def slot_source_outside)
qed

lemma distinct_show_slots: "distinct (map fst (show_slots sh))"
proof -
  have s: "set (map fst (concat (map (\<lambda>i. occupied i sh) is))) \<subseteq> set is" for "is"
    by (auto simp: occupied_def split: option.splits)
  have "distinct is \<Longrightarrow> distinct (map fst (concat (map (\<lambda>i. occupied i sh) is)))" for "is"
    using s by (induction "is") (fastforce simp: occupied_def split: option.splits)+
  then show ?thesis by (simp add: show_slots_def)
qed

lemma show_slots_in: "(i, s) \<in> set (show_slots sh) \<Longrightarrow> slot_source i sh = Some s \<and> i < length (sh_sources sh)"
  by (auto simp: show_slots_def occupied_def split: option.splits)

section \<open>Properties\<close>

text \<open>An engine with a tree in slot 2 and two empty slots, for the examples.\<close>

definition stocked_engine :: "(int \<times> int \<times> int, rat, rat, unit) engine" where
  "stocked_engine = fst (add_new_source demo_tree 2 quiet_engine)"

lemma stocked_engine_slots: "slot_source i (en_show stocked_engine) = (if i = 2 then Some demo_tree else None)"
proof -
  have "show_ok (en_show quiet_engine)" "slot_source i (en_show quiet_engine) = None"
    by (simp_all add: quiet_engine_def show_ok_def demo_show_def slot_source_outside)
  then show ?thesis by (simp add: stocked_engine_def slot_source_added slot_for_nonneg)
qed

lemma stocked_engine_simps [simp]:
  "show_ok (en_show stocked_engine)" "getSourcesSize stocked_engine = 3"
  "\<not> en_save_locked stocked_engine" "\<not> en_load_locked stocked_engine"
proof -
  show "show_ok (en_show stocked_engine)" "getSourcesSize stocked_engine = 3"
    by (auto simp: stocked_engine_def show_ok_def add_new_source_show getSourcesSize_def quiet_engine_def
        demo_show_def put_source_def slot_for_nonneg eval_nat_numeral)
qed (simp_all add: stocked_engine_def quiet_engine_def)

text \<open>
  C12. \<open>addFrameSource\<close> puts a source into the slot asked for, or for a negative position into the
  first empty one, and no other slot changes; the vector grows just enough, which is announced, and
  the slot is announced as changed.
\<close>

theorem add_source_fills_a_slot:
  assumes "show_ok (en_show e)" and "add_new_source s pos e = (e', sgs)"
  shows "\<exists>p. (0 \<le> pos \<longrightarrow> p = nat pos) \<and>
    (pos < 0 \<longrightarrow> slot_source p (en_show e) = None \<and> (\<forall>i < p. slot_source i (en_show e) \<noteq> None)) \<and>
    (\<forall>i. slot_source i (en_show e') = (if i = p then Some s else slot_source i (en_show e))) \<and>
    getSourcesSize e' = max (getSourcesSize e) (p + 1) \<and>
    sgs = (if getSourcesSize e < getSourcesSize e' then [Sources_size_changed (getSourcesSize e')] else []) @
      [Frame_source_changed p]"
proof -
  let ?p = "slot_for pos (sh_sources (en_show e))"
  have e': "e' = fst (add_new_source s pos e)" using assms(2) by simp
  have size: "getSourcesSize e' = max (getSourcesSize e) (?p + 1)"
    by (simp add: e' getSourcesSize_def length_put_source add_new_source_show)
  have "sgs = (if length (sh_sources (en_show e)) \<le> ?p
      then [Sources_size_changed (length (put_source ?p (Some (length (sh_store (en_show e)))) (sh_sources (en_show e))))]
      else []) @ [Frame_source_changed ?p]"
    using assms(2) by (auto simp: add_new_source_def new_source_def addFrameSource_def Let_def)
  then have "sgs = (if getSourcesSize e < getSourcesSize e' then [Sources_size_changed (getSourcesSize e')] else []) @
      [Frame_source_changed ?p]"
    unfolding size by (simp add: length_put_source getSourcesSize_def)
  then show ?thesis
    using size slot_source_added [OF assms(1)] slot_for_nonneg slot_for_empty [of pos "en_show e"]
    by (intro exI [of _ ?p]) (auto simp: e')
qed

theorem add_source_fills_a_slot_witness:
  "\<exists>e'. add_new_source (demo_frame 1) (- 1) stocked_engine = (e', [Frame_source_changed 0]) \<and>
    slot_source 0 (en_show e') = Some (demo_frame 1) \<and> slot_source 2 (en_show e') = Some demo_tree"
proof -
  obtain e' sgs where a: "add_new_source (demo_frame 1) (- 1) stocked_engine = (e', sgs)"
    by (cases "add_new_source (demo_frame 1) (- 1) stocked_engine")
  from add_source_fills_a_slot [OF stocked_engine_simps(1) a]
  obtain p where p: "\<forall>i < p. slot_source i (en_show stocked_engine) \<noteq> None"
    "\<forall>i. slot_source i (en_show e') = (if i = p then Some (demo_frame 1) else slot_source i (en_show stocked_engine))"
    "getSourcesSize e' = max 3 (p + 1)"
    "sgs = (if 3 < getSourcesSize e' then [Sources_size_changed (getSourcesSize e')] else []) @ [Frame_source_changed p]"
    by auto
  then have "p = 0" by (auto simp: stocked_engine_slots)
  then show ?thesis using a p by (intro exI [of _ e']) (simp add: stocked_engine_slots)
qed

text \<open>
  C11. A save that has been started finishes: after one pass for each slot and one more the thread
  has ended and the mutex is free again, and the document written has exactly the occupied slots, in
  their order, each with its position.
\<close>

theorem saving_finishes:
  assumes "\<not> en_save_locked e"
  shows "\<exists>e1. saveShow True date e = Inr (True, e1) \<and>
    saver_run (Suc (getSourcesSize e)) q x e1 =
      (e\<lparr>en_save_locked := False, en_saver := None\<rparr>, Some (show_document q x date (en_show e)))"
  by (rule saver_run_document [OF assms])

theorem saving_finishes_witness:
  "\<exists>e1. saveShow True [] stocked_engine = Inr (True, e1) \<and>
    snd (saver_run 4 exact_qt exact_text e1) = Some (show_document exact_qt exact_text [] (en_show stocked_engine))"
  using saving_finishes [OF stocked_engine_simps(3), of "[]" exact_qt exact_text]
  by (auto simp del: saver_run.simps)

text \<open>
  C10. Whatever a show file holds, loading it ends: within as many passes as the file has tokens the
  thread has finished and released its mutex, or the program has been stopped by an assertion or by
  an exception of the standard library. No document keeps it reading for ever.
\<close>

theorem loading_any_file_ends:
  assumes "locks_ok e" and "\<not> en_load_locked e"
  shows "case loader_run (length toks + 2) q x reg (fst (snd (loadShow True toks clr e))) of
      Inr e' \<Rightarrow> en_loader e' = None \<and> \<not> en_load_locked e'
    | Inl err \<Rightarrow> err \<in> {Assertion_failed, Uncaught_exception}"
proof -
  let ?e = "fst (snd (loadShow True toks clr e))"
  have l: "locks_ok ?e" by (rule locks_ok_ops(10) [OF assms(1)])
  have "length r < length toks + 2" if "en_loader ?e = Some r" for r
    using that assms(2) length_find_show [of toks] by (auto simp: loadShow_def case_prod_beta Let_def)
  then have run: "case loader_run (length toks + 2) q x reg ?e of Inr e' \<Rightarrow> en_loader e' = None
      | Inl err \<Rightarrow> err \<in> {Assertion_failed, Uncaught_exception}" by (rule loader_run_ends)
  show ?thesis
  proof (cases "loader_run (length toks + 2) q x reg ?e")
    case (Inr e')
    then show ?thesis using run loader_run_locks [OF Inr l] by (simp add: locks_ok_def)
  qed (use run in simp)
qed

theorem loading_any_file_ends_witness:
  "case loader_run 6 exact_qt exact_text None (fst (snd (loadShow True
      [Start_element ''Lucifer'' [(''Version'', ''1.1.0'')], Start_element ''Sequence'' [],
       End_element ''Sequence'', End_element ''Lucifer''] True quiet_engine))) of
     Inr e' \<Rightarrow> en_loader e' = None \<and> \<not> en_load_locked e' | Inl err \<Rightarrow> err \<in> {Assertion_failed, Uncaught_exception}"
proof -
  have "locks_ok quiet_engine" "\<not> en_load_locked quiet_engine"
    by (simp_all add: quiet_engine_def locks_ok_def)
  then show ?thesis
    using loading_any_file_ends [of quiet_engine "[Start_element ''Lucifer'' [(''Version'', ''1.1.0'')],
       Start_element ''Sequence'' [], End_element ''Sequence'', End_element ''Lucifer'']"
       exact_qt exact_text None True]
    by (simp add: eval_nat_numeral del: loader_run.simps)
qed


lemma well_written_document: "well_written (show_document q x date sh)"
proof -
  have "well_written (slot_tokens q x ps)" for ps
    by (induction ps) (simp_all add: sequence_tokens_def well_written_append well_written_saveFrames)
  then show ?thesis
    by (simp add: show_document_def show_start_def show_end_def well_written_append)
qed


end
