(* ===== verification/Button_Grid.thy ===== *)
theory Button_Grid
  imports Engine_Shows
begin

text \<open>
  The widgets that show frame sources: \<open>displayframe.h\<close>, \<open>displayframe.cpp\<close> (a frame inside an
  indicator band and a border), \<open>outputview.h\<close>, \<open>outputview.cpp\<close> (what a head puts out),
  \<open>screendisplay.h\<close>, \<open>screendisplay.cpp\<close> (the button of one slot of the engine) and
  \<open>buttongrid.h\<close>, \<open>buttongrid.cpp\<close> (the buttons of 64 slots).

  A derived class is an extension of the record of its base class. What a widget asks the engine to
  do is returned as a list of the engine's events. Painting is the list of the shapes drawn.
\<close>

section \<open>DisplayFrame\<close>

record ('c, 'm) display_frame =
  df_bw :: u32
  df_iw :: u32
  df_bc :: indicator
  df_ic :: indicator
  df_points :: "('c, 'm) frame option"

definition DisplayFrame :: "('c, 'm) display_frame" where
  "DisplayFrame = \<lparr>df_bw = 0, df_iw = 0, df_bc = Black, df_ic = Red, df_points = None\<rparr>"

definition clear_display :: "('c, 'm, 'r) display_frame_scheme \<Rightarrow> ('c, 'm, 'r) display_frame_scheme" where
  "clear_display d = d\<lparr>df_points := None\<rparr>"

definition setIndicatorColour :: "indicator \<Rightarrow> ('c, 'm, 'r) display_frame_scheme \<Rightarrow>
    ('c, 'm, 'r) display_frame_scheme" where
  "setIndicatorColour colour d = d\<lparr>df_ic := colour\<rparr>"

definition setBorderColour :: "indicator \<Rightarrow> ('c, 'm, 'r) display_frame_scheme \<Rightarrow>
    ('c, 'm, 'r) display_frame_scheme" where
  "setBorderColour colour d = d\<lparr>df_bc := colour\<rparr>"

definition setIndicatorWidth :: "u32 \<Rightarrow> ('c, 'm, 'r) display_frame_scheme \<Rightarrow>
    ('c, 'm, 'r) display_frame_scheme" where
  "setIndicatorWidth width d = d\<lparr>df_iw := width\<rparr>"

definition setBorderWidth :: "u32 \<Rightarrow> ('c, 'm, 'r) display_frame_scheme \<Rightarrow>
    ('c, 'm, 'r) display_frame_scheme" where
  "setBorderWidth width d = d\<lparr>df_bw := width\<rparr>"

definition setFrame :: "('c, 'm) frame option \<Rightarrow> ('c, 'm, 'r) display_frame_scheme \<Rightarrow>
    ('c, 'm, 'r) display_frame_scheme" where
  "setFrame fr d = d\<lparr>df_points := fr\<rparr>"

text \<open>
  \<open>paintEvent\<close>: three rectangles (left, top, width, height) and the strokes of the frame. Twice an
  unsigned width is subtracted from a signed size, in unsigned arithmetic. \<open>scr\<close> has the left and
  top edge, the height and the width of the area \<open>render\<close> draws in.
\<close>

datatype 'c shape = Rectangle int int int int indicator | Stroke "'c stroke"

definition inner_size :: "int \<Rightarrow> u32 \<Rightarrow> int" where
  "inner_size extent border = sint (word_of_int extent - 2 * border :: u32)"

definition paintEvent :: "('c, 'f, 'm) qt \<Rightarrow> (int \<Rightarrow> int \<Rightarrow> int \<Rightarrow> int \<Rightarrow> rat \<Rightarrow> rat \<Rightarrow> int \<times> int) \<Rightarrow>
    int \<Rightarrow> int \<Rightarrow> ('c, 'm, 'r) display_frame_scheme \<Rightarrow> 'c shape list" where
  "paintEvent q scr wd ht d =
     (let h = inner_size ht (df_bw d); w = inner_size wd (df_bw d)
      in [Rectangle 0 0 wd ht (df_bc d),
          Rectangle (sint (df_iw d)) (sint (df_iw d)) (inner_size wd (df_iw d))
            (inner_size ht (df_iw d)) (df_ic d),
          Rectangle (sint (df_bw d)) (sint (df_bw d)) w h Black] @
         (case df_points d of None \<Rightarrow> []
          | Some fr \<Rightarrow> map Stroke (render q (scr (sint (df_bw d)) (sint (df_bw d)) h w) fr)))"

section \<open>OutputView\<close>

text \<open>
  A view of a head: inside the button window, or a window of its own that follows the first one.
  \<open>updateDisplay\<close> compares pointers; showing the same frame again changes nothing.
\<close>

datatype mouse_button = Left_button | Right_button | Other_button

record ('c, 'm) output_view = "('c, 'm) display_frame" +
  ov_of :: "('c, 'm) frame option"
  ov_independent :: bool
  ov_name :: string

definition OutputView :: "bool \<Rightarrow> ('c, 'm) output_view" where
  "OutputView independent_window =
     setIndicatorWidth 1 (setBorderWidth 4 (setBorderColour Black (setIndicatorColour Black
       (display_frame.extend DisplayFrame
          \<lparr>ov_of = None, ov_independent = independent_window, ov_name = []\<rparr>))))"

definition setTitle :: "string \<Rightarrow> ('c, 'm) output_view \<Rightarrow> ('c, 'm) output_view" where
  "setTitle title v = v\<lparr>ov_name := title\<rparr>"

text \<open>The second component is the signal \<open>displayUpdated\<close>.\<close>

definition updateDisplay :: "('c, 'm) frame option \<Rightarrow> ('c, 'm) output_view \<Rightarrow>
    ('c, 'm) output_view \<times> ('c, 'm) frame option" where
  "updateDisplay f v = (if f \<noteq> ov_of v then setFrame f (v\<lparr>ov_of := f\<rparr>) else v, f)"

text \<open>A right click opens a window that follows this view.\<close>

definition rightClickedData :: "('c, 'm) output_view \<Rightarrow> ('c, 'm) output_view option" where
  "rightClickedData v = (if \<not> ov_independent v then Some (setTitle (ov_name v) (OutputView True)) else None)"

datatype view_signal = Left_clicked | Right_clicked

definition view_mouseRelease :: "mouse_button \<Rightarrow> view_signal list" where
  "view_mouseRelease b = (case b of Left_button \<Rightarrow> [Left_clicked] | Right_button \<Rightarrow> [Right_clicked]
     | Other_button \<Rightarrow> [])"

section \<open>ScreenDisplay\<close>

text \<open>
  \<open>sd_timer\<close> is the period of the running timer. \<open>sd_drag_time\<close> is the time of the last press.
\<close>

record ('c, 'f, 'm) screen_display = "('c, 'm) display_frame" +
  sd_pb :: "'f play_ref option" \<comment> \<open>\<open>pb\<close>; None is a null \<open>PlaybackPtr\<close>\<close>
  sd_timer :: "nat option"
  sd_dragStartPosition :: "int \<times> int"
  sd_dragStartTime :: "nat option"
  sd_dragging :: bool
  sd_id :: int

definition ScreenDisplay :: "int \<Rightarrow> ('c, 'f, 'm) screen_display" where
  "ScreenDisplay ident =
     setIndicatorWidth 1 (setBorderWidth 4 (setBorderColour Black (setIndicatorColour Black
       (display_frame.extend DisplayFrame
          \<lparr>sd_pb = None, sd_timer = None, sd_dragStartPosition = (0, 0), sd_dragStartTime = None,
           sd_dragging = False, sd_id = ident\<rparr>))))"

definition pb_reset :: "('c, 'f, 'm) qt \<Rightarrow> nat \<Rightarrow> ('c, 'f, 'm) screen_display \<Rightarrow>
    ('c, 'f, 'm) show_data \<Rightarrow> (('c, 'f, 'm) screen_display \<times> ('c, 'f, 'm) show_data) res" where
  "pb_reset q now d sh = (case sd_pb d of None \<Rightarrow> Inl Undefined_behaviour
     | Some r \<Rightarrow> rbind (ref_reset q now r sh) (\<lambda>(r', sh'). Inr (d\<lparr>sd_pb := Some r'\<rparr>, sh')))"

definition pb_nextFrame :: "('c, 'f, 'm) qt \<Rightarrow> nat \<Rightarrow> ('c, 'f, 'm) screen_display \<Rightarrow>
    ('c, 'f, 'm) show_data \<Rightarrow>
    (('c, 'm) frame option \<times> ('c, 'f, 'm) screen_display \<times> ('c, 'f, 'm) show_data) res" where
  "pb_nextFrame q now d sh = (case sd_pb d of None \<Rightarrow> Inl Undefined_behaviour
     | Some r \<Rightarrow> rbind (ref_nextFrame q now r sh) (\<lambda>(fr, r', sh').
         Inr (fr, d\<lparr>sd_pb := Some r'\<rparr>, sh')))"

text \<open>The period of the timer, \<open>1000.0/fps\<close>, is cut to milliseconds.\<close>

definition animate :: "('c, 'f, 'm) qt \<Rightarrow> nat \<Rightarrow> bool \<Rightarrow> nat \<Rightarrow> ('c, 'f, 'm) screen_display \<Rightarrow>
    ('c, 'f, 'm) show_data \<Rightarrow> (('c, 'f, 'm) screen_display \<times> ('c, 'f, 'm) show_data) res" where
  "animate q now run fps d sh =
     (if sd_pb d = None then Inr (d, sh)
      else if run then rbind (pb_reset q now d sh) (\<lambda>(d', sh'). Inr (d'\<lparr>sd_timer := Some (1000 div fps)\<rparr>, sh'))
      else Inr (d\<lparr>sd_timer := None\<rparr>, sh))"

definition source :: "('c, 'f, 'm) qt \<Rightarrow> nat \<Rightarrow> 'f play_ref option \<Rightarrow> ('c, 'f, 'm) screen_display \<Rightarrow>
    ('c, 'f, 'm) show_data \<Rightarrow> (('c, 'f, 'm) screen_display \<times> ('c, 'f, 'm) show_data) res" where
  "source q now pb d sh =
     rbind (pb_reset q now (d\<lparr>sd_pb := pb\<rparr>) sh) (\<lambda>(d1, sh1).
     rbind (pb_nextFrame q now d1 sh1) (\<lambda>(fr, d2, sh2). Inr (setFrame fr d2, sh2)))"

definition advance :: "('c, 'f, 'm) qt \<Rightarrow> nat \<Rightarrow> ('c, 'f, 'm) screen_display \<Rightarrow>
    ('c, 'f, 'm) show_data \<Rightarrow> (('c, 'f, 'm) screen_display \<times> ('c, 'f, 'm) show_data) res" where
  "advance q now d sh =
     (if sd_pb d = None then Inr (setFrame None d, sh)
      else rbind (pb_nextFrame q now d sh) (\<lambda>(fr, d1, sh1).
        if fr = None then
          rbind (pb_reset q now d1 sh1) (\<lambda>(d2, sh2).
          rbind (pb_nextFrame q now d2 sh2) (\<lambda>(fr', d3, sh3). Inr (setFrame fr' d3, sh3)))
        else Inr (setFrame fr d1, sh1)))"

text \<open>\<open>loadData\<close>: the file chosen in the dialog is imported into the slot of the button.\<close>

definition loadData :: "string \<Rightarrow> ('c, 'f, 'm) screen_display \<Rightarrow> ('c, 'f, 'm) engine_event list" where
  "loadData filename d = (if filename \<noteq> [] then [Import_show [filename] (sd_id d)] else [])"

text \<open>\<open>editData\<close>: the source given to the new editor.\<close>

definition editData :: "('c, 'f, 'm) screen_display \<Rightarrow> nat option res" where
  "editData d = (case sd_pb d of None \<Rightarrow> Inl Undefined_behaviour | Some r \<Rightarrow> Inr (map_option fst r))"

fun mime_formats :: "mime_data \<Rightarrow> string list" where
  "mime_formats (Uri_list _) = [''text/uri-list'']"
| "mime_formats (Laser_object _ _) = [''text/x-FrameSource'']"
| "mime_formats (Source_text _) = [''text/x-FrameSource'']"
| "mime_formats Other_data = []"

definition dragEnterEvent :: "mime_data \<Rightarrow> bool" where
  "dragEnterEvent data \<longleftrightarrow> list_ex (\<lambda>t. t \<in> set (mime_formats data)) engine_mimeTypes"

text \<open>\<open>dropEvent\<close> asks the engine to take the data; the datatypes of a drag have one format each.\<close>

definition dropEvent :: "mime_data \<Rightarrow> ('c, 'f, 'm) screen_display \<Rightarrow> ('c, 'f, 'm) engine_event list" where
  "dropEvent data d = (if dragEnterEvent data then [Dropped data (sd_id d)] else [])"

definition mouseReleaseEvent :: "mouse_button \<Rightarrow> ('c, 'f, 'm) screen_display \<Rightarrow>
    (('c, 'f, 'm) screen_display \<times> ('c, 'f, 'm) engine_event list) res" where
  "mouseReleaseEvent b d =
     (if b = Left_button \<and> \<not> sd_dragging d then (case sd_pb d of
        None \<Rightarrow> Inl Undefined_behaviour
      | Some None \<Rightarrow> Inr (d, [])
      | Some (Some _) \<Rightarrow> Inr (d\<lparr>sd_dragging := False\<rparr>, [Clicked (sd_id d)]))
      else Inr (d, []))"

text \<open>\<open>mousePressEvent\<close>: the second component tells whether the menu pops up.\<close>

definition mousePressEvent :: "mouse_button \<Rightarrow> int \<times> int \<Rightarrow> nat \<Rightarrow> ('c, 'f, 'm) screen_display \<Rightarrow>
    ('c, 'f, 'm) screen_display \<times> bool" where
  "mousePressEvent b pos now d = (case b of
     Right_button \<Rightarrow> (d, True)
   | Left_button \<Rightarrow> (d\<lparr>sd_dragStartPosition := pos, sd_dragStartTime := Some now\<rparr>, False)
   | Other_button \<Rightarrow> (d, False))"

text \<open>\<open>enterEvent\<close> and \<open>leaveEvent\<close>: the preview runs while the mouse is over the button.\<close>

definition describe :: "('c, 'f, 'm) show_data \<Rightarrow> nat \<Rightarrow> string" where
  "describe sh a = getDescription (sh_store sh ! a) @ '' ('' @ dec_string (frames (sh_store sh ! a)) @ '')''"

definition enterEvent :: "('c, 'f, 'm) qt \<Rightarrow> nat \<Rightarrow> ('c, 'f, 'm) screen_display \<Rightarrow>
    ('c, 'f, 'm) show_data \<Rightarrow>
    (('c, 'f, 'm) screen_display \<times> ('c, 'f, 'm) show_data \<times> string option) res" where
  "enterEvent q now d sh = rbind (animate q now True 15 d sh) (\<lambda>(d1, sh1).
     Inr (d1\<lparr>sd_dragging := False\<rparr>, sh1,
          (case sd_pb d1 of Some (Some (a, p)) \<Rightarrow> Some (describe sh1 a) | _ \<Rightarrow> None)))"

definition leaveEvent :: "('c, 'f, 'm) qt \<Rightarrow> nat \<Rightarrow> ('c, 'f, 'm) screen_display \<Rightarrow>
    ('c, 'f, 'm) show_data \<Rightarrow> (('c, 'f, 'm) screen_display \<times> ('c, 'f, 'm) show_data) res" where
  "leaveEvent q now d sh = rbind (animate q now False 5 d sh) (\<lambda>(d1, sh1).
     Inr (d1\<lparr>sd_dragging := False\<rparr>, sh1))"

text \<open>
  \<open>mouseMoveEvent\<close> starts a drag once the mouse has moved \<open>far\<close> pixels and \<open>time\<close> milliseconds have
  passed since the press; the result has the data of the drag.
\<close>

definition mouseMoveEvent :: "('c, 'f, 'm) qt \<Rightarrow> ('f, 'm) text_lib \<Rightarrow> int \<Rightarrow> int \<Rightarrow> bool \<Rightarrow>
    int \<times> int \<Rightarrow> nat \<Rightarrow> ('c, 'f, 'm) screen_display \<Rightarrow> ('c, 'f, 'm, 'z) engine \<Rightarrow>
    (('c, 'f, 'm) screen_display \<times> mime_data option) res" where
  "mouseMoveEvent q x far time left pos now d e =
     (if sd_pb d = None \<or> \<not> left then Inr (d, None)
      else let (sx, sy) = sd_dragStartPosition d; (px, py) = pos
        in if \<bar>px - sx\<bar> + \<bar>py - sy\<bar> < far \<or> elapsed now (sd_dragStartTime d) < time then Inr (d, None)
           else rbind (mimeData q x (sd_id d) e) (\<lambda>data. Inr (d\<lparr>sd_dragging := True\<rparr>, Some data)))"

section \<open>ButtonGrid\<close>

text \<open>The layout gives the widget in a row and a column.\<close>

record ('c, 'f, 'm) button_grid =
  bg_num_x :: u32
  bg_num_y :: u32
  bg_offset :: u32
  bg_layout :: "nat \<times> nat \<rightharpoonup> ('c, 'f, 'm) screen_display"
  bg_status :: string

definition dimensions :: "('c, 'f, 'm) button_grid \<Rightarrow> int \<times> int" where
  "dimensions g = (sint (bg_num_x g), sint (bg_num_y g))"

definition grid_at :: "u32 \<Rightarrow> u32 \<Rightarrow> ('c, 'f, 'm) button_grid \<Rightarrow> ('c, 'f, 'm) screen_display option" where
  "grid_at x y g = (if x \<ge> bg_num_x g \<or> y \<ge> bg_num_y g then None else bg_layout g (unat x, unat y))"

definition put_at :: "u32 \<Rightarrow> u32 \<Rightarrow> ('c, 'f, 'm) screen_display \<Rightarrow> ('c, 'f, 'm) button_grid \<Rightarrow>
    ('c, 'f, 'm) button_grid" where
  "put_at x y d g = g\<lparr>bg_layout := (bg_layout g)((unat x, unat y) \<mapsto> d)\<rparr>"

text \<open>The row and the column of a position, when the position is one of the grid's.\<close>

definition grid_cell :: "nat \<Rightarrow> ('c, 'f, 'm) button_grid \<Rightarrow> (u32 \<times> u32) option" where
  "grid_cell pos g =
     (if pos \<ge> unat (bg_offset g) \<and> pos - unat (bg_offset g) < unat (bg_num_x g * bg_num_y g) then
        (let p = pos - unat (bg_offset g)
         in Some (of_nat (p mod unat (bg_num_x g)), of_nat (p div unat (bg_num_x g))))
      else None)"

definition grid_frameSourceChanged :: "('c, 'f, 'm) qt \<Rightarrow> nat \<Rightarrow> nat \<Rightarrow> ('c, 'f, 'm) button_grid \<Rightarrow>
    ('c, 'f, 'm) show_data \<Rightarrow> (('c, 'f, 'm) button_grid \<times> ('c, 'f, 'm) show_data) res" where
  "grid_frameSourceChanged q now pos g sh = (case grid_cell pos g of
     None \<Rightarrow> Inr (g, sh)
   | Some (x, y) \<Rightarrow> (case grid_at x y g of
       None \<Rightarrow> Inr (g, sh)
     | Some s \<Rightarrow> rbind (source q now (Some (getPlayback q pos sh)) s sh) (\<lambda>(s', sh').
         Inr (put_at x y s' g, sh'))))"

definition grid_selectionChangedData :: "u32 \<Rightarrow> indicator \<Rightarrow> ('c, 'f, 'm) button_grid \<Rightarrow>
    ('c, 'f, 'm) button_grid" where
  "grid_selectionChangedData pos col g = (case grid_cell (unat pos) g of
     None \<Rightarrow> g
   | Some (x, y) \<Rightarrow> (case grid_at x y g of
       None \<Rightarrow> g
     | Some s \<Rightarrow> put_at x y (setIndicatorColour col s) g))"

definition grid_message :: "string \<Rightarrow> ('c, 'f, 'm) button_grid \<Rightarrow> ('c, 'f, 'm) button_grid" where
  "grid_message text g = g\<lparr>bg_status := text\<rparr>"

text \<open>The two loops of the constructor.\<close>

definition grid_cells :: "u32 \<Rightarrow> u32 \<Rightarrow> (u32 \<times> u32) list" where
  "grid_cells nx ny = concat (map (\<lambda>x. map (\<lambda>y. (of_nat x, of_nat y)) [0..<unat ny]) [0..<unat nx])"

fun fill_grid :: "('c, 'f, 'm) qt \<Rightarrow> nat \<Rightarrow> (u32 \<times> u32) list \<Rightarrow> ('c, 'f, 'm) button_grid \<Rightarrow>
    ('c, 'f, 'm) show_data \<Rightarrow> (('c, 'f, 'm) button_grid \<times> ('c, 'f, 'm) show_data) res" where
  "fill_grid q now [] g sh = Inr (g, sh)"
| "fill_grid q now ((x, y) # cells) g sh =
     rbind (grid_frameSourceChanged q now (unat (bg_offset g + x + y * bg_num_x g))
         (put_at x y (ScreenDisplay (sint (bg_offset g + y * bg_num_x g + x))) g) sh)
       (\<lambda>(g', sh'). fill_grid q now cells g' sh')"

definition ButtonGrid :: "('c, 'f, 'm) qt \<Rightarrow> nat \<Rightarrow> u32 \<Rightarrow> u32 \<Rightarrow> u32 \<Rightarrow> ('c, 'f, 'm) show_data \<Rightarrow>
    (('c, 'f, 'm) button_grid \<times> ('c, 'f, 'm) show_data) res" where
  "ButtonGrid q now num_x num_y off sh =
     fill_grid q now (grid_cells num_x num_y)
       \<lparr>bg_num_x = num_x, bg_num_y = num_y, bg_offset = off, bg_layout = Map.empty, bg_status = []\<rparr> sh"

section \<open>The buttons of a grid\<close>

text \<open>
  The grids of the program have 64 buttons each, and the slots they show follow each other. The
  numbers of the slots are ints, so a grid ends at $2^{31}$ at the latest.
\<close>

definition grid_shape :: "nat \<Rightarrow> ('c, 'f, 'm) button_grid \<Rightarrow> bool" where
  "grid_shape off g \<longleftrightarrow> bg_num_x g = 8 \<and> bg_num_y g = 8 \<and> bg_offset g = of_nat off \<and> off + 64 \<le> 2 ^ 31"

definition button :: "nat \<Rightarrow> ('c, 'f, 'm) button_grid \<Rightarrow> ('c, 'f, 'm) screen_display option" where
  "button pos g = (case grid_cell pos g of None \<Rightarrow> None | Some (x, y) \<Rightarrow> grid_at x y g)"

definition shows_source :: "('c, 'f, 'm) show_data \<Rightarrow> nat \<Rightarrow> ('c, 'f, 'm) screen_display \<Rightarrow> bool" where
  "shows_source sh pos d \<longleftrightarrow> sd_id d = int pos \<and>
     (\<exists>r. sd_pb d = Some r \<and> map_option fst r = getFrameSource_at pos sh)"

lemma grid_cell_shape:
  assumes "grid_shape off g"
  shows "grid_cell pos g = (if off \<le> pos \<and> pos < off + 64
    then Some (of_nat ((pos - off) mod 8), of_nat ((pos - off) div 8)) else None)"
proof -
  have "unat (of_nat off :: u32) = off" using assms by (auto simp: grid_shape_def intro!: unat_of_nat_below)
  then show ?thesis using assms by (auto simp: grid_cell_def grid_shape_def Let_def)
qed

lemma sint_of_nat_small: "n < 2 ^ 31 \<Longrightarrow> sint (of_nat n :: u32) = int n"
  by (subst sint_u32_small) (simp_all add: word_less_nat_alt unat_of_nat_below)

lemma grid_position:
  assumes "off + 64 \<le> 2 ^ 31" and "i < 8" and "j < 8"
  shows "unat (of_nat off + of_nat i + of_nat j * 8 :: u32) = off + i + 8 * j"
    and "sint (of_nat off + of_nat j * 8 + of_nat i :: u32) = int (off + i + 8 * j)"
proof -
  have e: "of_nat off + of_nat i + of_nat j * 8 = (of_nat (off + i + 8 * j) :: u32)"
    "of_nat off + of_nat j * 8 + of_nat i = (of_nat (off + i + 8 * j) :: u32)" by simp_all
  have l: "off + i + 8 * j < 2 ^ 31" using assms by simp
  show "unat (of_nat off + of_nat i + of_nat j * 8 :: u32) = off + i + 8 * j"
    unfolding e by (rule unat_of_nat_below) (use l in simp)
  show "sint (of_nat off + of_nat j * 8 + of_nat i :: u32) = int (off + i + 8 * j)"
    unfolding e by (rule sint_of_nat_small [OF l])
qed

lemma grid_shape_put_at [simp]: "grid_shape off (put_at x y d g) = grid_shape off g"
  by (simp add: grid_shape_def put_at_def)

lemma grid_message_simps [simp]:
  "grid_shape off (grid_message text g) = grid_shape off g" "button pos (grid_message text g) = button pos g"
  by (simp_all add: grid_message_def grid_shape_def button_def grid_cell_def grid_at_def Let_def
      cong: option.case_cong)

lemma grid_at_small:
  "grid_shape off g \<Longrightarrow> i < 8 \<Longrightarrow> j < 8 \<Longrightarrow> grid_at (of_nat i) (of_nat j) g = bg_layout g (i, j)"
  by (simp add: grid_at_def grid_shape_def word_le_nat_alt unat_of_nat_below)

lemma button_shape:
  assumes "grid_shape off g"
  shows "button pos g = (if off \<le> pos \<and> pos < off + 64
     then bg_layout g ((pos - off) mod 8, (pos - off) div 8) else None)"
proof (cases "off \<le> pos \<and> pos < off + 64")
  case True
  then have "(pos - off) mod 8 < 8" "(pos - off) div 8 < 8" by auto
  then show ?thesis using True by (simp add: button_def grid_cell_shape [OF assms] grid_at_small [OF assms])
qed (auto simp: button_def grid_cell_shape [OF assms])

lemma cell_position: "i < 8 \<Longrightarrow> p mod 8 = i \<and> p div 8 = j \<longleftrightarrow> p = i + 8 * (j :: nat)"
  by auto

lemma button_put_at:
  assumes "grid_shape off g" and "i < 8" and "j < 8"
  shows "button pos (put_at (of_nat i) (of_nat j) d g) = (if pos = off + i + 8 * j then Some d else button pos g)"
proof (cases "off \<le> pos \<and> pos < off + 64")
  case True
  let ?p = "pos - off"
  have l: "bg_layout (put_at (of_nat i) (of_nat j) d g) = (bg_layout g)((i, j) \<mapsto> d)"
    using assms(2,3) by (simp add: put_at_def unat_of_nat_below)
  have e: "pos = off + i + 8 * j \<longleftrightarrow> (?p mod 8, ?p div 8) = (i, j)"
    using cell_position [OF assms(2), of ?p j] True by auto
  have b: "button pos (put_at (of_nat i) (of_nat j) d g) = ((bg_layout g)((i, j) \<mapsto> d)) (?p mod 8, ?p div 8)"
    using True assms(1) l by (simp add: button_shape [where off = off])
  show ?thesis unfolding b e using True by (simp add: button_shape [OF assms(1)])
next
  case False
  then have "pos \<noteq> off + i + 8 * j" using assms(2,3) by auto
  then show ?thesis using False assms(1) by (auto simp: button_shape [where off = off])
qed

section \<open>The button of a slot follows the engine\<close>

lemma setter_simps [simp]:
  "sd_pb (setFrame fr d) = sd_pb d" "sd_id (setFrame fr d) = sd_id d"
  "sd_pb (setIndicatorColour c d) = sd_pb d" "sd_id (setIndicatorColour c d) = sd_id d"
  by (simp_all add: setFrame_def setIndicatorColour_def)

lemma ScreenDisplay_simps [simp]: "sd_id (ScreenDisplay i) = i" "sd_pb (ScreenDisplay i) = None"
  by (simp_all add: ScreenDisplay_def DisplayFrame_def setIndicatorColour_def setBorderColour_def
      setBorderWidth_def setIndicatorWidth_def display_frame.defs)

text \<open>The widget keeps its number and the source it shows.\<close>

definition same_source :: "('c, 'f, 'm) screen_display \<Rightarrow> ('c, 'f, 'm) screen_display \<Rightarrow> bool" where
  "same_source d d' \<longleftrightarrow> sd_id d' = sd_id d \<and> map_option (map_option fst) (sd_pb d') = map_option (map_option fst) (sd_pb d)"

lemma shows_source_alt: "shows_source sh pos d \<longleftrightarrow>
    sd_id d = int pos \<and> map_option (map_option fst) (sd_pb d) = Some (getFrameSource_at pos sh)"
  by (auto simp: shows_source_def)

lemma same_source_refl [simp]: "same_source d d"
  by (simp add: same_source_def)

lemma same_source_trans [trans]: "same_source a b \<Longrightarrow> same_source b c \<Longrightarrow> same_source a c"
  by (simp add: same_source_def)

lemma same_source_setFrame [simp]: "same_source d (setFrame fr d') = same_source d d'"
  by (simp add: same_source_def)

lemma ref_reset_address: "ref_reset q now r sh = Inr (r', sh') \<Longrightarrow> map_option fst r' = map_option fst r"
  by (auto simp: ref_reset_def rbind_Inr_iff split: option.splits)

lemma ref_nextFrame_address:
  "ref_nextFrame q now r sh = Inr (fr, r', sh') \<Longrightarrow> map_option fst r' = map_option fst r"
  by (auto simp: ref_nextFrame_def rbind_Inr_iff split: option.splits)

lemma pb_reset_same: "pb_reset q now d sh = Inr (d', sh') \<Longrightarrow> same_source d d' \<and> same_shape sh sh'"
  by (auto simp: pb_reset_def rbind_Inr_iff same_source_def split: option.splits
      dest: ref_reset_address ref_reset_shape)

lemma pb_nextFrame_same:
  "pb_nextFrame q now d sh = Inr (fr, d', sh') \<Longrightarrow> same_source d d' \<and> same_shape sh sh'"
  by (auto simp: pb_nextFrame_def rbind_Inr_iff same_source_def split: option.splits
      dest: ref_nextFrame_address ref_nextFrame_shape)

lemma animate_same: "animate q now run fps d sh = Inr (d', sh') \<Longrightarrow> same_source d d' \<and> same_shape sh sh'"
  by (auto simp: animate_def rbind_Inr_iff same_source_def split: if_splits dest!: pb_reset_same)

lemma advance_same:
  assumes "advance q now d sh = Inr (d', sh')"
  shows "same_source d d' \<and> same_shape sh sh'"
proof (cases "sd_pb d = None")
  case True
  then show ?thesis using assms by (auto simp: advance_def)
next
  case False
  then obtain fr d1 sh1 where n: "pb_nextFrame q now d sh = Inr (fr, d1, sh1)"
    using assms by (auto simp: advance_def rbind_Inr_iff)
  note s1 = pb_nextFrame_same [OF n]
  show ?thesis
  proof (cases fr)
    case None
    then obtain d2 sh2 fr' d3 where "pb_reset q now d1 sh1 = Inr (d2, sh2)"
      "pb_nextFrame q now d2 sh2 = Inr (fr', d3, sh')" "d' = setFrame fr' d3"
      using assms False n by (auto simp: advance_def rbind_Inr_iff)
    then show ?thesis using s1 pb_reset_same pb_nextFrame_same same_source_trans same_shape_trans
      by (metis same_source_setFrame)
  qed (use assms False n s1 in \<open>auto simp: advance_def\<close>)
qed

lemma source_shows:
  assumes "source q now (Some (getPlayback q pos sh)) d sh = Inr (d', sh')" and "sd_id d = int pos"
  shows "shows_source sh' pos d' \<and> same_shape sh sh'"
proof -
  let ?d = "d\<lparr>sd_pb := Some (getPlayback q pos sh)\<rparr>"
  obtain d1 sh1 fr d2 where r: "pb_reset q now ?d sh = Inr (d1, sh1)"
    and n: "pb_nextFrame q now d1 sh1 = Inr (fr, d2, sh')" and d: "d' = setFrame fr d2"
    using assms by (auto simp: source_def rbind_Inr_iff)
  have "same_source ?d d'" "same_shape sh sh'"
    using pb_reset_same [OF r] pb_nextFrame_same [OF n] d
    by (auto intro: same_source_trans same_shape_trans)
  then show ?thesis using assms(2)
    by (auto simp: shows_source_alt same_source_def same_shape_def getPlayback_def getFrameSource_at_def
        option.map_comp comp_def option.map_ident)
qed

lemma button_inside: "grid_shape off g \<Longrightarrow> button pos g = Some d \<Longrightarrow> off \<le> pos \<and> pos < off + 64"
  by (auto simp: button_shape split: if_splits)

lemma button_cell:
  assumes "grid_shape off g" and "off \<le> pos" and "pos < off + 64"
  obtains i j where "grid_cell pos g = Some (of_nat i, of_nat j)" "i < 8" "j < 8" "pos = off + i + 8 * j"
proof (rule that)
  show "grid_cell pos g = Some (of_nat ((pos - off) mod 8), of_nat ((pos - off) div 8))"
    using assms by (simp add: grid_cell_shape)
  show "pos = off + (pos - off) mod 8 + 8 * ((pos - off) div 8)" using assms(2) by simp
qed (use assms(2,3) in auto)

text \<open>The slot of the grid: only the button of the changed position changes, and it shows the slot.\<close>

lemma grid_change:
  assumes g: "grid_shape off g" and r: "grid_frameSourceChanged q now pos g sh = Inr (g', sh')"
    and d: "\<And>d. button pos g = Some d \<Longrightarrow> sd_id d = int pos"
  shows "grid_shape off g' \<and> same_shape sh sh' \<and> (\<forall>p. p \<noteq> pos \<longrightarrow> button p g' = button p g) \<and>
    (case button pos g of None \<Rightarrow> button pos g' = None
     | Some _ \<Rightarrow> (\<exists>d'. button pos g' = Some d' \<and> shows_source sh' pos d'))"
proof (cases "button pos g")
  case None
  then have "g' = g \<and> sh' = sh"
    using r by (auto simp: button_def grid_frameSourceChanged_def split: option.splits)
  then show ?thesis using g None by simp
next
  case (Some s)
  obtain i j where c: "grid_cell pos g = Some (of_nat i, of_nat j)" and ij: "i < 8" "j < 8" "pos = off + i + 8 * j"
    using button_cell [OF g] button_inside [OF g Some] by blast
  have "grid_at (of_nat i) (of_nat j) g = Some s" using Some c by (simp add: button_def)
  then obtain s' where s': "source q now (Some (getPlayback q pos sh)) s sh = Inr (s', sh')"
    "g' = put_at (of_nat i) (of_nat j) s' g"
    using r c by (auto simp: grid_frameSourceChanged_def rbind_Inr_iff)
  show ?thesis using source_shows [OF s'(1) d [OF Some]] Some g ij(3)
    by (auto simp: s'(2) button_put_at [OF g ij(1,2)])
qed

text \<open>The constructor: every button exists and shows its slot.\<close>

lemma same_shape_shows: "same_shape sh sh' \<Longrightarrow> shows_source sh' p d = shows_source sh p d"
  by (simp add: shows_source_def same_shape_def getFrameSource_at_def)

lemma fill_grid_shows:
  assumes "grid_shape off g" and "fill_grid q now (map (\<lambda>(i, j). (of_nat i, of_nat j)) cells) g sh = Inr (g', sh')"
    and "\<forall>(i, j) \<in> set cells. i < 8 \<and> j < 8"
  shows "grid_shape off g' \<and> same_shape sh sh' \<and>
    (\<forall>p. (\<exists>i j. (i, j) \<in> set cells \<and> p = off + i + 8 * j) \<or> (\<exists>d. button p g = Some d \<and> shows_source sh p d) \<longrightarrow>
      (\<exists>d. button p g' = Some d \<and> shows_source sh' p d))"
  using assms
proof (induction cells arbitrary: g sh)
  case (Cons c cells)
  obtain i j where c: "c = (i, j)" by (cases c)
  then have ij: "i < 8" "j < 8" using Cons.prems(3) by auto
  have sh: "bg_num_x g = 8" "bg_offset g = of_nat off" "off + 64 \<le> 2 ^ 31"
    using Cons.prems(1) by (auto simp: grid_shape_def)
  let ?p = "off + i + 8 * j"
  let ?g = "put_at (of_nat i) (of_nat j) (ScreenDisplay (int ?p)) g"
  have "fill_grid q now (map (\<lambda>(i, j). (of_nat i, of_nat j)) (c # cells)) g sh =
      rbind (grid_frameSourceChanged q now ?p ?g sh)
        (\<lambda>(g', sh'). fill_grid q now (map (\<lambda>(i, j). (of_nat i, of_nat j)) cells) g' sh')"
    unfolding c using grid_position [OF sh(3) ij] by (simp only: list.map prod.case fill_grid.simps sh(1,2))
  then obtain g1 sh1 where s: "grid_frameSourceChanged q now ?p ?g sh = Inr (g1, sh1)"
    "fill_grid q now (map (\<lambda>(i, j). (of_nat i, of_nat j)) cells) g1 sh1 = Inr (g', sh')"
    using Cons.prems(2) by (auto simp: rbind_Inr_iff)
  have b: "button p ?g = (if p = ?p then Some (ScreenDisplay (int ?p)) else button p g)" for p
    by (rule button_put_at [OF Cons.prems(1) ij])
  have gs: "grid_shape off ?g" using Cons.prems(1) by simp
  have "\<And>d. button ?p ?g = Some d \<Longrightarrow> sd_id d = int ?p" unfolding b by auto
  note ch = grid_change [OF gs s(1) this, unfolded b]
  then have "grid_shape off g1" "same_shape sh sh1" by auto
  moreover have "\<exists>d. button p g1 = Some d \<and> shows_source sh1 p d"
    if "p = ?p \<or> (\<exists>d. button p g = Some d \<and> shows_source sh p d)" for p
    using ch that by (cases "p = ?p") (auto simp: same_shape_shows)
  moreover note Cons.IH [OF \<open>grid_shape off g1\<close> s(2)]
  ultimately show ?case using Cons.prems(3) c same_shape_trans by (auto 0 4)
qed simp

lemma ButtonGrid_shows:
  assumes "ButtonGrid q now 8 8 (of_nat off) sh = Inr (g, sh')" and "off + 64 \<le> 2 ^ 31"
  shows "grid_shape off g \<and> same_shape sh sh' \<and>
    (\<forall>p. off \<le> p \<longrightarrow> p < off + 64 \<longrightarrow> (\<exists>d. button p g = Some d \<and> shows_source sh' p d))"
proof -
  let ?g = "\<lparr>bg_num_x = 8, bg_num_y = 8, bg_offset = of_nat off, bg_layout = Map.empty, bg_status = []\<rparr>"
  let ?cells = "concat (map (\<lambda>i. map (\<lambda>j. (i, j)) [0..<8]) [0..<8]) :: (nat \<times> nat) list"
  have e: "grid_cells 8 8 = map (\<lambda>(i, j). (of_nat i, of_nat j)) ?cells"
    by (simp add: grid_cells_def map_concat comp_def)
  have s: "set ?cells = {..<8} \<times> {..<8}" by auto
  have f: "fill_grid q now (map (\<lambda>(i, j). (of_nat i, of_nat j)) ?cells) ?g sh = Inr (g, sh')"
    using assms(1) by (simp only: ButtonGrid_def e)
  have "grid_shape off ?g" using assms(2) by (simp add: grid_shape_def)
  note r = fill_grid_shows [OF this f]
  have "\<exists>i j. (i, j) \<in> set ?cells \<and> p = off + i + 8 * j" if "off \<le> p" "p < off + 64" for p
  proof (intro exI conjI)
    show "((p - off) mod 8, (p - off) div 8) \<in> set ?cells" unfolding s using that by auto
  qed (use that in simp)
  then show ?thesis using r s by blast
qed

text \<open>The indicators do not change what a button shows.\<close>

lemma grid_indicator:
  assumes g: "grid_shape off g"
  shows "grid_shape off (grid_selectionChangedData pos col g) \<and>
    rel_option same_source (button p g) (button p (grid_selectionChangedData pos col g))"
proof (cases "button (unat pos) g")
  case None
  then have "grid_selectionChangedData pos col g = g"
    by (auto simp: button_def grid_selectionChangedData_def split: option.splits)
  then show ?thesis using g by (simp add: option.rel_refl)
next
  case (Some s)
  obtain i j where c: "grid_cell (unat pos) g = Some (of_nat i, of_nat j)"
    and ij: "i < 8" "j < 8" "unat pos = off + i + 8 * j"
    using button_cell [OF g] button_inside [OF g Some] by blast
  have "grid_at (of_nat i) (of_nat j) g = Some s" using Some c by (simp add: button_def)
  then have "grid_selectionChangedData pos col g = put_at (of_nat i) (of_nat j) (setIndicatorColour col s) g"
    using c by (simp add: grid_selectionChangedData_def)
  then show ?thesis using g Some ij(3)
    by (auto simp: button_put_at [OF g ij(1,2)] same_source_def option.rel_refl)
qed

end
