(* ===== verification/Button_Window.thy ===== *)
theory Button_Window
  imports Button_Grid
begin

text \<open>
  The main window, \<open>buttonwindow.h\<close> and \<open>buttonwindow.cpp\<close>: the tabs of buttons, the views of the
  heads, the menus, the file name and the flag for unsaved changes; and the window together with the
  engine, which runs in threads of its own.

  A signal that another thread emits waits in the queue of the window's thread, one that a call of
  the window itself emits is delivered at once, and a signal of the window to the engine waits in
  the queue of the engine's thread. The placement of the window on the screen, the icons and the log
  are not modelled.
\<close>

section \<open>The window\<close>

record ('c, 'f, 'm) button_window =
  bw_grids :: "('c, 'f, 'm) button_grid list"
  bw_outputs :: "('c, 'm) output_view list"
  bw_unsaved :: bool
  bw_windowModified :: bool
  bw_fileName :: string
  bw_pathName :: string
  bw_fullscreen :: bool
  bw_title :: string
  bw_status :: string

text \<open>What surrounds the window: its settings, the answers of the dialogs, and the disc.\<close>

datatype answer = Answer_save | Answer_discard | Answer_cancel

record user_world =
  uw_fullscreen :: bool
  uw_path :: "string option"
  uw_home :: "string option"
  uw_answer :: answer
  uw_file :: string \<comment> \<open>the file chosen in a dialog; empty when it is cancelled\<close>
  uw_files :: "string list"
  uw_writable :: "string \<Rightarrow> bool"
  uw_contents :: "string \<Rightarrow> xml_token list option"
  uw_date :: string
  uw_directory :: "string \<Rightarrow> string" \<comment> \<open>\<open>QFileInfo::absolutePath\<close>\<close>
  uw_name :: "string \<Rightarrow> string" \<comment> \<open>\<open>QFileInfo::fileName\<close>\<close>

definition setFullScreen :: "('c, 'f, 'm) button_window \<Rightarrow> ('c, 'f, 'm) button_window" where
  "setFullScreen w = w\<lparr>bw_fullscreen := True\<rparr>"

definition clearFullScreen :: "('c, 'f, 'm) button_window \<Rightarrow> ('c, 'f, 'm) button_window" where
  "clearFullScreen w = w\<lparr>bw_fullscreen := False\<rparr>"

definition loadSettings :: "user_world \<Rightarrow> ('c, 'f, 'm) button_window \<Rightarrow> ('c, 'f, 'm) button_window" where
  "loadSettings u w =
     (let w1 = (if uw_fullscreen u then setFullScreen w else clearFullScreen w);
          home = (case uw_home u of Some h \<Rightarrow> h | None \<Rightarrow> ''/'')
      in w1\<lparr>bw_pathName := (case uw_path u of Some p \<Rightarrow> p | None \<Rightarrow> home)\<rparr>)"

definition storeSettings :: "('c, 'f, 'm) button_window \<Rightarrow> user_world \<Rightarrow> user_world" where
  "storeSettings w u = u\<lparr>uw_fullscreen := bw_fullscreen w, uw_path := Some (bw_pathName w)\<rparr>"

definition setCurrentFile :: "user_world \<Rightarrow> string \<Rightarrow> ('c, 'f, 'm) button_window \<Rightarrow>
    ('c, 'f, 'm) button_window" where
  "setCurrentFile u fn w =
     (let w1 = w\<lparr>bw_fileName := fn, bw_unsaved := False, bw_windowModified := False\<rparr>;
          (w2, shown) = (if fn = [] then (w1, ''untitled.lsf'')
                         else (w1\<lparr>bw_pathName := uw_directory u fn\<rparr>, uw_name u fn))
      in w2\<lparr>bw_title := shown @ ''[*] - Lucifer - frame selector''\<rparr>)"

definition window_saved :: "('c, 'f, 'm) button_window \<Rightarrow> ('c, 'f, 'm) button_window" where
  "window_saved w = w\<lparr>bw_unsaved := False, bw_windowModified := False\<rparr>"

definition window_loaded :: "('c, 'f, 'm) button_window \<Rightarrow> ('c, 'f, 'm) button_window" where
  "window_loaded w = w\<lparr>bw_unsaved := False, bw_windowModified := False\<rparr>"

definition window_modified :: "('c, 'f, 'm) button_window \<Rightarrow> ('c, 'f, 'm) button_window" where
  "window_modified w = w\<lparr>bw_unsaved := True, bw_windowModified := True\<rparr>"

definition show_status :: "string \<Rightarrow> ('c, 'f, 'm) button_window \<Rightarrow> ('c, 'f, 'm) button_window" where
  "show_status text w = w\<lparr>bw_status := text\<rparr>"

text \<open>The border of the selected head's view is red.\<close>

definition window_headSelectionChanged :: "int \<Rightarrow> ('c, 'f, 'm) button_window \<Rightarrow>
    ('c, 'f, 'm) button_window" where
  "window_headSelectionChanged h w =
     w\<lparr>bw_outputs := map (\<lambda>(i, v). setBorderColour (if int i = h then Red else Black) v)
         (zip [0..<length (bw_outputs w)] (bw_outputs w))\<rparr>"

text \<open>\<open>sourcesSizeChanged\<close> adds tabs until every source has a button.\<close>

function sourcesSizeChanged :: "('c, 'f, 'm) qt \<Rightarrow> nat \<Rightarrow> nat \<Rightarrow> ('c, 'f, 'm) button_window \<Rightarrow>
    ('c, 'f, 'm) show_data \<Rightarrow> (('c, 'f, 'm) button_window \<times> ('c, 'f, 'm) show_data) res" where
  "sourcesSizeChanged q now s w sh =
     (if s > 64 * length (bw_grids w) then
        rbind (ButtonGrid q now 8 8 (of_nat (64 * length (bw_grids w))) sh) (\<lambda>(g, sh').
          sourcesSizeChanged q now s (w\<lparr>bw_grids := bw_grids w @ [g]\<rparr>) sh')
      else Inr (w, sh))"
  by pat_completeness auto
termination by (relation "measure (\<lambda>(q, now, s, w, sh). s - 64 * length (bw_grids w))") auto

declare sourcesSizeChanged.simps [simp del]

text \<open>The constructor. The engine has a first head, whose modes fill the two boxes.\<close>

definition head_view :: "nat \<Rightarrow> ('c, 'm) output_view" where
  "head_view i = setIndicatorWidth 5 (setBorderWidth 5
     (setTitle (''Head '' @ dec_string (i + 1)) (OutputView False)))"

definition ButtonWindow :: "('c, 'f, 'm) qt \<Rightarrow> nat \<Rightarrow> user_world \<Rightarrow> ('c, 'f, 'm, 'z) engine \<Rightarrow>
    (('c, 'f, 'm) button_window \<times> ('c, 'f, 'm, 'z) engine) res" where
  "ButtonWindow q now u e =
     (let w1 = loadSettings u \<lparr>bw_grids = [], bw_outputs = [], bw_unsaved = False,
            bw_windowModified = False, bw_fileName = [], bw_pathName = [], bw_fullscreen = False,
            bw_title = [], bw_status = []\<rparr>
      in if getHead 0 e = None then Inl Undefined_behaviour
         else let w2 = window_headSelectionChanged 0 (w1\<lparr>bw_outputs := map head_view [0..<MAX_HEADS]\<rparr>)
           in rbind (ButtonGrid q now 8 8 0 (en_show e)) (\<lambda>(g, sh).
             Inr (setCurrentFile u [] (w2\<lparr>bw_grids := [g], bw_unsaved := False\<rparr>), e\<lparr>en_show := sh\<rparr>)))"

section \<open>Menus and keys\<close>

text \<open>
  What the user does, and what it makes the window call. \<open>saveFile\<close> does not look at the engine's
  answer.
\<close>

type_synonym ('c, 'f, 'm) window_calls = "('c, 'f, 'm) button_window \<times> ('c, 'f, 'm) engine_event list"

definition saveFile_named :: "user_world \<Rightarrow> string \<Rightarrow> ('c, 'f, 'm) button_window \<Rightarrow>
    bool \<times> ('c, 'f, 'm) window_calls" where
  "saveFile_named u fn w =
     (True, show_status ''File saving'' w, [Save_show (uw_writable u fn) (uw_date u)])"

definition saveAsFile :: "user_world \<Rightarrow> ('c, 'f, 'm) button_window \<Rightarrow> bool \<times> ('c, 'f, 'm) window_calls" where
  "saveAsFile u w = (if uw_file u = [] then (False, w, []) else saveFile_named u (uw_file u) w)"

definition saveFile :: "user_world \<Rightarrow> ('c, 'f, 'm) button_window \<Rightarrow> bool \<times> ('c, 'f, 'm) window_calls" where
  "saveFile u w = (if bw_fileName w = [] then saveAsFile u w else saveFile_named u (bw_fileName w) w)"

definition maybeSave :: "user_world \<Rightarrow> ('c, 'f, 'm) button_window \<Rightarrow> bool \<times> ('c, 'f, 'm) window_calls" where
  "maybeSave u w =
     (if bw_unsaved w then (case uw_answer u of
        Answer_save \<Rightarrow> saveFile u w | Answer_cancel \<Rightarrow> (False, w, []) | Answer_discard \<Rightarrow> (True, w, []))
      else (True, w, []))"

text \<open>\<open>loadFile\<close>: the engine clears its sources first, the default of \<open>loadShow\<close>.\<close>

definition loadFile :: "user_world \<Rightarrow> string \<Rightarrow> ('c, 'f, 'm) button_window \<Rightarrow> ('c, 'f, 'm) window_calls" where
  "loadFile u fn w =
     (show_status ''File Loading'' w,
      [case uw_contents u fn of Some toks \<Rightarrow> Load_show True toks True | None \<Rightarrow> Load_show False [] True])"

text \<open>Two dialogs can follow each other here: \<open>chosen\<close> is the answer of the second.\<close>

definition openFile :: "user_world \<Rightarrow> string \<Rightarrow> ('c, 'f, 'm) button_window \<Rightarrow> ('c, 'f, 'm) window_calls" where
  "openFile u chosen w = (case maybeSave u w of (ok, w1, calls) \<Rightarrow>
     if ok \<and> chosen \<noteq> [] then (case loadFile u chosen w1 of (w2, calls') \<Rightarrow> (w2, calls @ calls'))
     else (w1, calls))"

definition importFiles :: "user_world \<Rightarrow> ('c, 'f, 'm) button_window \<Rightarrow> ('c, 'f, 'm) window_calls" where
  "importFiles u w = (window_modified w, [Import_show (uw_files u) (- 1)])"

text \<open>\<open>closeEvent\<close>: the first component tells whether the window closes.\<close>

definition closeEvent :: "user_world \<Rightarrow> ('c, 'f, 'm) button_window \<Rightarrow>
    bool \<times> user_world \<times> ('c, 'f, 'm) window_calls" where
  "closeEvent u w = (case maybeSave u w of (ok, w1, calls) \<Rightarrow>
     (ok, if ok then storeSettings w1 u else u, w1, calls))"

definition all_heads :: "('c, 'f, 'm) head_event \<Rightarrow> ('c, 'f, 'm) engine_event list" where
  "all_heads ev = map (\<lambda>i. Head_event i ev) [0..<MAX_HEADS]"

definition selectionModeData :: "selection_modes \<Rightarrow> ('c, 'f, 'm) engine_event list" where
  "selectionModeData mode = all_heads (Selection_mode mode)"

definition stepModeData :: "step_modes \<Rightarrow> ('c, 'f, 'm) engine_event list" where
  "stepModeData mode = all_heads (Step_mode mode)"

definition userKill :: "('c, 'f, 'm) button_window \<Rightarrow> ('c, 'f, 'm) window_calls" where
  "userKill w = (show_status ''Laser output killed by user'' w, [Kill_event])"

definition userRestart :: "('c, 'f, 'm) button_window \<Rightarrow> ('c, 'f, 'm) window_calls" where
  "userRestart w = (show_status ''Laser output started'' w, [Restart_event])"

datatype key = Key_Escape | Key_F1 | Other_key

definition keyPressEvent :: "key \<Rightarrow> ('c, 'f, 'm) button_window \<Rightarrow> ('c, 'f, 'm) window_calls" where
  "keyPressEvent k w = (case k of Key_Escape \<Rightarrow> userKill w | Key_F1 \<Rightarrow> (w, all_heads Manual_trigger)
     | Other_key \<Rightarrow> (w, []))"

datatype user_event =
    Key_pressed key
  | Save_chosen
  | Save_as_chosen
  | Open_chosen string
  | Import_chosen
  | Close_requested
  | Kill_chosen
  | Restart_chosen
  | Full_screen bool
  | Selection_mode_chosen selection_modes
  | Step_mode_chosen step_modes
  | View_released nat mouse_button

definition window_do :: "user_world \<Rightarrow> user_event \<Rightarrow> ('c, 'f, 'm) button_window \<Rightarrow>
    ('c, 'f, 'm) window_calls" where
  "window_do u ev w = (case ev of
     Key_pressed k \<Rightarrow> keyPressEvent k w
   | Save_chosen \<Rightarrow> snd (saveFile u w)
   | Save_as_chosen \<Rightarrow> snd (saveAsFile u w)
   | Open_chosen chosen \<Rightarrow> openFile u chosen w
   | Import_chosen \<Rightarrow> importFiles u w
   | Close_requested \<Rightarrow> snd (snd (closeEvent u w))
   | Kill_chosen \<Rightarrow> userKill w
   | Restart_chosen \<Rightarrow> userRestart w
   | Full_screen on \<Rightarrow> (if on then setFullScreen w else clearFullScreen w, [])
   | Selection_mode_chosen m \<Rightarrow> (w, selectionModeData m)
   | Step_mode_chosen m \<Rightarrow> (w, stepModeData m)
   | View_released i b \<Rightarrow> (w, if Left_clicked \<in> set (view_mouseRelease b) then [Head_chosen (int i)] else []))"

section \<open>Signals of the engine\<close>

text \<open>The signals that \<open>engine_do\<close> leaves out.\<close>

definition head_tells :: "('c, 'f, 'm, 'z) surroundings \<Rightarrow> nat \<Rightarrow> ('c, 'f, 'm) head_event \<Rightarrow>
    ('c, 'f, 'm, 'z) engine \<Rightarrow> (('c, 'f, 'm, 'z) engine \<times> ('c, 'm) head_signal list) res" where
  "head_tells su i ev e = (case ev of
     Show_event _ \<Rightarrow> Inr (e, [])
   | _ \<Rightarrow> (if i < length (en_heads e) then
       rbind (head_do (su_qt su) (su_zita su) ev (en_heads e ! i, en_show e)) (\<lambda>((h, sh), sgs, taken).
         Inr (e\<lparr>en_heads := (en_heads e)[i := h], en_show := sh\<rparr>, sgs))
      else Inr (e, [])))"

datatype ('c, 'm) gui_signal =
    From_engine engine_signal
  | New_frame_of nat "('c, 'm) frame option"

text \<open>Every head's \<open>selectionChanged\<close> goes to the engine, and from there to the buttons.\<close>

fun head_signal_to_gui :: "nat \<Rightarrow> ('c, 'm) head_signal \<Rightarrow> ('c, 'm) gui_signal list" where
  "head_signal_to_gui i (New_frame fr) = [New_frame_of i fr]"
| "head_signal_to_gui i (Selection_changed pos active) = map From_engine (selectionChangedData pos active)"
| "head_signal_to_gui i sg = []"

text \<open>
  \<open>vector::resize\<close> throws when there is no memory. The model's limit is $2^{30}$ slots.
\<close>

definition slots_limit :: nat where
  "slots_limit = 2 ^ 30"

definition within_memory :: "('c, 'f, 'm, 'z) engine \<times> 'a \<Rightarrow> (('c, 'f, 'm, 'z) engine \<times> 'a) res" where
  "within_memory r = (if getSourcesSize (fst r) \<le> slots_limit then Inr r else Inl Uncaught_exception)"

fun engine_tells :: "('c, 'f, 'm, 'z) surroundings \<Rightarrow> ('c, 'f, 'm) engine_event \<Rightarrow>
    ('c, 'f, 'm, 'z) engine \<Rightarrow> (('c, 'f, 'm, 'z) engine \<times> engine_signal list) res" where
  "engine_tells su (Head_chosen h) e = selectHead h e"
| "engine_tells su (Source_added s pos) e = Inr (add_new_source s pos e)"
| "engine_tells su (Source_copied dest src) e =
     rbind (engine_copy (su_classes su) dest src e) (\<lambda>(_, r). Inr r)"
| "engine_tells su (Dropped data pos) e =
     rbind (mimeHandler (su_qt su) (su_text su) (su_classes su) data pos e) (\<lambda>(_, r). Inr r)"
| "engine_tells su Saver_event e =
     (case saver_step (su_qt su) (su_text su) e of (e1, _, sgs) \<Rightarrow> Inr (e1, sgs))"
| "engine_tells su (Load_show opened contents clr) e = Inr (snd (loadShow opened contents clr e))"
| "engine_tells su Loader_event e = loader_step (su_qt su) (su_text su) (su_classes su) e"
| "engine_tells su Importer_event e = importer_step (su_load su) e"
| "engine_tells su ev e = rbind (engine_do su ev e) (\<lambda>(e1, _). Inr (e1, []))"

definition engine_event_in_gui :: "('c, 'f, 'm, 'z) surroundings \<Rightarrow> ('c, 'f, 'm) engine_event \<Rightarrow>
    ('c, 'f, 'm, 'z) engine \<Rightarrow> (('c, 'f, 'm, 'z) engine \<times> ('c, 'm) gui_signal list) res" where
  "engine_event_in_gui su ev e = rbind (case ev of
       Head_event i hev \<Rightarrow> rbind (head_tells su i hev e) (\<lambda>(e1, sgs).
         Inr (e1, concat (map (head_signal_to_gui i) sgs)))
     | _ \<Rightarrow> rbind (engine_tells su ev e) (\<lambda>(e1, sgs). Inr (e1, map From_engine sgs))) within_memory"

text \<open>What the window does with a signal.\<close>

fun all_grids_changed :: "('c, 'f, 'm) qt \<Rightarrow> nat \<Rightarrow> nat \<Rightarrow> ('c, 'f, 'm) button_grid list \<Rightarrow>
    ('c, 'f, 'm) show_data \<Rightarrow> (('c, 'f, 'm) button_grid list \<times> ('c, 'f, 'm) show_data) res" where
  "all_grids_changed q now pos [] sh = Inr ([], sh)"
| "all_grids_changed q now pos (g # gs) sh =
     rbind (grid_frameSourceChanged q now pos g sh) (\<lambda>(g', sh1).
     rbind (all_grids_changed q now pos gs sh1) (\<lambda>(gs', sh2). Inr (g' # gs', sh2)))"

definition receive :: "('c, 'f, 'm) qt \<Rightarrow> nat \<Rightarrow> ('c, 'm) gui_signal \<Rightarrow> ('c, 'f, 'm) button_window \<Rightarrow>
    ('c, 'f, 'm) show_data \<Rightarrow> (('c, 'f, 'm) button_window \<times> ('c, 'f, 'm) show_data) res" where
  "receive q now sg w sh = (case sg of
     New_frame_of i fr \<Rightarrow> Inr (if i < length (bw_outputs w)
       then w\<lparr>bw_outputs := (bw_outputs w)[i := fst (updateDisplay fr (bw_outputs w ! i))]\<rparr> else w, sh)
   | From_engine es \<Rightarrow> (case es of
       Sources_size_changed n \<Rightarrow> sourcesSizeChanged q now n w sh
     | Frame_source_changed p \<Rightarrow> rbind (all_grids_changed q now p (bw_grids w) sh) (\<lambda>(gs, sh').
         Inr (w\<lparr>bw_grids := gs\<rparr>, sh'))
     | Set_indicator pos col \<Rightarrow> Inr (w\<lparr>bw_grids := map (grid_selectionChangedData pos col) (bw_grids w)\<rparr>, sh)
     | Head_selection_changed h \<Rightarrow> Inr (window_headSelectionChanged h w, sh)
     | Show_saved \<Rightarrow> Inr (show_status ''Show Saved'' (window_saved w), sh)
     | Show_loaded \<Rightarrow> Inr (show_status ''Show Loaded'' (window_loaded w), sh)
     | _ \<Rightarrow> Inr (w, sh)))"

end
