(* ===== verification/Window_Runs.thy ===== *)
theory Window_Runs
  imports Button_Window
begin

text \<open>
  The window and the engine together: the events of the user, of the buttons and of the engine's
  threads, with the queues between them, and what holds whenever the window's queue is empty: every
  slot of the engine has one button, and the button shows the source of the slot.
\<close>

section \<open>A state and its view\<close>

text \<open>
  What the window and the engine rely on of each other. An operation of the state tells in its signals
  what it changes; the view is in step with the state but for what the waiting signals tell; and taking
  notice of a signal brings the view up to date in what that signal tells. The client lemmas are about
  signals delivered at once, and about signals that wait in a queue.
\<close>

locale told_view =
  fixes ok :: "'e \<Rightarrow> bool"
    and in_step :: "'sg set \<Rightarrow> 'w \<Rightarrow> 'e \<Rightarrow> bool"
    and change :: "'ev \<Rightarrow> 'e \<Rightarrow> ('e \<times> 'sg list) res"
    and notice :: "nat \<Rightarrow> 'sg \<Rightarrow> 'w \<Rightarrow> 'e \<Rightarrow> ('w \<times> 'e) res"
  assumes change_told: "change ev e = Inr (e', sgs) \<Longrightarrow> ok e \<Longrightarrow> in_step M w e \<Longrightarrow>
      ok e' \<and> in_step (set sgs \<union> M) w e'"
    and notice_done: "notice now sg w e = Inr (w', e') \<Longrightarrow> ok e \<Longrightarrow> in_step (insert sg M) w e \<Longrightarrow>
      ok e' \<and> in_step M w' e'"
begin

lemma notice_all:
  "rfold (\<lambda>sg (w, e). notice now sg w e) sgs (w, e) = Inr (w', e') \<Longrightarrow> ok e \<Longrightarrow>
   in_step (set sgs \<union> M) w e \<Longrightarrow> ok e' \<and> in_step M w' e'"
proof (induction sgs arbitrary: w e)
  case (Cons sg sgs)
  obtain w1 e1 where r: "notice now sg w e = Inr (w1, e1)"
    "rfold (\<lambda>sg (w, e). notice now sg w e) sgs (w1, e1) = Inr (w', e')"
    using Cons.prems(1) by (auto simp: rbind_Inr_iff)
  have "ok e1 \<and> in_step (set sgs \<union> M) w1 e1"
    using notice_done [OF r(1) Cons.prems(2)] Cons.prems(3) by simp
  then show ?case using Cons.IH [OF r(2)] by blast
qed simp

lemma told_at_once:
  assumes "change ev e = Inr (e1, sgs)" and "rfold (\<lambda>sg (w, e). notice now sg w e) sgs (w, e1) = Inr (w', e')"
    and "ok e" and "in_step M w e"
  shows "ok e' \<and> in_step M w' e'"
  using change_told [OF assms(1,3,4)] notice_all [OF assms(2)] by blast

lemma told_later:
  assumes "change ev e = Inr (e1, sgs)" and "ok e" and "in_step (set mail) w e"
  shows "ok e1 \<and> in_step (set (mail @ sgs)) w e1"
  using change_told [OF assms] by (simp add: Un_commute)

lemma mail_read:
  assumes "notice now sg w e = Inr (w', e')" and "ok e" and "in_step (set (sg # mail)) w e"
  shows "ok e' \<and> in_step (set mail) w' e'"
  using notice_done [OF assms(1,2), of "set mail"] assms(3) by simp

end

section \<open>State and events\<close>

record ('c, 'f, 'm, 'z) gui =
  gu_engine :: "('c, 'f, 'm, 'z) engine"
  gu_window :: "('c, 'f, 'm) button_window"
  gu_mail :: "('c, 'm) gui_signal list" \<comment> \<open>signals for the window\<close>
  gu_posts :: "('c, 'f, 'm) engine_event list" \<comment> \<open>calls of slots of the engine\<close>

datatype display_event =
    Mouse_enters
  | Mouse_leaves
  | Timer_fires
  | Mouse_pressed mouse_button "int \<times> int"
  | Mouse_moved bool "int \<times> int"
  | Mouse_released mouse_button
  | Data_dropped mime_data
  | File_chosen string

datatype ('c, 'f, 'm) gui_event =
    Engine_event "('c, 'f, 'm) engine_event"
  | Post_event
  | Mail_event
  | User_event user_world user_event
  | Button_event nat display_event

text \<open>Qt's distance and delay for a drag.\<close>

definition drag_distance :: int where
  "drag_distance = 10"

definition drag_time :: int where
  "drag_time = 500"

text \<open>The result has the message for the status bar of the grid, and the calls of the engine.\<close>

definition display_do :: "('c, 'f, 'm, 'z) surroundings \<Rightarrow> nat \<Rightarrow> display_event \<Rightarrow>
    ('c, 'f, 'm, 'z) engine \<Rightarrow> ('c, 'f, 'm) screen_display \<Rightarrow>
    (('c, 'f, 'm) screen_display \<times> ('c, 'f, 'm) show_data \<times> string option \<times> ('c, 'f, 'm) engine_event list) res" where
  "display_do su now ev e d =
     (let q = su_qt su; sh = en_show e in case ev of
        Mouse_enters \<Rightarrow> rbind (enterEvent q now d sh) (\<lambda>(d', sh', msg). Inr (d', sh', msg, []))
      | Mouse_leaves \<Rightarrow> rbind (leaveEvent q now d sh) (\<lambda>(d', sh'). Inr (d', sh', None, []))
      | Timer_fires \<Rightarrow> (if sd_timer d = None then Inr (d, sh, None, [])
          else rbind (advance q now d sh) (\<lambda>(d', sh'). Inr (d', sh', None, [])))
      | Mouse_pressed b pos \<Rightarrow> Inr (fst (mousePressEvent b pos now d), sh, None, [])
      | Mouse_moved left pos \<Rightarrow>
          rbind (mouseMoveEvent q (su_text su) drag_distance drag_time left pos now d e)
            (\<lambda>(d', data). Inr (d', sh, None, []))
      | Mouse_released b \<Rightarrow> rbind (mouseReleaseEvent b d) (\<lambda>(d', calls). Inr (d', sh, None, calls))
      | Data_dropped data \<Rightarrow> Inr (d, sh, None, dropEvent data d)
      | File_chosen fn \<Rightarrow> Inr (d, sh, None, loadData fn d))"

text \<open>Calls of the engine: signals to its slots wait in its queue, the others are direct.\<close>

definition is_post :: "('c, 'f, 'm) engine_event \<Rightarrow> bool" where
  "is_post ev = (case ev of Clicked _ \<Rightarrow> True | Head_chosen _ \<Rightarrow> True | _ \<Rightarrow> False)"

fun receive_all :: "('c, 'f, 'm) qt \<Rightarrow> nat \<Rightarrow> ('c, 'm) gui_signal list \<Rightarrow> ('c, 'f, 'm, 'z) gui \<Rightarrow>
    ('c, 'f, 'm, 'z) gui res" where
  "receive_all q now [] g = Inr g"
| "receive_all q now (sg # sgs) g =
     rbind (receive q now sg (gu_window g) (en_show (gu_engine g))) (\<lambda>(w, sh).
       receive_all q now sgs (g\<lparr>gu_window := w, gu_engine := (gu_engine g)\<lparr>en_show := sh\<rparr>\<rparr>))"

fun gui_calls :: "('c, 'f, 'm, 'z) surroundings \<Rightarrow> nat \<Rightarrow> ('c, 'f, 'm) engine_event list \<Rightarrow>
    ('c, 'f, 'm, 'z) gui \<Rightarrow> ('c, 'f, 'm, 'z) gui res" where
  "gui_calls su now [] g = Inr g"
| "gui_calls su now (ev # evs) g =
     (if is_post ev then gui_calls su now evs (g\<lparr>gu_posts := gu_posts g @ [ev]\<rparr>)
      else rbind (engine_event_in_gui su ev (gu_engine g)) (\<lambda>(e, sgs).
           rbind (receive_all (su_qt su) now sgs (g\<lparr>gu_engine := e\<rparr>)) (\<lambda>g'. gui_calls su now evs g')))"

text \<open>An event of the engine's threads: its signals wait.\<close>

definition engine_runs :: "('c, 'f, 'm, 'z) surroundings \<Rightarrow> ('c, 'f, 'm) engine_event \<Rightarrow>
    ('c, 'f, 'm, 'z) gui \<Rightarrow> ('c, 'f, 'm, 'z) gui res" where
  "engine_runs su ev g = rbind (engine_event_in_gui su ev (gu_engine g)) (\<lambda>(e, sgs).
     Inr (g\<lparr>gu_engine := e, gu_mail := gu_mail g @ sgs\<rparr>))"

definition button_runs :: "('c, 'f, 'm, 'z) surroundings \<Rightarrow> nat \<Rightarrow> nat \<Rightarrow> display_event \<Rightarrow>
    ('c, 'f, 'm, 'z) gui \<Rightarrow> ('c, 'f, 'm, 'z) gui res" where
  "button_runs su now pos ev g =
     (let k = pos div 64; gs = bw_grids (gu_window g)
      in if k < length gs then (case grid_cell pos (gs ! k) of
           None \<Rightarrow> Inr g
         | Some (x, y) \<Rightarrow> (case grid_at x y (gs ! k) of
             None \<Rightarrow> Inr g
           | Some d \<Rightarrow> rbind (display_do su now ev (gu_engine g) d) (\<lambda>(d', sh, msg, calls).
               let gr = put_at x y d' (gs ! k);
                   gr' = (case msg of None \<Rightarrow> gr | Some text \<Rightarrow> grid_message text gr)
               in gui_calls su now calls
                    (g\<lparr>gu_engine := (gu_engine g)\<lparr>en_show := sh\<rparr>,
                       gu_window := (gu_window g)\<lparr>bw_grids := gs[k := gr']\<rparr>\<rparr>))))
         else Inr g)"

fun gui_do :: "('c, 'f, 'm, 'z) surroundings \<Rightarrow> nat \<Rightarrow> ('c, 'f, 'm) gui_event \<Rightarrow>
    ('c, 'f, 'm, 'z) gui \<Rightarrow> ('c, 'f, 'm, 'z) gui res" where
  "gui_do su now (Engine_event ev) g = engine_runs su ev g"
| "gui_do su now Post_event g = (case gu_posts g of [] \<Rightarrow> Inr g
     | ev # evs \<Rightarrow> engine_runs su ev (g\<lparr>gu_posts := evs\<rparr>))"
| "gui_do su now Mail_event g = (case gu_mail g of [] \<Rightarrow> Inr g
     | sg # sgs \<Rightarrow> receive_all (su_qt su) now [sg] (g\<lparr>gu_mail := sgs\<rparr>))"
| "gui_do su now (User_event u ev) g = (case window_do u ev (gu_window g) of (w, calls) \<Rightarrow>
     gui_calls su now calls (g\<lparr>gu_window := w\<rparr>))"
| "gui_do su now (Button_event pos ev) g = button_runs su now pos ev g"

text \<open>A run: each event at its time.\<close>

inductive gui_run :: "('c, 'f, 'm, 'z) surroundings \<Rightarrow> (nat \<times> ('c, 'f, 'm) gui_event) list \<Rightarrow>
    ('c, 'f, 'm, 'z) gui \<Rightarrow> ('c, 'f, 'm, 'z) gui \<Rightarrow> bool" for su where
  stay: "gui_run su [] g g"
| event: "gui_do su now ev g = Inr g1 \<Longrightarrow> gui_run su evs g1 g2 \<Longrightarrow> gui_run su ((now, ev) # evs) g g2"

inductive_cases gui_run_NilE [elim!]: "gui_run su [] g g'"
inductive_cases gui_run_ConsE [elim!]: "gui_run su ((now, ev) # evs) g g'"

text \<open>The program after its start: no show is loaded yet.\<close>

definition start_gui :: "('c, 'f, 'm) qt \<Rightarrow> nat \<Rightarrow> user_world \<Rightarrow> ('c, 'f, 'm, 'z) engine \<Rightarrow>
    ('c, 'f, 'm, 'z) gui res" where
  "start_gui q now u e = rbind (ButtonWindow q now u e) (\<lambda>(w, e').
     Inr \<lparr>gu_engine = e', gu_window = w, gu_mail = [], gu_posts = []\<rparr>)"

section \<open>The engine announces what it changes\<close>

definition announced :: "('c, 'f, 'm, 'z) engine \<Rightarrow> engine_signal list \<Rightarrow> ('c, 'f, 'm, 'z) engine \<Rightarrow> bool" where
  "announced e sgs e1 \<longleftrightarrow>
     (\<forall>p. engine_source p e1 \<noteq> engine_source p e \<longrightarrow> Frame_source_changed p \<in> set sgs) \<and>
     (getSourcesSize e1 \<le> getSourcesSize e \<or> Sources_size_changed (getSourcesSize e1) \<in> set sgs) \<and>
     (\<forall>n. Sources_size_changed n \<in> set sgs \<longrightarrow> n \<le> getSourcesSize e1)"

lemma announced_same:
  "sh_sources (en_show e1) = sh_sources (en_show e) \<Longrightarrow> \<forall>n. Sources_size_changed n \<notin> set sgs \<Longrightarrow>
   announced e sgs e1"
  by (simp add: announced_def engine_source_def getSourcesSize_def getFrameSource_at_def)

lemma announced_add: "addFrameSource fs pos e = (e1, sgs) \<Longrightarrow> announced e sgs e1"
  by (auto simp: announced_def addFrameSource_def engine_source_def getSourcesSize_def
      getFrameSource_at_def Let_def length_put_source put_source_nth split: if_splits)

lemma announced_add_new:
  assumes "add_new_source s pos e = (e1, sgs)"
  shows "announced e sgs e1"
proof -
  let ?e = "e\<lparr>en_show := (en_show e)\<lparr>sh_store := sh_store (en_show e) @ [s]\<rparr>\<rparr>"
  have "addFrameSource (Some (length (sh_store (en_show e)))) pos ?e = (e1, sgs)"
    using assms by (simp add: add_new_source_def new_source_def)
  then have "announced ?e sgs e1" by (rule announced_add)
  then show ?thesis by (simp add: announced_def engine_source_def getSourcesSize_def getFrameSource_at_def)
qed

lemma announced_cong:
  "announced e sgs e1 \<Longrightarrow> sh_sources (en_show e2) = sh_sources (en_show e1) \<Longrightarrow> announced e sgs e2"
  by (simp add: announced_def engine_source_def getSourcesSize_def getFrameSource_at_def)

lemma announced_clear:
  assumes "clear_sources e = (e1, sgs)"
  shows "announced e sgs e1"
proof -
  have "Frame_source_changed p \<in> set sgs" if "p < length (sh_sources (en_show e))"
    "sh_sources (en_show e) ! p \<noteq> None" for p
    using assms that by (force simp: clear_sources_def getSourcesSize_def)
  moreover have "Sources_size_changed n \<notin> set sgs" for n using assms by (auto simp: clear_sources_def)
  moreover have "sh_sources (en_show e1) = []" using assms by (auto simp: clear_sources_def)
  ultimately show ?thesis
    by (auto simp: announced_def engine_source_def getSourcesSize_def getFrameSource_at_def)
      (metis not_None_eq)
qed

lemma announced_load: "loadShow opened contents clr e = (b, e1, sgs) \<Longrightarrow> announced e sgs e1"
  by (auto simp: loadShow_def announced_same split: if_splits prod.splits
      dest!: announced_clear elim: announced_cong)

lemma announced_Loaded: "Loaded e = (e1, sgs) \<Longrightarrow> announced e sgs e1"
  by (rule announced_same) (auto simp: Loaded_def)

lemma announced_load_sequence:
  assumes "load_sequence q x reg r e = Inr (e1, sgs)"
  shows "announced e sgs e1"
proof -
  let ?pos = "sint (x_toULong x (xml_attr ''Position'' r))"
  let ?add = "\<lambda>fs. case fs of None \<Rightarrow> addFrameSource None ?pos e | Some s \<Rightarrow> add_new_source s ?pos e"
  consider "Loaded e = (e1, sgs)"
    | fs r2 where "(case ?add fs of (e1, sgs) \<Rightarrow> Inr (e1\<lparr>en_loader := Some r2\<rparr>, sgs)) = (Inr (e1, sgs) :: (_ \<times> _) res)"
    using assms by (auto simp: load_sequence_def Let_def rbind_Inr_iff split: if_splits)
  then show ?thesis
  proof cases
    case (2 fs r2)
    then have e1: "sgs = snd (?add fs)" "e1 = (fst (?add fs))\<lparr>en_loader := Some r2\<rparr>"
      by (simp_all add: case_prod_beta)
    have "announced e (snd (?add fs)) (fst (?add fs))"
      by (cases fs) (auto intro: announced_add announced_add_new)
    then show ?thesis unfolding e1 by (rule announced_cong) simp
  qed (rule announced_Loaded)
qed

lemma announced_loader:
  assumes "loader_step q x reg e = Inr (e1, sgs)"
  shows "announced e sgs e1"
proof (cases "en_loader e")
  case None
  then show ?thesis using assms by (auto simp: loader_step_def intro: announced_same)
next
  case (Some r)
  let ?r1 = "skip_until (\<lambda>t. is_start t \<or> token_name t = ''Sequence'') r"
  consider "Loaded e = (e1, sgs)" | "load_sequence q x reg ?r1 e = Inr (e1, sgs)"
    | "Inr (e\<lparr>en_loader := Some (readNextStartElement ?r1)\<rparr>, []) = (Inr (e1, sgs) :: (_ \<times> _) res)"
    using assms unfolding loader_step_def Let_def Some option.case by (simp split: if_splits)
  then show ?thesis
  proof cases
    case 3
    then show ?thesis by (intro announced_same) auto
  qed (rule announced_Loaded, assumption, rule announced_load_sequence)
qed

lemma announced_importer:
  assumes "importer_step load e = Inr (e1, sgs)"
  shows "announced e sgs e1"
proof (cases "en_importer e")
  case None
  then show ?thesis using assms by (auto simp: importer_step_def intro: announced_same)
next
  case (Some im)
  obtain names idx where im: "im = (names, idx)" by (cases im)
  show ?thesis
  proof (cases names)
    case Nil
    then show ?thesis using assms Some im
      by (intro announced_same) (auto simp: importer_step_def Imported_def)
  next
    case (Cons name ns)
    then obtain fs where fs: "load name = Inr fs"
      "(case fs of None \<Rightarrow> Inr (e\<lparr>en_importer := Some (ns, idx)\<rparr>, [])
       | Some s \<Rightarrow> (case add_new_source s idx e of
           (e1, sgs) \<Rightarrow> Inr (e1\<lparr>en_importer := Some (ns, - 1)\<rparr>, sgs))) = (Inr (e1, sgs) :: (_ \<times> _) res)"
      using assms Some im by (auto simp: importer_step_def rbind_Inr_iff)
    show ?thesis
    proof (cases fs)
      case None
      then show ?thesis using fs by (intro announced_same) auto
    next
      case (Some s)
      then have "e1 = (fst (add_new_source s idx e))\<lparr>en_importer := Some (ns, - 1)\<rparr>"
        "sgs = snd (add_new_source s idx e)" using fs(2) by (simp_all add: case_prod_beta)
      moreover have "announced e (snd (add_new_source s idx e)) (fst (add_new_source s idx e))"
        by (rule announced_add_new) simp
      ultimately show ?thesis by (auto elim: announced_cong)
    qed
  qed
qed

lemma announced_selectHead: "selectHead h e = Inr (e1, sgs) \<Longrightarrow> announced e sgs e1"
  by (rule announced_same)
    (auto simp: selectHead_def selectionChangedData_def Let_def split: if_splits option.splits)

lemma announced_saver: "saver_step q x e = (e1, doc, sgs) \<Longrightarrow> announced e sgs e1"
  by (rule announced_same) (auto simp: saver_step_def Saved_def split: option.splits if_splits)

lemma announced_mime:
  assumes "mimeHandler q x reg data pos e = Inr (b, e1, sgs)"
  shows "announced e sgs e1"
proof -
  consider "sh_sources (en_show e1) = sh_sources (en_show e)" "sgs = []"
    | s where "add_new_source s pos e = (e1, sgs)"
    using assms by (auto simp: mimeHandler_def importShow_def rbind_Inr_iff
        split: mime_data.splits option.splits if_splits)
  then show ?thesis by cases (auto intro: announced_same announced_add_new)
qed

lemma announced_copy: "engine_copy reg dest src e = Inr (b, e1, sgs) \<Longrightarrow> announced e sgs e1"
  by (auto simp: engine_copy_def rbind_Inr_iff announced_same split: option.splits
      intro: announced_add_new)

definition engine_ok :: "('c, 'f, 'm, 'z) engine \<Rightarrow> bool" where
  "engine_ok e \<longleftrightarrow> refs_ok e \<and> locks_ok e"

lemma head_in_engine_sources:
  assumes "engine_ok e" and "head_in_engine su i hev e = Inr (e1, out)"
  shows "sh_sources (en_show e1) = sh_sources (en_show e)"
  using assms(2)
proof (cases rule: head_in_engineE)
  case (some h sh sgs)
  have "show_ok (en_show e)" "head_below (length (sh_store (en_show e))) (en_heads e ! i)"
    using assms(1) some(1) by (auto simp: engine_ok_def refs_ok_def)
  then have "same_shape (en_show e) sh" using head_do_shape [OF some(3,2)] by blast
  then show ?thesis using some(4) by (simp add: same_shape_def)
qed simp

lemma engine_do_quiet:
  assumes "engine_do su ev e = Inr (e1, out)" and "engine_ok e"
    and "ev \<in> {Kill_event, Restart_event} \<or> (\<exists>i hev. ev = Head_event i hev) \<or> (\<exists>p. ev = Clicked p) \<or>
      (\<exists>p. ev = Deselected p) \<or> (\<exists>b d. ev = Save_show b d) \<or> (\<exists>ns i. ev = Import_show ns i)"
  shows "announced e [] e1"
proof -
  have "sh_sources (en_show e1) = sh_sources (en_show e)"
    using assms(3)
  proof (elim disjE exE)
    fix i hev assume "ev = Head_event i hev"
    then have "head_in_engine su i hev e = Inr (e1, out)" using assms(1) by simp
    then show ?thesis by (rule head_in_engine_sources [OF assms(2)])
  qed (use assms(1) in \<open>auto simp: engine_kill_def engine_restart_def clicked_def setHead_def deselect_def
      saveShow_def importShow_def Let_def rbind_Inr_iff split: option.splits if_splits\<close>)
  then show ?thesis by (rule announced_same) simp
qed

lemma engine_tells_announced:
  assumes "engine_tells su ev e = Inr (e1, sgs)" and ok: "engine_ok e"
  shows "announced e sgs e1"
proof (cases ev)
  case Saver_event
  then show ?thesis using assms announced_saver by (auto split: prod.splits)
next
  case (Load_show opened contents clr)
  then have "snd (loadShow opened contents clr e) = (e1, sgs)" using assms(1) by simp
  then show ?thesis using announced_load by (metis prod.collapse)
qed (use assms in \<open>auto simp: rbind_Inr_iff simp del: engine_do.simps
  dest: engine_do_quiet announced_selectHead announced_copy announced_mime
  announced_loader announced_importer announced_add_new\<close>)

text \<open>\<open>engine_tells\<close> and \<open>head_tells\<close> are \<open>engine_do\<close> with the signals.\<close>

lemma head_tells_do: "head_tells su i hev e = Inr (e1, sgs) \<Longrightarrow> \<exists>out. engine_do su (Head_event i hev) e = Inr (e1, out)"
  by (cases hev) (auto simp: head_tells_def head_in_engine_def rbind_Inr_iff simp del: head_do.simps split: if_splits)

lemma engine_tells_do: "engine_tells su ev e = Inr (e1, sgs) \<Longrightarrow> \<exists>out. engine_do su ev e = Inr (e1, out)"
  by (cases ev) (auto simp: rbind_Inr_iff simp del: engine_do.simps(1) split: prod.splits)

section \<open>Buttons and slots\<close>

text \<open>
  A button shows the source of its slot, unless the signal that tells it is still in the queue; there
  are buttons for all slots, unless the signal that asks for more is.
\<close>

definition grid_ok :: "nat set \<Rightarrow> ('c, 'f, 'm) show_data \<Rightarrow> nat \<Rightarrow> ('c, 'f, 'm) button_grid \<Rightarrow> bool" where
  "grid_ok M sh off g \<longleftrightarrow> grid_shape off g \<and> (\<forall>p. off \<le> p \<longrightarrow> p < off + 64 \<longrightarrow>
     (\<exists>d. button p g = Some d \<and> sd_id d = int p \<and> (p \<in> M \<or> shows_source sh p d)))"

definition changed_slots :: "('c, 'm) gui_signal set \<Rightarrow> nat set" where
  "changed_slots M = {p. From_engine (Frame_source_changed p) \<in> M}"

definition in_view :: "('c, 'm) gui_signal set \<Rightarrow> ('c, 'f, 'm) button_window \<Rightarrow> ('c, 'f, 'm) show_data \<Rightarrow> bool" where
  "in_view M w sh \<longleftrightarrow>
     (\<forall>k < length (bw_grids w). grid_ok (changed_slots M) sh (64 * k) (bw_grids w ! k)) \<and>
     (length (sh_sources sh) \<le> 64 * length (bw_grids w) \<or>
       (\<exists>n. From_engine (Sources_size_changed n) \<in> M \<and> length (sh_sources sh) \<le> n)) \<and>
     (\<forall>n. From_engine (Sources_size_changed n) \<in> M \<longrightarrow> n \<le> slots_limit)"

lemma grid_ok_shape: "grid_ok M sh off g \<Longrightarrow> same_shape sh sh' \<Longrightarrow> grid_ok M sh' off g"
  by (simp add: grid_ok_def same_shape_shows)

lemma in_view_shape: "in_view M w sh \<Longrightarrow> same_shape sh sh' \<Longrightarrow> in_view M w sh'"
  by (auto simp: in_view_def same_shape_def intro: grid_ok_shape)

lemma in_view_grids: "in_view M w sh \<Longrightarrow> bw_grids w' = bw_grids w \<Longrightarrow> in_view M w' sh"
  by (simp add: in_view_def)

lemma grid_ok_change:
  assumes g: "grid_ok (insert pos M) sh off g" and r: "grid_frameSourceChanged q now pos g sh = Inr (g', sh')"
  shows "grid_ok M sh' off g' \<and> same_shape sh sh'"
proof -
  have sp: "grid_shape off g" using g by (simp add: grid_ok_def)
  have "sd_id d = int pos" if "button pos g = Some d" for d
    using g that button_inside [OF sp that] by (auto simp: grid_ok_def)
  note ch = grid_change [OF sp r this]
  have "\<exists>d. button p g' = Some d \<and> sd_id d = int p \<and> (p \<in> M \<or> shows_source sh' p d)"
    if p: "off \<le> p" "p < off + 64" for p
  proof -
    obtain d where d: "button p g = Some d" "sd_id d = int p" "p \<in> insert pos M \<or> shows_source sh p d"
      using g p by (auto simp: grid_ok_def)
    show ?thesis
    proof (cases "p = pos")
      case True
      then obtain d' where "button p g' = Some d'" "shows_source sh' p d'" using ch d(1) by auto
      then show ?thesis by (auto simp: shows_source_def)
    next
      case False
      then show ?thesis using ch d by (auto simp: same_shape_shows)
    qed
  qed
  then show ?thesis using ch by (auto simp: grid_ok_def)
qed

lemma all_grids_ok:
  assumes "all_grids_changed q now pos gs sh = Inr (gs', sh')"
    and "\<forall>k < length gs. grid_ok (insert pos M) sh (off k) (gs ! k)"
  shows "length gs' = length gs \<and> same_shape sh sh' \<and> (\<forall>k < length gs. grid_ok M sh' (off k) (gs' ! k))"
  using assms
proof (induction gs arbitrary: sh gs' off)
  case (Cons g gs)
  then obtain g1 sh1 gs1 where r: "grid_frameSourceChanged q now pos g sh = Inr (g1, sh1)"
    "all_grids_changed q now pos gs sh1 = Inr (gs1, sh')" "gs' = g1 # gs1"
    by (auto simp: rbind_Inr_iff)
  have g: "grid_ok M sh1 (off 0) g1" "same_shape sh sh1"
    using grid_ok_change [OF _ r(1)] Cons.prems(2) by (auto simp: nth_Cons split: nat.splits)
  have "\<forall>k < length gs. grid_ok (insert pos M) sh1 (off (Suc k)) (gs ! k)"
    using Cons.prems(2) g(2) by (metis Suc_less_eq grid_ok_shape length_Cons nth_Cons_Suc)
  note ih = Cons.IH [OF r(2) this]
  show ?case using ih g r(3)
    by (auto simp: nth_Cons intro: same_shape_trans grid_ok_shape split: nat.splits)
qed simp

lemma new_grid_ok:
  assumes "ButtonGrid q now 8 8 (of_nat off) sh = Inr (g, sh')" and "off + 64 \<le> 2 ^ 31"
  shows "grid_ok M sh' off g \<and> same_shape sh sh'"
  using ButtonGrid_shows [OF assms] by (auto simp: grid_ok_def shows_source_def)

lemma sourcesSizeChanged_ok:
  assumes "sourcesSizeChanged q now s w sh = Inr (w', sh')" and "s \<le> slots_limit"
    and "\<forall>k < length (bw_grids w). grid_ok M sh (64 * k) (bw_grids w ! k)"
  shows "same_shape sh sh' \<and> (\<forall>k < length (bw_grids w'). grid_ok M sh' (64 * k) (bw_grids w' ! k)) \<and>
    s \<le> 64 * length (bw_grids w') \<and> length (bw_grids w) \<le> length (bw_grids w')"
  using assms
proof (induction q now s w sh arbitrary: w' sh' rule: sourcesSizeChanged.induct)
  case (1 q now s w sh)
  show ?case
  proof (cases "s > 64 * length (bw_grids w)")
    case True
    then obtain g sh1 where r: "ButtonGrid q now 8 8 (of_nat (64 * length (bw_grids w))) sh = Inr (g, sh1)"
      "sourcesSizeChanged q now s (w\<lparr>bw_grids := bw_grids w @ [g]\<rparr>) sh1 = Inr (w', sh')"
      using 1(2) by (subst (asm) sourcesSizeChanged.simps) (auto simp: rbind_Inr_iff)
    have "64 * length (bw_grids w) + 64 \<le> 2 ^ 31" using True 1(3) by (simp add: slots_limit_def)
    note n = new_grid_ok [OF r(1) this, of M]
    have "\<forall>k < length (bw_grids (w\<lparr>bw_grids := bw_grids w @ [g]\<rparr>)).
        grid_ok M sh1 (64 * k) (bw_grids (w\<lparr>bw_grids := bw_grids w @ [g]\<rparr>) ! k)"
      using n 1(4) by (auto simp: nth_append less_Suc_eq intro: grid_ok_shape)
    note ih = 1(1) [OF True r(1) refl r(2) 1(3) this]
    show ?thesis using ih n by (auto intro: same_shape_trans)
  next
    case False
    then have "w' = w \<and> sh' = sh" using 1(2) by (subst (asm) sourcesSizeChanged.simps) simp
    then show ?thesis using 1(4) False by simp
  qed
qed

lemma grid_ok_same:
  assumes "grid_ok M sh off g" and "grid_shape off g'"
    and "\<And>p. rel_option same_source (button p g) (button p g')"
  shows "grid_ok M sh off g'"
  unfolding grid_ok_def
proof (intro conjI allI impI)
  fix p assume "off \<le> p" "p < off + 64"
  then obtain d where d: "button p g = Some d" "sd_id d = int p" "p \<in> M \<or> shows_source sh p d"
    using assms(1) by (auto simp: grid_ok_def)
  obtain d' where d': "button p g' = Some d'" "same_source d d'"
    using assms(3) [of p] d(1) by (auto simp: option_rel_Some1)
  then have "sd_id d' = int p" "shows_source sh p d' = shows_source sh p d"
    using d(2) by (auto simp: same_source_def shows_source_alt)
  then show "\<exists>d. button p g' = Some d \<and> sd_id d = int p \<and> (p \<in> M \<or> shows_source sh p d)"
    using d d' by auto
qed (rule assms(2))

lemma grid_ok_indicator: "grid_ok M sh off g \<Longrightarrow> grid_ok M sh off (grid_selectionChangedData pos col g)"
proof (rule grid_ok_same)
  assume "grid_ok M sh off g"
  then have g: "grid_shape off g" by (simp add: grid_ok_def)
  show "grid_shape off (grid_selectionChangedData pos col g)" using grid_indicator [OF g] by blast
  show "rel_option same_source (button p g) (button p (grid_selectionChangedData pos col g))" for p
    using grid_indicator [OF g] by blast
qed

lemma changed_slots_insert [simp]:
  "changed_slots (insert (From_engine (Frame_source_changed p)) M) = insert p (changed_slots M)"
  by (auto simp: changed_slots_def)

lemma changed_slots_other:
  "\<forall>p. sg \<noteq> From_engine (Frame_source_changed p) \<Longrightarrow> changed_slots (insert sg M) = changed_slots M"
  by (auto simp: changed_slots_def)

lemma in_view_other:
  assumes "in_view (insert sg M) w sh" and "\<forall>p. sg \<noteq> From_engine (Frame_source_changed p)"
    and "\<forall>n. sg \<noteq> From_engine (Sources_size_changed n)"
  shows "in_view M w sh"
  using assms by (auto simp: in_view_def changed_slots_other)

lemma receive_in_view:
  assumes v: "in_view (insert sg M) w sh" and r: "receive q now sg w sh = Inr (w', sh')"
  shows "in_view M w' sh' \<and> same_shape sh sh'"
proof (cases sg)
  case (New_frame_of i fr)
  then have "in_view M w sh" by (intro in_view_other [OF v]) simp_all
  then show ?thesis using r New_frame_of by (auto simp: receive_def elim: in_view_grids)
next
  case (From_engine es)
  show ?thesis
  proof (cases es)
    case (Sources_size_changed n)
    have c: "sourcesSizeChanged q now n w sh = Inr (w', sh')"
      using r From_engine Sources_size_changed by (simp add: receive_def)
    have n: "n \<le> slots_limit" using v From_engine Sources_size_changed by (auto simp: in_view_def)
    have "\<forall>k < length (bw_grids w). grid_ok (changed_slots M) sh (64 * k) (bw_grids w ! k)"
      using v From_engine Sources_size_changed by (simp add: in_view_def changed_slots_other)
    note o = sourcesSizeChanged_ok [OF c n this]
    moreover have "length (sh_sources sh) \<le> 64 * length (bw_grids w') \<or>
        (\<exists>n. From_engine (Sources_size_changed n) \<in> M \<and> length (sh_sources sh) \<le> n)"
      using v o From_engine Sources_size_changed by (auto simp: in_view_def)
    moreover have "\<forall>n. From_engine (Sources_size_changed n) \<in> M \<longrightarrow> n \<le> slots_limit"
      using v by (auto simp: in_view_def)
    ultimately show ?thesis by (auto simp: in_view_def same_shape_def)
  next
    case (Frame_source_changed p)
    then obtain gs where c: "all_grids_changed q now p (bw_grids w) sh = Inr (gs, sh')"
      "w' = w\<lparr>bw_grids := gs\<rparr>"
      using r From_engine by (auto simp: receive_def rbind_Inr_iff)
    have "\<forall>k < length (bw_grids w). grid_ok (insert p (changed_slots M)) sh (64 * k) (bw_grids w ! k)"
      using v From_engine Frame_source_changed by (simp add: in_view_def)
    note o = all_grids_ok [OF c(1) this]
    then show ?thesis using v From_engine Frame_source_changed c(2)
      by (auto simp: in_view_def same_shape_def)
  next
    case (Set_indicator pos col)
    then have m: "in_view M w sh" using From_engine by (intro in_view_other [OF v]) simp_all
    have "w' = w\<lparr>bw_grids := map (grid_selectionChangedData pos col) (bw_grids w)\<rparr> \<and> sh' = sh"
      using r From_engine Set_indicator by (auto simp: receive_def)
    then show ?thesis using m by (auto simp: in_view_def intro: grid_ok_indicator)
  qed (use v r From_engine in \<open>auto simp: receive_def window_headSelectionChanged_def show_status_def
      window_saved_def window_loaded_def elim!: in_view_grids dest!: in_view_other\<close>)
qed

section \<open>Runs\<close>

definition gui_ok :: "('c, 'm) gui_signal set \<Rightarrow> ('c, 'f, 'm, 'z) gui \<Rightarrow> bool" where
  "gui_ok M g \<longleftrightarrow> engine_ok (gu_engine g) \<and> in_view (M \<union> set (gu_mail g)) (gu_window g) (en_show (gu_engine g))"

lemma engine_ok_show: "engine_ok e \<Longrightarrow> same_shape (en_show e) sh \<Longrightarrow> engine_ok (e\<lparr>en_show := sh\<rparr>)"
  by (auto simp: engine_ok_def refs_ok_def locks_ok_def same_shape_def show_ok_def)

lemma announced_in_view:
  assumes "in_view M w (en_show e)" and "announced e sgs e1" and "getSourcesSize e1 \<le> slots_limit"
    and "From_engine ` set sgs \<subseteq> N" and "\<forall>n. From_engine (Sources_size_changed n) \<in> N \<longrightarrow> Sources_size_changed n \<in> set sgs"
  shows "in_view (N \<union> M) w (en_show e1)"
  unfolding in_view_def
proof (intro conjI allI impI)
  let ?sh = "en_show e" and ?sh1 = "en_show e1"
  fix k assume "k < length (bw_grids w)"
  then have g: "grid_ok (changed_slots M) ?sh (64 * k) (bw_grids w ! k)" using assms(1) by (simp add: in_view_def)
  have "p \<in> changed_slots (N \<union> M) \<or> shows_source ?sh1 p d" if "p \<in> changed_slots M \<or> shows_source ?sh p d" for p d
  proof (cases "Frame_source_changed p \<in> set sgs")
    case True
    then show ?thesis using assms(4) by (auto simp: changed_slots_def)
  next
    case False
    then have "engine_source p e1 = engine_source p e" using assms(2) by (auto simp: announced_def)
    then show ?thesis using that by (auto simp: changed_slots_def shows_source_def engine_source_def)
  qed
  then show "grid_ok (changed_slots (N \<union> M)) ?sh1 (64 * k) (bw_grids w ! k)"
    using g unfolding grid_ok_def by meson
next
  show "length (sh_sources (en_show e1)) \<le> 64 * length (bw_grids w) \<or>
      (\<exists>n. From_engine (Sources_size_changed n) \<in> N \<union> M \<and> length (sh_sources (en_show e1)) \<le> n)"
  proof (cases "Sources_size_changed (getSourcesSize e1) \<in> set sgs")
    case True
    then have "From_engine (Sources_size_changed (getSourcesSize e1)) \<in> N \<union> M" using assms(4) by blast
    then show ?thesis unfolding getSourcesSize_def by blast
  next
    case False
    then have "length (sh_sources (en_show e1)) \<le> length (sh_sources (en_show e))"
      using assms(2) by (simp add: announced_def getSourcesSize_def)
    moreover have "length (sh_sources (en_show e)) \<le> 64 * length (bw_grids w) \<or>
        (\<exists>n. From_engine (Sources_size_changed n) \<in> M \<and> length (sh_sources (en_show e)) \<le> n)"
      using assms(1) by (simp add: in_view_def)
    ultimately show ?thesis by (meson UnCI order_trans)
  qed
next
  fix n assume "From_engine (Sources_size_changed n) \<in> N \<union> M"
  then show "n \<le> slots_limit" using assms(1,2,3,5) by (auto simp: in_view_def announced_def)
qed

lemma head_signal_kind:
  "x \<in> set (head_signal_to_gui i sg) \<Longrightarrow> x \<noteq> From_engine (Frame_source_changed p) \<and> x \<noteq> From_engine (Sources_size_changed n)"
  by (cases sg) (auto simp: selectionChangedData_def)

lemma engine_event_ok:
  assumes r: "engine_event_in_gui su ev e = Inr (e1, sgs)" and ok: "engine_ok e"
    and v: "in_view M w (en_show e)"
  shows "engine_ok e1 \<and> in_view (set sgs \<union> M) w (en_show e1)"
proof -
  have lim: "getSourcesSize e1 \<le> slots_limit"
    using r by (auto simp: engine_event_in_gui_def rbind_Inr_iff within_memory_def split: if_splits)
  show ?thesis
  proof (cases "\<exists>i hev. ev = Head_event i hev")
    case True
    then obtain i hev hs where h: "ev = Head_event i hev" "head_tells su i hev e = Inr (e1, hs)"
      "sgs = concat (map (head_signal_to_gui i) hs)"
      using r by (auto simp: engine_event_in_gui_def rbind_Inr_iff within_memory_def split: if_splits)
    obtain out where d: "engine_do su (Head_event i hev) e = Inr (e1, out)" using head_tells_do [OF h(2)] by blast
    have "announced e [] e1" by (rule engine_do_quiet [OF d ok]) simp
    moreover have "\<forall>n. From_engine (Sources_size_changed n) \<notin> set sgs"
      using h(3) head_signal_kind by fastforce
    ultimately have "in_view (set sgs \<union> M) w (en_show e1)"
      by (intro announced_in_view [OF v _ lim]) auto
    then show ?thesis using engine_do_ok [OF _ _ d] ok by (simp add: engine_ok_def)
  next
    case False
    then obtain es where t: "engine_tells su ev e = Inr (e1, es)" "sgs = map From_engine es"
      using r by (cases ev) (auto simp: engine_event_in_gui_def rbind_Inr_iff within_memory_def
        simp del: engine_tells.simps split: if_splits)
    obtain out where d: "engine_do su ev e = Inr (e1, out)" using engine_tells_do [OF t(1)] by blast
    have "in_view (set sgs \<union> M) w (en_show e1)"
      by (rule announced_in_view [OF v engine_tells_announced [OF t(1) ok] lim]) (auto simp: t(2))
    then show ?thesis using engine_do_ok [OF _ _ d] ok by (simp add: engine_ok_def)
  qed
qed

text \<open>The engine and the window keep the contract of a state and its view.\<close>

definition window_notice :: "('c, 'f, 'm) qt \<Rightarrow> nat \<Rightarrow> ('c, 'm) gui_signal \<Rightarrow> ('c, 'f, 'm) button_window \<Rightarrow>
    ('c, 'f, 'm, 'z) engine \<Rightarrow> (('c, 'f, 'm) button_window \<times> ('c, 'f, 'm, 'z) engine) res" where
  "window_notice q now sg w e = rbind (receive q now sg w (en_show e)) (\<lambda>(w', sh). Inr (w', e\<lparr>en_show := sh\<rparr>))"

interpretation view: told_view engine_ok "\<lambda>M w e. in_view M w (en_show e)" "engine_event_in_gui su"
    "window_notice q" for su q
proof
  fix now sg w e w' e' M
  assume r: "window_notice q now sg w e = Inr (w', e')" and ok: "engine_ok e"
    and v: "in_view (insert sg M) w (en_show e)"
  obtain sh where sh: "receive q now sg w (en_show e) = Inr (w', sh)" "e' = e\<lparr>en_show := sh\<rparr>"
    using r by (auto simp: window_notice_def rbind_Inr_iff)
  show "engine_ok e' \<and> in_view M w' (en_show e')"
    using receive_in_view [OF v sh(1)] engine_ok_show [OF ok] sh(2) by simp
qed (rule engine_event_ok)

lemma receive_all_fold:
  "receive_all q now sgs g = rbind (rfold (\<lambda>sg (w, e). window_notice q now sg w e) sgs (gu_window g, gu_engine g))
     (\<lambda>(w, e). Inr (g\<lparr>gu_window := w, gu_engine := e\<rparr>))"
proof (induction sgs arbitrary: g)
  case (Cons sg sgs)
  show ?case
    by (cases "receive q now sg (gu_window g) (en_show (gu_engine g))")
       (simp_all add: window_notice_def Cons.IH case_prod_beta)
qed simp

lemma gui_calls_ok: "gui_calls su now evs g = Inr g' \<Longrightarrow> gui_ok {} g \<Longrightarrow> gui_ok {} g'"
proof (induction evs arbitrary: g)
  case (Cons ev evs)
  show ?case
  proof (cases "is_post ev")
    case True
    then show ?thesis using Cons.IH [of "g\<lparr>gu_posts := gu_posts g @ [ev]\<rparr>"] Cons.prems
      by (simp add: gui_ok_def)
  next
    case False
    then obtain e sgs g1 where r: "engine_event_in_gui su ev (gu_engine g) = Inr (e, sgs)"
      "receive_all (su_qt su) now sgs (g\<lparr>gu_engine := e\<rparr>) = Inr g1" "gui_calls su now evs g1 = Inr g'"
      using Cons.prems(1) by (auto simp: rbind_Inr_iff)
    obtain w1 e1 where n: "rfold (\<lambda>sg (w, e). window_notice (su_qt su) now sg w e) sgs (gu_window g, e) = Inr (w1, e1)"
      "g1 = g\<lparr>gu_engine := e1, gu_window := w1\<rparr>"
      using r(2) by (auto simp: receive_all_fold rbind_Inr_iff)
    have "gui_ok {} g1"
      using view.told_at_once [OF r(1) n(1), of "set (gu_mail g)"] Cons.prems(2) n(2) by (simp add: gui_ok_def)
    then show ?thesis by (rule Cons.IH [OF r(3)])
  qed
qed simp

lemma engine_runs_ok: "engine_runs su ev g = Inr g' \<Longrightarrow> gui_ok {} g \<Longrightarrow> gui_ok {} g'"
  by (auto simp: engine_runs_def gui_ok_def rbind_Inr_iff simp del: set_append dest!: view.told_later)

lemma display_do_same:
  assumes "display_do su now ev e d = Inr (d', sh, msg, calls)"
  shows "same_source d d' \<and> same_shape (en_show e) sh"
proof (cases ev)
  case (Mouse_pressed b pos)
  then show ?thesis using assms
    by (auto simp: display_do_def Let_def mousePressEvent_def same_source_def split: mouse_button.splits)
next
  case (Mouse_released b)
  then show ?thesis using assms
    by (auto simp: display_do_def Let_def mouseReleaseEvent_def same_source_def rbind_Inr_iff
        split: if_splits option.splits)
next
  case (Mouse_moved left pos)
  then show ?thesis using assms
    by (auto simp: display_do_def Let_def mouseMoveEvent_def same_source_def rbind_Inr_iff case_prod_beta
        split: if_splits)
qed (use assms in \<open>auto simp: display_do_def Let_def enterEvent_def leaveEvent_def rbind_Inr_iff same_source_def
  split: if_splits dest!: animate_same advance_same\<close>)

lemma button_runs_ok:
  assumes r: "button_runs su now pos ev g = Inr g'" and ok: "gui_ok {} g"
  shows "gui_ok {} g'"
proof -
  let ?w = "gu_window g" and ?k = "pos div 64"
  let ?gs = "bw_grids ?w" and ?sh = "en_show (gu_engine g)"
  have v: "in_view (set (gu_mail g)) ?w ?sh" using ok by (simp add: gui_ok_def)
  consider "g' = g"
    | x y d where "?k < length ?gs" "grid_cell pos (?gs ! ?k) = Some (x, y)" "grid_at x y (?gs ! ?k) = Some d"
    using r by (auto simp: button_runs_def Let_def split: if_splits option.splits prod.splits)
  then show ?thesis
  proof cases
    case (2 x y d)
    let ?g = "?gs ! ?k"
    obtain d' sh msg calls where c: "display_do su now ev (gu_engine g) d = Inr (d', sh, msg, calls)"
      using r 2 by (auto simp: button_runs_def Let_def rbind_Inr_iff)
    let ?g1 = "case msg of None \<Rightarrow> put_at x y d' ?g | Some text \<Rightarrow> grid_message text (put_at x y d' ?g)"
    let ?gui = "g\<lparr>gu_engine := (gu_engine g)\<lparr>en_show := sh\<rparr>, gu_window := ?w\<lparr>bw_grids := ?gs[?k := ?g1]\<rparr>\<rparr>"
    have r': "gui_calls su now calls ?gui = Inr g'" using r 2 c by (simp add: button_runs_def Let_def)
    note s = display_do_same [OF c]
    have g: "grid_ok (changed_slots (set (gu_mail g))) ?sh (64 * ?k) ?g" using v 2(1) by (simp add: in_view_def)
    then have sp: "grid_shape (64 * ?k) ?g" by (simp add: grid_ok_def)
    have b: "button pos ?g = Some d" using 2 by (simp add: button_def)
    obtain i j where ij: "x = of_nat i" "y = of_nat j" "i < 8" "j < 8" "pos = 64 * ?k + i + 8 * j"
      using button_cell [OF sp] button_inside [OF sp b] 2(2) by (metis option.inject prod.inject)
    have sp1: "grid_shape (64 * ?k) ?g1" using sp by (cases msg) simp_all
    have "button p ?g1 = button p (put_at x y d' ?g)" for p by (cases msg) simp_all
    then have "rel_option same_source (button p ?g) (button p ?g1)" for p
      using button_put_at [OF sp ij(3,4), of p d'] ij(1,2,5) b s by (auto simp: option.rel_refl)
    then have "grid_ok (changed_slots (set (gu_mail g))) ?sh (64 * ?k) ?g1" by (rule grid_ok_same [OF g sp1])
    then have "grid_ok (changed_slots (set (gu_mail g))) ?sh (64 * k) (?gs[?k := ?g1] ! k)"
      if "k < length ?gs" for k
      using v that by (cases "k = ?k") (simp_all add: in_view_def)
    then have "in_view (set (gu_mail g)) (?w\<lparr>bw_grids := ?gs[?k := ?g1]\<rparr>) ?sh"
      using v unfolding in_view_def by simp
    then have "gui_ok {} ?gui" using s ok by (simp add: gui_ok_def engine_ok_show in_view_shape)
    then show ?thesis by (rule gui_calls_ok [OF r'])
  qed (use ok in simp)
qed

lemma window_do_grids: "window_do u ev w = (w', calls) \<Longrightarrow> bw_grids w' = bw_grids w"
  by (auto simp: window_do_def keyPressEvent_def userKill_def userRestart_def show_status_def saveFile_def
      saveAsFile_def saveFile_named_def openFile_def maybeSave_def loadFile_def importFiles_def
      window_modified_def closeEvent_def setFullScreen_def clearFullScreen_def
      split: user_event.splits key.splits if_splits answer.splits prod.splits)

lemma gui_do_ok: "gui_do su now ev g = Inr g' \<Longrightarrow> gui_ok {} g \<Longrightarrow> gui_ok {} g'"
proof (cases ev)
  case (User_event u uev)
  assume r: "gui_do su now ev g = Inr g'" and ok: "gui_ok {} g"
  obtain w calls where w: "window_do u uev (gu_window g) = (w, calls)" by fastforce
  have "gui_ok {} (g\<lparr>gu_window := w\<rparr>)"
    using ok window_do_grids [OF w] by (auto simp: gui_ok_def elim: in_view_grids)
  then show ?thesis using r w User_event by (auto elim: gui_calls_ok)
next
  case Mail_event
  assume r: "gui_do su now ev g = Inr g'" and ok: "gui_ok {} g"
  show ?thesis
  proof (cases "gu_mail g")
    case (Cons sg sgs)
    obtain w e where n: "window_notice (su_qt su) now sg (gu_window g) (gu_engine g) = Inr (w, e)"
      "g' = g\<lparr>gu_mail := sgs, gu_engine := e, gu_window := w\<rparr>"
      using r Mail_event Cons by (auto simp: receive_all_fold rbind_Inr_iff simp del: receive_all.simps)
    show ?thesis using view.mail_read [OF n(1), of sgs] ok Cons n(2) by (simp add: gui_ok_def)
  qed (use r ok Mail_event in simp)
next
  case Post_event
  assume r: "gui_do su now ev g = Inr g'" and ok: "gui_ok {} g"
  show ?thesis
  proof (cases "gu_posts g")
    case (Cons p ps)
    have "gui_ok {} (g\<lparr>gu_posts := ps\<rparr>)" using ok by (simp add: gui_ok_def)
    then show ?thesis using r Post_event Cons by (auto elim: engine_runs_ok)
  qed (use r ok Post_event in simp)
qed (auto elim: engine_runs_ok button_runs_ok)

lemma gui_run_ok: "gui_run su evs g g' \<Longrightarrow> gui_ok {} g \<Longrightarrow> gui_ok {} g'"
  by (induction rule: gui_run.induct) (auto dest: gui_do_ok)

lemma start_gui_ok:
  assumes "start_gui q now u e = Inr g" and "engine_ok e" and "sh_sources (en_show e) = []"
  shows "gui_ok {} g \<and> gu_mail g = []"
proof -
  obtain w e' where w: "ButtonWindow q now u e = Inr (w, e')"
    "g = \<lparr>gu_engine = e', gu_window = w, gu_mail = [], gu_posts = []\<rparr>"
    using assms(1) by (auto simp: start_gui_def rbind_Inr_iff)
  then obtain gr sh where b: "ButtonGrid q now 8 8 0 (en_show e) = Inr (gr, sh)" "e' = e\<lparr>en_show := sh\<rparr>"
    "bw_grids w = [gr]"
    by (auto simp: ButtonWindow_def Let_def rbind_Inr_iff setCurrentFile_def split: if_splits)
  have "grid_ok {} sh 0 gr \<and> same_shape (en_show e) sh"
    by (rule new_grid_ok [where q = q and now = now]) (simp_all add: b(1))
  then have "in_view {} w sh" "same_shape (en_show e) sh" using b assms(3)
    by (auto simp: in_view_def same_shape_def changed_slots_def)
  then show ?thesis using assms(2) b(2) w(2) by (simp add: gui_ok_def engine_ok_show)
qed


text \<open>An example: a static frame is put into slot 3 while the program runs, and its signals are delivered.\<close>

lemma source_null: "getFrameSource_at pos sh = None \<Longrightarrow>
    source q now (Some (getPlayback q pos sh)) d sh = Inr (setFrame None (d\<lparr>sd_pb := Some None\<rparr>), sh)"
  by (simp add: source_def getPlayback_def pb_reset_def pb_nextFrame_def ref_reset_def ref_nextFrame_def)

lemma fill_grid_empty: "sh_sources sh = [] \<Longrightarrow> \<exists>g'. fill_grid q now cells g sh = Inr (g', sh)"
proof (induction cells arbitrary: g)
  case (Cons c cells)
  have "getFrameSource_at p sh = None" for p using Cons.prems by (simp add: getFrameSource_at_def)
  then have "\<exists>g1. grid_frameSourceChanged q now p g' sh = Inr (g1, sh)" for p g'
    by (auto simp: grid_frameSourceChanged_def source_null split: option.splits)
  then obtain g1 where "grid_frameSourceChanged q now (unat (bg_offset g + fst c + snd c * bg_num_x g))
      (put_at (fst c) (snd c) (ScreenDisplay (sint (bg_offset g + snd c * bg_num_x g + fst c))) g) sh = Inr (g1, sh)"
    by blast
  then show ?case using Cons.IH [OF Cons.prems, of g1] by (cases c) simp
qed simp

lemma start_gui_comes_up:
  assumes "engine_ok e" and "sh_sources (en_show e) = []"
  shows "\<exists>w. start_gui q now u e = Inr \<lparr>gu_engine = e, gu_window = w, gu_mail = [], gu_posts = []\<rparr> \<and>
    (\<exists>gr. bw_grids w = [gr])"
proof -
  obtain gr where "ButtonGrid q now 8 8 0 (en_show e) = Inr (gr, en_show e)"
    using fill_grid_empty [OF assms(2)] unfolding ButtonGrid_def by blast
  moreover have "getHead 0 e \<noteq> None" using assms(1) by (simp add: engine_ok_def refs_ok_def getHead_def MAX_HEADS_def)
  ultimately show ?thesis
    by (auto simp: start_gui_def ButtonWindow_def Let_def setCurrentFile_def)
qed

lemma new_frame_shown:
  assumes "getFrameSource_at pos sh = Some a" and "sh_store sh ! a = StaticFrame q"
  shows "\<exists>d' sh'. source q now (Some (getPlayback q pos sh)) d sh = Inr (d', sh')"
  using assms
  by (simp add: source_def getPlayback_def pb_reset_def pb_nextFrame_def ref_reset_def ref_nextFrame_def
      StaticFrame_def nextFrame_def newPlayback_defs static_next_def case_prod_beta Let_def)

lemma grid_can_change:
  assumes "\<And>d. \<exists>d' sh'. source q now (Some (getPlayback q pos sh)) d sh = Inr (d', sh')"
  shows "\<exists>g' sh'. grid_frameSourceChanged q now pos g sh = Inr (g', sh')"
proof (cases "button pos g")
  case None
  then show ?thesis by (auto simp: button_def grid_frameSourceChanged_def split: option.splits)
next
  case (Some s)
  obtain d' sh' where "source q now (Some (getPlayback q pos sh)) s sh = Inr (d', sh')" using assms by blast
  then show ?thesis using Some by (auto simp: button_def grid_frameSourceChanged_def split: option.splits)
qed

definition demo_world :: user_world where
  "demo_world = \<lparr>uw_fullscreen = False, uw_path = None, uw_home = Some ''/home'', uw_answer = Answer_discard,
     uw_file = [], uw_files = [], uw_writable = (\<lambda>_. True), uw_contents = (\<lambda>_. None), uw_date = [],
     uw_directory = (\<lambda>fn. fn), uw_name = (\<lambda>fn. fn)\<rparr>"


end
