(* ===== verification/Log_File.thy ===== *)
theory Log_File
  imports Lucifer_Prelude "HOL-Library.Sublist"
begin

text \<open>
  \<open>log.h\<close> and \<open>log.cpp\<close>: the log of the program, made when it is first asked for. The library
  \<open>log4cpp\<close> appends a message to the file of its appender when the priority of the message is at
  least as urgent as the one the category is set to; its priorities are ordered from urgent to
  verbose, here those the program uses. The time of day is a parameter.
\<close>

section \<open>Priorities\<close>

datatype priority = CRIT | ERROR | INFO | DEBUG

fun priority_number :: "priority \<Rightarrow> nat" where
  "priority_number CRIT = 200"
| "priority_number ERROR = 300"
| "priority_number INFO = 600"
| "priority_number DEBUG = 700"

lemma priority_number_inject: "priority_number p = priority_number p' \<longleftrightarrow> p = p'"
  by (cases p; cases p') simp_all

instantiation priority :: linorder
begin

definition less_eq_priority :: "priority \<Rightarrow> priority \<Rightarrow> bool" where
  "less_eq_priority p p' \<longleftrightarrow> priority_number p \<le> priority_number p'"

definition less_priority :: "priority \<Rightarrow> priority \<Rightarrow> bool" where
  "less_priority p p' \<longleftrightarrow> priority_number p < priority_number p'"

instance
  by standard (auto simp: less_eq_priority_def less_priority_def priority_number_inject)

end

section \<open>The logger\<close>

record logger =
  lg_file :: string
  lg_priority :: priority

text \<open>The static pointer \<open>l\<close>, and the lines written so far, each with its file.\<close>

record log_state =
  lo_l :: "logger option"
  lo_written :: "(string \<times> string) list"

definition no_log :: log_state where
  "no_log = \<lparr>lo_l = None, lo_written = []\<rparr>"

definition write_line :: "priority \<Rightarrow> string \<Rightarrow> logger \<Rightarrow> log_state \<Rightarrow> log_state" where
  "write_line p line lg st =
     (if p \<le> lg_priority lg then st\<lparr>lo_written := lo_written st @ [(lg_file lg, line)]\<rparr> else st)"

text \<open>The constructor writes its line at the level it has just set.\<close>

definition Logger :: "string \<Rightarrow> string \<Rightarrow> log_state \<Rightarrow> log_state" where
  "Logger now filename st = (let lg = \<lparr>lg_file = filename, lg_priority = INFO\<rparr>
     in write_line INFO (''Galvanic Lucifer startup at '' @ now) lg (st\<lparr>lo_l := Some lg\<rparr>))"

definition slog :: "string \<Rightarrow> log_state \<Rightarrow> logger \<times> log_state" where
  "slog now st = (case lo_l st of
     Some lg \<Rightarrow> (lg, st)
   | None \<Rightarrow> (let st1 = Logger now ''lucifer.log'' st in (the (lo_l st1), st1)))"

text \<open>\<open>slog()->infoStream() << ...\<close> and the like, and \<open>slog()->setPriority\<close>.\<close>

definition log_message :: "string \<Rightarrow> priority \<Rightarrow> string \<Rightarrow> log_state \<Rightarrow> log_state" where
  "log_message now p line st = (case slog now st of (lg, st1) \<Rightarrow> write_line p line lg st1)"

definition log_setPriority :: "string \<Rightarrow> priority \<Rightarrow> log_state \<Rightarrow> log_state" where
  "log_setPriority now p st = (case slog now st of (lg, st1) \<Rightarrow> st1\<lparr>lo_l := Some (lg\<lparr>lg_priority := p\<rparr>)\<rparr>)"

definition setFileName :: "string \<Rightarrow> logger \<Rightarrow> log_state \<Rightarrow> log_state" where
  "setFileName filename lg st = st\<lparr>lo_l := Some (lg\<lparr>lg_file := filename\<rparr>)\<rparr>"

definition setLogFileName :: "string \<Rightarrow> string \<Rightarrow> log_state \<Rightarrow> log_state" where
  "setLogFileName now fn st = (case lo_l st of None \<Rightarrow> Logger now fn st | Some lg \<Rightarrow> setFileName fn lg st)"

section \<open>Which lines are written\<close>

definition log_messages :: "string \<Rightarrow> (priority \<times> string) list \<Rightarrow> log_state \<Rightarrow> log_state" where
  "log_messages now ms st = fold (\<lambda>(p, line). log_message now p line) ms st"

definition lines_up_to :: "priority \<Rightarrow> (priority \<times> string) list \<Rightarrow> string list" where
  "lines_up_to p ms = map snd (filter (\<lambda>m. fst m \<le> p) ms)"

lemma slog_once [simp]: "slog now (snd (slog now' st)) = (fst (slog now' st), snd (slog now' st))"
  by (auto simp: slog_def Logger_def write_line_def Let_def split: option.splits)

lemma log_message_made:
  "lo_l st = Some lg \<Longrightarrow> log_message now p line st =
     (if p \<le> lg_priority lg then st\<lparr>lo_written := lo_written st @ [(lg_file lg, line)]\<rparr> else st)"
  by (simp add: log_message_def slog_def write_line_def)

lemma log_messages_made:
  "lo_l st = Some lg \<Longrightarrow> log_messages now ms st =
     st\<lparr>lo_written := lo_written st @ map (Pair (lg_file lg)) (lines_up_to (lg_priority lg) ms)\<rparr>"
proof (induction ms arbitrary: st)
  case (Cons m ms)
  obtain p line where m: "m = (p, line)" by (cases m)
  let ?st = "log_message now p line st"
  have s: "?st = (if p \<le> lg_priority lg then st\<lparr>lo_written := lo_written st @ [(lg_file lg, line)]\<rparr> else st)"
    by (rule log_message_made [OF Cons.prems])
  have "lo_l ?st = Some lg" using Cons.prems by (simp add: s)
  from Cons.IH [OF this] show ?case by (simp add: log_messages_def m s lines_up_to_def)
qed (simp add: log_messages_def lines_up_to_def)

text \<open>A more verbose level only adds lines, and an error is written at every level the options offer.\<close>

lemma verbose_adds_lines:
  assumes "p \<le> p'"
  shows "subseq (lines_up_to p ms) (lines_up_to p' ms)"
proof -
  have "filter (\<lambda>m. fst m \<le> p) ms = filter (\<lambda>m. fst m \<le> p) (filter (\<lambda>m. fst m \<le> p') ms)"
    using assms by (auto intro: filter_cong)
  then show ?thesis unfolding lines_up_to_def by (metis subseq_filter_left subseq_map)
qed

lemma errors_are_written:
  assumes "lo_l st = Some lg" and "lg_priority lg \<in> {ERROR, INFO, DEBUG}" and "(ERROR, line) \<in> set ms"
  shows "(lg_file lg, line) \<in> set (lo_written (log_messages now ms st))"
proof -
  have "ERROR \<le> lg_priority lg" using assms(2) by (auto simp: less_eq_priority_def)
  then show ?thesis using assms(1,3) by (force simp: log_messages_made lines_up_to_def)
qed

text \<open>Nothing the program asks for later keeps the line about the start out of the file.\<close>

lemma startup_line_first:
  "lo_written (log_messages now ms (log_setPriority now p no_log)) =
   (''lucifer.log'', ''Galvanic Lucifer startup at '' @ now) # map (Pair ''lucifer.log'') (lines_up_to p ms)"
proof -
  let ?st = "log_setPriority now p no_log"
  have "lo_l ?st = Some \<lparr>lg_file = ''lucifer.log'', lg_priority = p\<rparr>"
    "lo_written ?st = [(''lucifer.log'', ''Galvanic Lucifer startup at '' @ now)]"
    by (simp_all add: log_setPriority_def slog_def Logger_def write_line_def no_log_def Let_def)
  then show ?thesis by (simp add: log_messages_made)
qed

end
