(* ===== verification/Program_Start.thy ===== *)
theory Program_Start
  imports Window_Runs Log_File
begin

text \<open>
  \<open>main.cpp\<close>: the options of the command line, the log, the wait for the engine and the files loaded
  at the start. What \<open>getopt\<close> reports is a parameter, a list of options, followed by the arguments
  that are no options. The thread of the engine is a parameter too: what each look at it finds.
\<close>

datatype option_read =
    Option char "string option"
  | Unknown_option char

datatype outcome =
    Exits int "string list" \<comment> \<open>the status and the lines printed\<close>
  | Aborts
  | Starts priority "string list"

record main_state =
  ma_listPlugs :: bool
  ma_noReload :: bool
  ma_loglevel :: string
  ma_printed :: "string list"

definition main_init :: main_state where
  "main_init = \<lparr>ma_listPlugs = False, ma_noReload = False, ma_loglevel = ''INFO'', ma_printed = []\<rparr>"

definition isprint :: "char \<Rightarrow> bool" where
  "isprint c \<longleftrightarrow> 32 \<le> (of_char c :: nat) \<and> (of_char c :: nat) \<le> 126"

text \<open>\<open>optopt\<close> is an int, so its number is printed.\<close>

definition unknown_message :: "char \<Rightarrow> string" where
  "unknown_message c =
     (if c = CHR ''v'' then ''Option -v requires a log level argument.''
      else if isprint c then ''Unknown option '' @ dec_string (of_char c)
      else ''Unknown option character'')"

text \<open>The loop over the options: a final outcome, or the variables. \<open>getopt\<close> knows \<open>-l\<close>, the switch does not.\<close>

fun read_options :: "string list \<Rightarrow> option_read list \<Rightarrow> main_state \<Rightarrow> outcome + main_state" where
  "read_options usage [] m = Inr m"
| "read_options usage (Unknown_option c # opts) m = Inl (Exits 1 (ma_printed m @ [unknown_message c]))"
| "read_options usage (Option c arg # opts) m =
     (if c = CHR ''h'' then Inl (Exits 0 (ma_printed m @ usage))
      else if c = CHR ''p'' then read_options usage opts (m\<lparr>ma_listPlugs := True\<rparr>)
      else if c = CHR ''n'' then read_options usage opts (m\<lparr>ma_noReload := True\<rparr>)
      else if c = CHR ''v'' then (let a = (case arg of Some a \<Rightarrow> a | None \<Rightarrow> [])
        in read_options usage opts (m\<lparr>ma_loglevel := a, ma_printed := ma_printed m @ [a]\<rparr>))
      else Inl Aborts)"

definition log_level_of :: "string \<Rightarrow> priority option" where
  "log_level_of s = (if s = ''DEBUG'' then Some DEBUG else if s = ''INFO'' then Some INFO
     else if s = ''ERROR'' then Some ERROR else None)"

definition main_options :: "string list \<Rightarrow> string list \<Rightarrow> string list \<Rightarrow> option_read list \<Rightarrow> string list \<Rightarrow>
    outcome" where
  "main_options usage generators drivers opts files = (case read_options usage opts main_init of
     Inl r \<Rightarrow> r
   | Inr m \<Rightarrow> (case log_level_of (ma_loglevel m) of
       None \<Rightarrow> Exits 1 (ma_printed m @ [''Invalid logging level requested, choices are DEBUG, INFO, ERROR.''])
     | Some l \<Rightarrow> if ma_listPlugs m
         then Exits 0 (ma_printed m @ ''Frame generators'' # generators @ ''IO Drivers'' # drivers)
         else Starts l files))"

text \<open>What the start writes into the log.\<close>

definition main_log :: "string \<Rightarrow> priority \<Rightarrow> log_state" where
  "main_log now l = log_message now INFO ''Starting Galvanic Lucifer'' (log_setPriority now l no_log)"

text \<open>
  \<open>EngineStarter::engine\<close> looks at the pointer until it is set, 500 times at most, 10 ms apart; then it
  complains, and returns what the pointer is by then.
\<close>

fun wait_engine :: "nat \<Rightarrow> nat \<Rightarrow> (nat \<Rightarrow> 'e option) \<Rightarrow> 'e option \<times> (priority \<times> string) list" where
  "wait_engine 0 i look = (look i, [(CRIT, '' Unable to start laser engine thread!'')])"
| "wait_engine (Suc n) i look = (case look i of Some e \<Rightarrow> (Some e, []) | None \<Rightarrow> wait_engine n (Suc i) look)"

definition starter_engine :: "(nat \<Rightarrow> 'e option) \<Rightarrow> 'e option \<times> (priority \<times> string) list" where
  "starter_engine look = wait_engine 500 0 look"

text \<open>The loop that loads the files, after the window has been made.\<close>

fun load_files :: "('c, 'f, 'm, 'z) surroundings \<Rightarrow> nat \<Rightarrow> user_world \<Rightarrow> string list \<Rightarrow>
    ('c, 'f, 'm, 'z) gui \<Rightarrow> ('c, 'f, 'm, 'z) gui res" where
  "load_files su now u [] g = Inr g"
| "load_files su now u (fn # fns) g = (case loadFile u fn (gu_window g) of (w, calls) \<Rightarrow>
     rbind (gui_calls su now calls (g\<lparr>gu_window := w\<rparr>)) (load_files su now u fns))"

text \<open>\<open>main\<close> after the options: without an engine it exits with status -1, which is None here.\<close>

definition main_program :: "('c, 'f, 'm, 'z) surroundings \<Rightarrow> nat \<Rightarrow> user_world \<Rightarrow> string list \<Rightarrow>
    (nat \<Rightarrow> ('c, 'f, 'm, 'z) engine option) \<Rightarrow> ('c, 'f, 'm, 'z) gui option res" where
  "main_program su now u files look = (case fst (starter_engine look) of
     None \<Rightarrow> Inr None
   | Some e \<Rightarrow> rbind (start_gui (su_qt su) now u e) (\<lambda>g.
       rbind (load_files su now u files g) (\<lambda>g'. Inr (Some g'))))"

section \<open>The options\<close>

lemma read_options_plain:
  "(\<forall>opt \<in> set opts. \<exists>c arg. opt = Option c arg \<and> c \<in> {CHR ''p'', CHR ''n'', CHR ''v''}) \<Longrightarrow>
   \<exists>m'. read_options usage opts m = Inr m'"
  by (induction opts arbitrary: m) (auto simp: Let_def)

lemma other_option_aborts:
  "(\<forall>opt \<in> set opts. \<exists>c arg. opt = Option c arg \<and> c \<in> {CHR ''p'', CHR ''n'', CHR ''v''}) \<Longrightarrow>
   main_options usage gens drvs (opts @ Option (CHR ''l'') arg # rest) files = Aborts"
proof -
  have "read_options usage (opts @ Option (CHR ''l'') arg # rest) m = Inl Aborts"
    if "\<forall>opt \<in> set opts. \<exists>c arg. opt = Option c arg \<and> c \<in> {CHR ''p'', CHR ''n'', CHR ''v''}" for m
    using that by (induction opts arbitrary: m) (auto simp: Let_def)
  then show "(\<forall>opt \<in> set opts. \<exists>c arg. opt = Option c arg \<and> c \<in> {CHR ''p'', CHR ''n'', CHR ''v''}) \<Longrightarrow> ?thesis"
    by (simp add: main_options_def)
qed

text \<open>Asked for errors only, the program still writes its first line; the second it leaves out.\<close>

lemma main_log_lines:
  "lo_written (main_log now l) = (''lucifer.log'', ''Galvanic Lucifer startup at '' @ now) #
     (if l = ERROR \<or> l = CRIT then [] else [(''lucifer.log'', ''Starting Galvanic Lucifer'')])"
proof -
  have "main_log now l = log_messages now [(INFO, ''Starting Galvanic Lucifer'')] (log_setPriority now l no_log)"
    by (simp add: main_log_def log_messages_def)
  then show ?thesis by (cases l) (simp_all add: startup_line_first lines_up_to_def less_eq_priority_def)
qed

section \<open>The wait for the engine\<close>

lemma wait_engine_finds:
  "look (i + k) = Some e \<Longrightarrow> \<forall>j < k. look (i + j) = None \<Longrightarrow> k < n \<Longrightarrow> wait_engine n i look = (Some e, [])"
proof (induction n arbitrary: i k)
  case (Suc n)
  show ?case
  proof (cases k)
    case 0
    then show ?thesis using Suc.prems(1) by simp
  next
    case (Suc k')
    have "look i = None" using Suc.prems(2) Suc by (metis add_0_right zero_less_Suc)
    moreover have "\<forall>j < k'. look (Suc i + j) = None" using Suc.prems(2) Suc by (metis Suc_less_eq add_Suc_right add_Suc)
    ultimately show ?thesis using Suc.IH [of "Suc i" k'] Suc.prems(1,3) Suc by simp
  qed
qed simp

text \<open>An engine that comes up within the 500 looks is the one \<open>main\<close> uses, without a complaint.\<close>

lemma starter_engine_finds:
  "look k = Some e \<Longrightarrow> \<forall>j < k. look j = None \<Longrightarrow> k < 500 \<Longrightarrow> starter_engine look = (Some e, [])"
  using wait_engine_finds [of look 0 k e 500] by (simp add: starter_engine_def)

lemma wait_engine_gives_up: "\<forall>j \<le> n. look (i + j) = None \<Longrightarrow> fst (wait_engine n i look) = None"
proof (induction n arbitrary: i)
  case (Suc n)
  have "look i = None" using Suc.prems by (metis add_0_right zero_le)
  moreover have "\<forall>j \<le> n. look (Suc i + j) = None" using Suc.prems by (metis Suc_le_mono add_Suc_right add_Suc)
  ultimately show ?case using Suc.IH [of "Suc i"] by simp
qed simp

lemma no_engine_no_program: "\<forall>j \<le> 500. look j = None \<Longrightarrow> main_program su now u files look = Inr None"
  using wait_engine_gives_up [of 500 look 0] by (simp add: main_program_def starter_engine_def)

section \<open>The files\<close>

lemma load_while_loading:
  assumes "en_load_locked (gu_engine g)" and "getSourcesSize (gu_engine g) \<le> slots_limit"
  shows "\<exists>w. load_files su now u fns g = Inr (g\<lparr>gu_window := w\<rparr>)"
  using assms
proof (induction fns arbitrary: g)
  case Nil
  show ?case by (intro exI [of _ "gu_window g"]) simp
next
  case (Cons fn fns)
  let ?w = "show_status ''File Loading'' (gu_window g)"
  have "load_files su now u (fn # fns) g = load_files su now u fns (g\<lparr>gu_window := ?w\<rparr>)"
    using Cons.prems by (cases "uw_contents u fn")
      (simp_all add: loadFile_def is_post_def engine_event_in_gui_def loadShow_def within_memory_def)
  then show ?case using Cons.IH [of "g\<lparr>gu_window := ?w\<rparr>"] Cons.prems by simp
qed



end
