(* ===== verification/Colour_Trim.thy ===== *)
theory Colour_Trim
  imports Complex_Main Lucifer_Prelude
begin

text \<open>
  \<open>colour.h\<close> and \<open>colour.cpp\<close>: a table that maps the 256 levels of a colour channel. No other code of
  the program uses it yet.

  The floats are rational numbers, so rounding is not modelled; \<open>powf\<close> is a parameter. The conversion
  of a float to an unsigned char cuts the fraction and is undefined outside the range.
\<close>

record colour_trimmer =
  ct_min :: rat
  ct_max :: rat
  ct_gamma :: rat
  ct_mapping :: "u8 list"

datatype trim_what = Trim_MIN | Trim_MAX | Trim_GAMMA

definition ColourTrimmer :: colour_trimmer where
  "ColourTrimmer = \<lparr>ct_min = 0, ct_max = 1, ct_gamma = 1, ct_mapping = map of_nat [0..<256]\<rparr>"

definition to_uchar :: "rat \<Rightarrow> u8 res" where
  "to_uchar v = (if - 1 < v \<and> v < 256 then Inr (word_of_int (if v < 0 then 0 else \<lfloor>v\<rfloor>)) else Inl Undefined_behaviour)"

text \<open>One pass of the loop of \<open>computeMapping\<close>.\<close>

definition trimmed_level :: "(rat \<Rightarrow> rat \<Rightarrow> rat) \<Rightarrow> colour_trimmer \<Rightarrow> nat \<Rightarrow> rat" where
  "trimmed_level powf t i =
     (let range = ct_max t - ct_min t;
          v1 = powf (of_nat i / 255) (ct_gamma t);
          v2 = (if v1 > 1 then 1 else v1);
          v3 = ct_min t + range * v2;
          v4 = (if v3 < 0 then 0 else v3)
      in if v4 > 255 then 255 else v4)"

fun computeMapping :: "(rat \<Rightarrow> rat \<Rightarrow> rat) \<Rightarrow> nat list \<Rightarrow> colour_trimmer \<Rightarrow> colour_trimmer res" where
  "computeMapping powf [] t = Inr t"
| "computeMapping powf (i # is) t =
     rbind (to_uchar (255 * trimmed_level powf t i)) (\<lambda>c.
       computeMapping powf is (t\<lparr>ct_mapping := (ct_mapping t)[i := c]\<rparr>))"

definition trim_set :: "(rat \<Rightarrow> rat \<Rightarrow> rat) \<Rightarrow> trim_what \<Rightarrow> rat \<Rightarrow> colour_trimmer \<Rightarrow> colour_trimmer res" where
  "trim_set powf what v t = computeMapping powf [0..<255]
     (case what of Trim_MIN \<Rightarrow> t\<lparr>ct_min := v\<rparr> | Trim_MAX \<Rightarrow> t\<lparr>ct_max := v\<rparr> | Trim_GAMMA \<Rightarrow> t\<lparr>ct_gamma := v\<rparr>)"

definition trim_run :: "u8 \<Rightarrow> colour_trimmer \<Rightarrow> u8" where
  "trim_run col t = ct_mapping t ! unat col"

fun trim_sets :: "(rat \<Rightarrow> rat \<Rightarrow> rat) \<Rightarrow> (trim_what \<times> rat) list \<Rightarrow> colour_trimmer \<Rightarrow> colour_trimmer res" where
  "trim_sets powf [] t = Inr t"
| "trim_sets powf ((what, v) # sets) t = rbind (trim_set powf what v t) (trim_sets powf sets)"

section \<open>The table\<close>

lemma trimmed_level_mapping [simp]: "trimmed_level powf (t\<lparr>ct_mapping := m\<rparr>) i = trimmed_level powf t i"
  by (simp add: trimmed_level_def Let_def)

lemma computeMapping_table:
  assumes "computeMapping powf is t = Inr t'" and "distinct is" and "\<forall>i \<in> set is. i < length (ct_mapping t)"
  shows "length (ct_mapping t') = length (ct_mapping t) \<and> ct_min t' = ct_min t \<and> ct_max t' = ct_max t \<and>
    ct_gamma t' = ct_gamma t \<and> (\<forall>i. i \<notin> set is \<longrightarrow> ct_mapping t' ! i = ct_mapping t ! i) \<and>
    (\<forall>i \<in> set is. to_uchar (255 * trimmed_level powf t i) = Inr (ct_mapping t' ! i))"
  using assms
proof (induction "is" arbitrary: t)
  case (Cons i "is")
  then obtain c where c: "to_uchar (255 * trimmed_level powf t i) = Inr c"
    "computeMapping powf is (t\<lparr>ct_mapping := (ct_mapping t)[i := c]\<rparr>) = Inr t'"
    by (auto simp: rbind_Inr_iff)
  have "\<forall>j \<in> set is. j < length (ct_mapping (t\<lparr>ct_mapping := (ct_mapping t)[i := c]\<rparr>))"
    using Cons.prems(3) by simp
  note ih = Cons.IH [OF c(2) _ this]
  have "ct_mapping t' ! i = c" using ih Cons.prems(2,3) by simp
  then show ?case using ih c Cons.prems(2) by auto
qed simp

lemma to_uchar_range: "0 \<le> v \<Longrightarrow> v \<le> 1 \<Longrightarrow> to_uchar (255 * v) = Inr (word_of_int \<lfloor>255 * v\<rfloor>)"
proof -
  assume "0 \<le> v" "v \<le> 1"
  then have "255 * v < 256" "- 1 < 255 * v" "\<not> 255 * v < 0" by linarith+
  then show ?thesis by (simp add: to_uchar_def)
qed

text \<open>
  The entry for the full level lies outside the loop: whatever the trimmer is set to, the full level
  stays the full level, also with a maximum of 0.
\<close>

lemma full_level_is_never_trimmed:
  assumes "trim_sets powf sets t = Inr t'" and "length (ct_mapping t) = 256"
  shows "trim_run 255 t' = trim_run 255 t"
  using assms
proof (induction sets arbitrary: t)
  case (Cons s sets)
  obtain what v where s: "s = (what, v)" by (cases s)
  then obtain t1 where t1: "trim_set powf what v t = Inr t1" "trim_sets powf sets t1 = Inr t'"
    using Cons.prems(1) by (auto simp: rbind_Inr_iff)
  let ?t = "case what of Trim_MIN \<Rightarrow> t\<lparr>ct_min := v\<rparr> | Trim_MAX \<Rightarrow> t\<lparr>ct_max := v\<rparr> | Trim_GAMMA \<Rightarrow> t\<lparr>ct_gamma := v\<rparr>"
  have m: "ct_mapping ?t = ct_mapping t" by (cases what) simp_all
  have "computeMapping powf [0..<255] ?t = Inr t1" using t1(1) by (simp add: trim_set_def)
  from computeMapping_table [OF this] have "length (ct_mapping t1) = 256" "ct_mapping t1 ! 255 = ct_mapping t ! 255"
    using Cons.prems(2) m by auto
  then show ?case using Cons.IH [OF t1(2)] by (simp add: trim_run_def)
qed simp

text \<open>The levels are clamped to 255 before they are multiplied with 255.\<close>

lemma maximum_above_one_overflows:
  "trimmed_level powf (ColourTrimmer\<lparr>ct_max := 2\<rparr>) 254 = 2 * v \<Longrightarrow> 1 / 2 < v \<Longrightarrow> 256 / 255 \<le> 2 * v \<Longrightarrow>
   to_uchar (255 * trimmed_level powf (ColourTrimmer\<lparr>ct_max := 2\<rparr>) 254) = Inl Undefined_behaviour"
  by (simp add: to_uchar_def)

lemma computeMapping_succeeds:
  "\<forall>i \<in> set is. \<exists>c. to_uchar (255 * trimmed_level powf t i) = Inr c \<Longrightarrow> \<exists>t'. computeMapping powf is t = Inr t'"
proof (induction "is" arbitrary: t)
  case (Cons i "is")
  obtain c where "to_uchar (255 * trimmed_level powf t i) = Inr c" using Cons.prems by auto
  then show ?case using Cons.IH [of "t\<lparr>ct_mapping := (ct_mapping t)[i := c]\<rparr>"] Cons.prems by simp
qed simp

lemma trimmed_level_range:
  assumes "0 \<le> ct_min t" and "ct_min t \<le> ct_max t" and "ct_max t \<le> 1"
    and "0 \<le> powf (of_nat i / 255) (ct_gamma t)"
  shows "ct_min t \<le> trimmed_level powf t i \<and> trimmed_level powf t i \<le> ct_max t"
proof -
  let ?v = "powf (of_nat i / 255) (ct_gamma t)"
  let ?w = "if ?v > 1 then 1 else ?v" and ?r = "ct_max t - ct_min t"
  have "0 \<le> ?w" "?w \<le> 1" "0 \<le> ?r" using assms by simp_all
  then have "0 \<le> ?r * ?w" "?r * ?w \<le> ?r" by (simp_all add: mult_left_le)
  then show ?thesis using assms(1,3) unfolding trimmed_level_def Let_def by (auto simp del: if_split split: if_split)
qed

text \<open>
  With limits between 0 and 1, setting a parameter of the colour trimmer gives every level below
  the full one a new value between the limits, cut to a byte; the entry for the full level is not
  computed and keeps its value, so the brightest points are never trimmed.
\<close>

theorem trimmer_maps_all_but_the_full_level:
  assumes "t1 = (case what of Trim_MIN \<Rightarrow> t\<lparr>ct_min := v\<rparr> | Trim_MAX \<Rightarrow> t\<lparr>ct_max := v\<rparr> | Trim_GAMMA \<Rightarrow> t\<lparr>ct_gamma := v\<rparr>)"
    and "0 \<le> ct_min t1" and "ct_min t1 \<le> ct_max t1" and "ct_max t1 \<le> 1"
    and "\<And>x. 0 \<le> x \<Longrightarrow> 0 \<le> powf x (ct_gamma t1)" and "length (ct_mapping t) = 256"
  shows "\<exists>t'. trim_set powf what v t = Inr t' \<and> length (ct_mapping t') = 256 \<and>
    (\<forall>i < 255. \<exists>x. ct_min t1 \<le> x \<and> x \<le> ct_max t1 \<and> trim_run (of_nat i) t' = word_of_int \<lfloor>255 * x\<rfloor>) \<and>
    trim_run 255 t' = trim_run 255 t"
proof -
  have m: "ct_mapping t1 = ct_mapping t" using assms(1) by (cases what) simp_all
  have r: "ct_min t1 \<le> trimmed_level powf t1 i \<and> trimmed_level powf t1 i \<le> ct_max t1" for i
    by (rule trimmed_level_range [OF assms(2-4)]) (simp add: assms(5))
  have u: "to_uchar (255 * trimmed_level powf t1 i) = Inr (word_of_int \<lfloor>255 * trimmed_level powf t1 i\<rfloor>)" for i
    using r [of i] assms(2,4) by (intro to_uchar_range) simp_all
  obtain t' where t': "computeMapping powf [0..<255] t1 = Inr t'"
    using computeMapping_succeeds [of "[0..<255]" powf t1] u by blast
  have s: "trim_set powf what v t = Inr t'" using t' assms(1) by (simp add: trim_set_def)
  have f: "length (ct_mapping t') = 256" "ct_mapping t' ! 255 = ct_mapping t ! 255"
    "\<forall>i < 255. ct_mapping t' ! i = word_of_int \<lfloor>255 * trimmed_level powf t1 i\<rfloor>"
    using computeMapping_table [OF t'] assms(6) m u by auto
  have "\<exists>x. ct_min t1 \<le> x \<and> x \<le> ct_max t1 \<and> trim_run (of_nat i) t' = word_of_int \<lfloor>255 * x\<rfloor>" if "i < 255" for i
    using r [of i] f(3) that by (intro exI [of _ "trimmed_level powf t1 i"]) (simp add: trim_run_def unat_of_nat_below)
  then show ?thesis using s f(1,2) by (auto simp: trim_run_def)
qed

theorem trimmer_maps_all_but_the_full_level_witness:
  "\<exists>t'. trim_set (\<lambda>x g. x) Trim_MAX 0 ColourTrimmer = Inr t' \<and> trim_run 100 t' = 0 \<and> trim_run 255 t' = 255"
proof -
  have l: "length (ct_mapping ColourTrimmer) = 256" by (simp add: ColourTrimmer_def)
  have f: "trim_run 255 ColourTrimmer = 255" by (simp add: trim_run_def ColourTrimmer_def)
  obtain t' where t: "trim_set (\<lambda>x g. x) Trim_MAX 0 ColourTrimmer = Inr t'"
    "\<forall>i < 255. \<exists>x. (0 :: rat) \<le> x \<and> x \<le> 0 \<and> trim_run (of_nat i) t' = word_of_int \<lfloor>255 * x\<rfloor>"
    "trim_run 255 t' = trim_run 255 ColourTrimmer"
    using trimmer_maps_all_but_the_full_level [where ?t1.0 = "ColourTrimmer\<lparr>ct_max := 0\<rparr>" and what = Trim_MAX
      and t = ColourTrimmer and v = 0 and powf = "\<lambda>x g. x"] l by (auto simp: ColourTrimmer_def)
  obtain x :: rat where "0 \<le> x" "x \<le> 0" "trim_run (of_nat 100) t' = word_of_int \<lfloor>255 * x\<rfloor>"
    using t(2) [rule_format, of 100] by auto
  then have x: "x = 0" "trim_run (of_nat 100) t' = word_of_int \<lfloor>255 * x\<rfloor>" by simp_all
  have "trim_run 100 t' = 0" using x(2) unfolding x(1) by simp
  then show ?thesis using t(1,3) f by (intro exI [of _ t']) simp
qed

end
