(* ===== verification/Source_Editor.thy ===== *)
theory Source_Editor
  imports Frame_Trees
begin

text \<open>
  The tree widget of the source editor, \<open>editparams.h\<close> and \<open>editparams.cpp\<close>, with its drag and drop,
  and the list of the source classes. The editor itself is in \<open>Editor_Runs\<close>.

  The items of the tree widget point at the frame sources they show, and a drop changes both, so here
  the sources are objects in a store, with the addresses of their children. A new object gets the
  next address.
\<close>

section \<open>Sources as objects\<close>

record ('c, 'f, 'm) source_object =
  so_node :: "('c, 'f, 'm) node"
  so_description :: string
  so_children :: "nat list"

type_synonym ('c, 'f, 'm) store = "('c, 'f, 'm) source_object list"

definition so_getName :: "('c, 'f, 'm) source_object \<Rightarrow> string" where
  "so_getName ob = getName (Source (so_node ob) (so_description ob) [])"

definition so_possible :: "('c, 'f, 'm) source_object \<Rightarrow> possible_children" where
  "so_possible ob = numPossibleChildren (Source (so_node ob) (so_description ob) [])"

text \<open>\<open>addChild\<close> and \<open>deleteChild\<close>, as in \<open>Frame_Source\<close>.\<close>

definition so_addChild :: "nat \<Rightarrow> int \<Rightarrow> nat \<Rightarrow> ('c, 'f, 'm) store \<Rightarrow> bool \<times> ('c, 'f, 'm) store" where
  "so_addChild child pos a st =
     (let ob = st ! a; cs = so_children ob in
      if so_possible ob = MANY \<or> so_possible ob = ONE \<and> length cs = 0 \<or> so_possible ob = TWO \<and> length cs < 2
      then
        if pos < 0 then (True, st[a := ob\<lparr>so_children := cs @ [child]\<rparr>])
        else if int (length cs) < pos then (False, st)
        else (True, st[a := ob\<lparr>so_children := (if length cs = 0 then [child] else insert_at (nat pos) child cs)\<rparr>])
      else (False, st))"

definition so_deleteChild :: "nat \<Rightarrow> nat \<Rightarrow> ('c, 'f, 'm) store \<Rightarrow> ('c, 'f, 'm) store res" where
  "so_deleteChild pos a st =
     (let ob = st ! a in
      if pos < length (so_children ob) then Inr (st[a := ob\<lparr>so_children := erase_at pos (so_children ob)\<rparr>])
      else Inl Assertion_failed)"

text \<open>The objects of a tree, children first; the result has the address of the root.\<close>

fun place :: "('c, 'f, 'm) fsource \<Rightarrow> ('c, 'f, 'm) store \<Rightarrow> nat \<times> ('c, 'f, 'm) store"
  and place_all :: "('c, 'f, 'm) fsource list \<Rightarrow> ('c, 'f, 'm) store \<Rightarrow> nat list \<times> ('c, 'f, 'm) store" where
  "place (Source n d cs) st = (let (as, st1) = place_all cs st
     in (length st1, st1 @ [\<lparr>so_node = n, so_description = d, so_children = as\<rparr>]))"
| "place_all [] st = ([], st)"
| "place_all (c # cs) st = (let (a, st1) = place c st; (as, st2) = place_all cs st1 in (a # as, st2))"

section \<open>The tree widget\<close>

text \<open>An item has a text, points at a source and has the items below it.\<close>

datatype item = Item (it_text: string) (it_data: nat) (it_below: "item list")

text \<open>
  \<open>populateTree\<close> gives an item the text and the data of a source, and puts items for the children of
  the source before the ones it has. Children have smaller addresses in what \<open>place\<close> makes, but the
  sources of a drop can be linked in other ways: \<open>fuel\<close> bounds the depth.
\<close>

fun populateTree :: "nat \<Rightarrow> ('c, 'f, 'm) store \<Rightarrow> nat \<Rightarrow> item list \<Rightarrow> item res"
  and populate_all :: "nat \<Rightarrow> ('c, 'f, 'm) store \<Rightarrow> nat list \<Rightarrow> item list res" where
  "populateTree 0 st a below = Inl Out_of_fuel"
| "populateTree (Suc fuel) st a below =
     rbind (populate_all fuel st (so_children (st ! a))) (\<lambda>is. Inr (Item (so_getName (st ! a)) a (is @ below)))"
| "populate_all fuel st [] = Inr []"
| "populate_all fuel st (a # as) = rbind (populateTree fuel st a []) (\<lambda>i.
     rbind (populate_all fuel st as) (\<lambda>is. Inr (i # is)))"

text \<open>\<open>locateData\<close>: the loop runs over the children of the source and takes the items at their places.\<close>

fun locateData :: "nat \<Rightarrow> ('c, 'f, 'm) store \<Rightarrow> nat \<Rightarrow> item \<Rightarrow> item option"
  and locate_in :: "nat \<Rightarrow> ('c, 'f, 'm) store \<Rightarrow> nat \<Rightarrow> item list \<Rightarrow> item option" where
  "locateData 0 st d it = None"
| "locateData (Suc fuel) st d it =
     (if it_data it = d then Some it
      else locate_in fuel st d (take (length (so_children (st ! it_data it))) (it_below it)))"
| "locate_in fuel st d [] = None"
| "locate_in fuel st d (i # is) = (case locateData fuel st d i of Some r \<Rightarrow> Some r | None \<Rightarrow> locate_in fuel st d is)"

text \<open>\<open>insertChild\<close> of the tree widget ignores an index outside the items.\<close>

definition insertChild :: "int \<Rightarrow> item \<Rightarrow> item list \<Rightarrow> item list" where
  "insertChild index i is = (if 0 \<le> index \<and> index \<le> int (length is) then insert_at (nat index) i is else is)"

text \<open>
  \<open>dropMimeData\<close> on an item. When the source of the item takes one child and has it, a sequencer is
  spliced in; this deletes the first child of the child, which fails the assertion when there is none,
  and leaves the source of the item without the sequencer. \<open>dropped\<close> is what the data of the drag holds.
\<close>

definition needs_sequencer :: "('c, 'f, 'm) source_object \<Rightarrow> bool" where
  "needs_sequencer ob \<longleftrightarrow> so_possible ob = ONE \<and> length (so_children ob) = 1"

definition splice_sequencer :: "item \<Rightarrow> ('c, 'f, 'm) store \<Rightarrow> (item \<times> ('c, 'f, 'm) store) res" where
  "splice_sequencer par st =
     (case place (FrameSequencer :: ('c, 'f, 'm) fsource) st of (sequence, st1) \<Rightarrow>
      (case it_below par of
        [] \<Rightarrow> Inl Undefined_behaviour
      | c # rest \<Rightarrow>
          rbind (so_deleteChild 0 (it_data c) st1) (\<lambda>st2.
          rbind (so_deleteChild 0 (it_data par) (snd (so_addChild (it_data c) (- 1) sequence st2))) (\<lambda>st3.
          rbind (populateTree (Suc (length st3)) st3 sequence rest) (\<lambda>par'. Inr (par', st3))))))"

definition accepts :: "('c, 'f, 'm) source_object \<Rightarrow> bool" where
  "accepts ob \<longleftrightarrow> so_possible ob = MANY \<or> so_possible ob = TWO \<and> length (so_children ob) \<le> 1 \<or>
     so_possible ob = ONE \<and> length (so_children ob) = 0"

definition dropMimeData :: "int \<Rightarrow> ('c, 'f, 'm) fsource option res \<Rightarrow> item \<Rightarrow> ('c, 'f, 'm) store \<Rightarrow>
    (bool \<times> item \<times> ('c, 'f, 'm) store) res" where
  "dropMimeData index dropped par st =
     rbind (if needs_sequencer (st ! it_data par) then splice_sequencer par st else Inr (par, st)) (\<lambda>(par1, st1).
       if accepts (st1 ! it_data par1) then
         rbind dropped (\<lambda>fs. case fs of
           None \<Rightarrow> Inr (True, par1, st1)
         | Some f \<Rightarrow> (case place f st1 of (a, st2) \<Rightarrow>
             rbind (populateTree (Suc (length st2)) st2 a []) (\<lambda>n.
               Inr (True, Item (it_text par1) (it_data par1) (insertChild index n (it_below par1)),
                    snd (so_addChild a index (it_data par1) st2)))))
       else Inr (False, par1, st1))"

section \<open>The list of the source classes\<close>

text \<open>\<open>NodeSelectorWidget\<close> lists the registered names; a drag makes a new source of the class.\<close>

definition node_names :: "('c, 'f, 'm) fsource registry \<Rightarrow> string list" where
  "node_names reg = enemerateFrameGenTypes reg"

definition node_mimeData :: "string \<Rightarrow> ('c, 'f, 'm) fsource registry \<Rightarrow> ('c, 'f, 'm) fsource option" where
  "node_mimeData name reg = find_frame_gen name reg"

section \<open>The items mirror the sources\<close>

fun addresses :: "item \<Rightarrow> nat list" where
  "addresses (Item txt a is) = a # concat (map addresses is)"

fun mirrors :: "('c, 'f, 'm) store \<Rightarrow> item \<Rightarrow> bool" where
  "mirrors st (Item txt a is) \<longleftrightarrow> a < length st \<and> txt = so_getName (st ! a) \<and>
     map it_data is = so_children (st ! a) \<and> (\<forall>i \<in> set is. mirrors st i)"

text \<open>Only the links and the classes of the objects matter.\<close>

definition same_object :: "('c, 'f, 'm) source_object \<Rightarrow> ('c, 'f, 'm) source_object \<Rightarrow> bool" where
  "same_object ob ob' \<longleftrightarrow> so_children ob' = so_children ob \<and> so_getName ob' = so_getName ob"

lemma same_object_refl [simp]: "same_object ob ob"
  by (simp add: same_object_def)

lemma same_object_trans: "same_object a b \<Longrightarrow> same_object b c \<Longrightarrow> same_object a c"
  by (simp add: same_object_def)

lemma mirrors_local:
  "mirrors st i \<Longrightarrow> length st \<le> length st' \<Longrightarrow> \<forall>b \<in> set (addresses i). same_object (st ! b) (st' ! b) \<Longrightarrow>
   mirrors st' i"
  by (induction i) (auto simp: same_object_def)

lemma mirrors_append: "mirrors st i \<Longrightarrow> mirrors (st @ st') i"
  by (induction i) (auto simp: nth_append)

lemma mirrors_below: "mirrors st i \<Longrightarrow> b \<in> set (addresses i) \<Longrightarrow> b < length st"
  by (induction i) auto

lemma it_data_addresses [simp]: "it_data i \<in> set (addresses i)"
  by (cases i) simp

text \<open>A tree put into the store gets items that mirror it, at addresses of their own.\<close>

definition fresh_items :: "('c, 'f, 'm) store \<Rightarrow> ('c, 'f, 'm) store \<Rightarrow> ('c, 'f, 'm) store \<Rightarrow> item list \<Rightarrow> bool" where
  "fresh_items st st' ext is \<longleftrightarrow> (\<exists>new. st' = st @ new) \<and> (\<forall>i \<in> set is. mirrors (st' @ ext) i) \<and>
     distinct (concat (map addresses is)) \<and> (\<Union>i \<in> set is. set (addresses i)) \<subseteq> {length st..<length st'}"

lemma fresh_items_ext: "fresh_items st st' ext is \<Longrightarrow> fresh_items st st' (ext @ ext') is"
  by (auto simp: fresh_items_def simp flip: append_assoc intro: mirrors_append)

lemma fresh_items_Cons:
  assumes "fresh_items st st1 (new @ ext) [i]" and "fresh_items st1 st2 ext is" and "st2 = st1 @ new"
  shows "fresh_items st st2 ext (i # is)"
proof -
  have s: "set (addresses i) \<subseteq> {length st..<length st1}" "(\<Union>i \<in> set is. set (addresses i)) \<subseteq> {length st1..<length st2}"
    using assms(1,2) by (simp_all add: fresh_items_def)
  then have "set (addresses i) \<inter> set (concat (map addresses is)) = {}" by fastforce
  moreover have "length st \<le> length st1" "length st1 \<le> length st2" using assms(1,3) by (auto simp: fresh_items_def)
  then have "(\<Union>i \<in> set (i # is). set (addresses i)) \<subseteq> {length st..<length st2}" using s by fastforce
  ultimately show ?thesis using assms by (auto simp: fresh_items_def)
qed

lemma place_fresh:
  "\<forall>a st' fuel ext. place f st = (a, st') \<longrightarrow> length st' - length st \<le> fuel \<longrightarrow>
     length st < length st' \<and> (\<exists>n. populateTree fuel (st' @ ext) a [] = Inr n \<and> fresh_items st st' ext [n] \<and>
       it_data n = a \<and> it_text n = getName f)"
  "\<forall>as st' fuel ext. place_all fs st = (as, st') \<longrightarrow> length st' - length st \<le> fuel \<longrightarrow>
     length st \<le> length st' \<and> (\<exists>is. populate_all fuel (st' @ ext) as = Inr is \<and> fresh_items st st' ext is \<and>
       map it_data is = as)"
proof (induction f st and fs st rule: place_place_all.induct)
  case (1 n d cs st)
  show ?case
  proof (intro allI impI)
    fix a st' fuel and ext :: "('a, 'b, 'c) store"
    assume p: "place (Source n d cs) st = (a, st')" "length st' - length st \<le> fuel"
    obtain as st1 where q: "place_all cs st = (as, st1)" by fastforce
    let ?ob = "\<lparr>so_node = n, so_description = d, so_children = as\<rparr>"
    have st': "a = length st1" "st' = st1 @ [?ob]" using p(1) q by simp_all
    have le: "length st \<le> length st1" using 1 q by blast
    obtain k where k: "fuel = Suc k" "length st1 - length st \<le> k" using p(2) st'(2) le by (cases fuel) auto
    obtain "is" where i: "populate_all k (st1 @ [?ob] @ ext) as = Inr is" "fresh_items st st1 ([?ob] @ ext) is"
      "map it_data is = as" using 1 q k(2) by blast
    let ?it = "Item (getName (Source n d cs)) a is"
    have nm: "so_getName ?ob = getName (Source n d cs)" by (simp add: so_getName_def getName_def)
    then have "populateTree fuel (st' @ ext) a [] = Inr ?it"
      using i(1) k(1) by (simp add: st' nth_append)
    moreover have "a \<notin> set (concat (map addresses is))" using i(2) by (auto simp: fresh_items_def st')
    then have "fresh_items st st' ext [?it]"
      using i(2,3) le nm by (auto simp: fresh_items_def st' nth_append)
    ultimately show "length st < length st' \<and> (\<exists>n'. populateTree fuel (st' @ ext) a [] = Inr n' \<and>
        fresh_items st st' ext [n'] \<and> it_data n' = a \<and> it_text n' = getName (Source n d cs))"
      using le by (auto simp: st')
  qed
next
  case (2 st)
  show ?case by (simp add: fresh_items_def)
next
  case (3 c cs st)
  show ?case
  proof (intro allI impI)
    fix as st2 fuel and ext :: "('a, 'b, 'c) store"
    assume p: "place_all (c # cs) st = (as, st2)" "length st2 - length st \<le> fuel"
    obtain a st1 where q: "place c st = (a, st1)" by fastforce
    obtain as' where r: "place_all cs st1 = (as', st2)" "as = a # as'"
      using p(1) q by (auto simp: Let_def split: prod.splits)
    have le: "length st < length st1" "length st1 \<le> length st2" using 3(1) 3(2) [OF q [symmetric] refl] q r by blast+
    then have fuel: "length st1 - length st \<le> fuel" "length st2 - length st1 \<le> fuel" using p(2) by linarith+
    obtain "is" where i: "populate_all fuel (st2 @ ext) as' = Inr is" "fresh_items st1 st2 ext is" "map it_data is = as'"
      using 3(2) [OF q [symmetric] refl] r(1) fuel(2) by blast
    obtain new where new: "st2 = st1 @ new" using i(2) by (auto simp: fresh_items_def)
    obtain it where n: "populateTree fuel (st1 @ new @ ext) a [] = Inr it" "fresh_items st st1 (new @ ext) [it]"
      "it_data it = a" using 3(1) q fuel(1) by blast
    have "populate_all fuel (st2 @ ext) as = Inr (it # is)" using n(1) i(1) r(2) by (simp add: new)
    moreover have "fresh_items st st2 ext (it # is)" by (rule fresh_items_Cons [OF n(2) i(2) new])
    ultimately show "length st \<le> length st2 \<and> (\<exists>is. populate_all fuel (st2 @ ext) as = Inr is \<and>
        fresh_items st st2 ext is \<and> map it_data is = as)"
      using le i(3) n(3) r(2) by auto
  qed
qed

lemma place_populate:
  assumes "place f st = (a, st')"
  shows "\<exists>n new. st' = st @ new \<and> populateTree (Suc (length st')) st' a [] = Inr n \<and> mirrors st' n \<and>
    it_data n = a \<and> it_text n = getName f \<and> distinct (addresses n) \<and> set (addresses n) \<subseteq> {length st..<length st'}"
proof -
  have "length st' - length st \<le> Suc (length st')" by simp
  then obtain n where "populateTree (Suc (length st')) (st' @ []) a [] = Inr n" "fresh_items st st' [] [n]"
    "it_data n = a" "it_text n = getName f" using place_fresh(1) assms by blast
  then show ?thesis by (auto simp: fresh_items_def)
qed

text \<open>What a drop that is accepted does.\<close>

lemma drop_result:
  assumes "dropMimeData index dropped (Item w a below) st = Inr r" and "mirrors st (Item w a below)"
    and "distinct (addresses (Item w a below))" and "\<not> needs_sequencer (st ! a)"
    and "0 \<le> index" and "index \<le> int (length below)"
  shows "r = (fst r, Item w a below, st) \<or>
    (\<exists>f n b new. dropped = Inr (Some f) \<and> place f st = (b, st @ new) \<and> it_data n = b \<and> it_text n = getName f \<and>
      distinct (addresses n) \<and> set (addresses n) \<subseteq> {length st..<length (st @ new)} \<and> mirrors (st @ new) n \<and>
      r = (True, Item w a (insert_at (nat index) n below),
        (st @ new)[a := (st ! a)\<lparr>so_children := insert_at (nat index) b (so_children (st ! a))\<rparr>]))"
proof (cases "accepts (st ! a)")
  case False
  then have "r = (False, Item w a below, st)" using assms(1,4) by (simp add: dropMimeData_def)
  then show ?thesis by simp
next
  case acc: True
  consider "dropped = Inr None" | e where "dropped = Inl e" | f where "dropped = Inr (Some f)"
    by (metis not_None_eq sum.exhaust)
  then show ?thesis
  proof cases
    case 3
    obtain b st1 where p: "place f st = (b, st1)" by fastforce
    obtain n new where n: "st1 = st @ new" "populateTree (Suc (length st1)) st1 b [] = Inr n" "mirrors st1 n"
      "it_data n = b" "it_text n = getName f" "distinct (addresses n)" "set (addresses n) \<subseteq> {length st..<length st1}"
      using place_populate [OF p] by blast
    have m: "a < length st" "map it_data below = so_children (st ! a)" using assms(2) by simp_all
    have len: "length (so_children (st ! a)) = length below" using m(2) by (metis length_map)
    have ob: "st1 ! a = st ! a" using n(1) m(1) by (simp add: nth_append)
    have "so_addChild b index a st1 =
        (True, st1[a := (st ! a)\<lparr>so_children := insert_at (nat index) b (so_children (st ! a))\<rparr>])"
      using acc assms(5,6) len by (auto simp: so_addChild_def accepts_def ob Let_def insert_at_def)
    then have "r = (True, Item w a (insert_at (nat index) n below),
        st1[a := (st ! a)\<lparr>so_children := insert_at (nat index) b (so_children (st ! a))\<rparr>])"
      using assms(1,4-6) acc 3 p by (simp add: dropMimeData_def n(2) insertChild_def del: populateTree.simps)
    then show ?thesis using 3 p n by blast
  qed (use assms(1,4) acc in \<open>auto simp: dropMimeData_def\<close>)
qed

lemma set_concat_insert: "set (concat (map g (insert_at k x xs))) = set (g x) \<union> set (concat (map g xs))"
proof -
  have "set (concat (map g xs)) = set (concat (map g (take k xs @ drop k xs)))" by simp
  then show ?thesis unfolding insert_at_def by (simp only: map_append concat_append set_append list.map concat.simps) blast
qed

lemma distinct_concat_insert:
  "distinct (concat (map g (insert_at k x xs))) \<longleftrightarrow> distinct (g x @ concat (map g xs))"
proof -
  have "distinct (g x @ concat (map g xs)) = distinct (g x @ concat (map g (take k xs @ drop k xs)))" by simp
  then show ?thesis unfolding insert_at_def
    by (simp only: map_append concat_append set_append list.map concat.simps distinct_append) blast
qed

lemma insert_mirrors:
  assumes m: "mirrors st (Item w a below)" and d: "distinct (addresses (Item w a below))"
    and n: "mirrors (st @ new) n" "distinct (addresses n)" "set (addresses n) \<subseteq> {length st..<length (st @ new)}"
    and k: "k \<le> length below"
  defines "st' \<equiv> (st @ new)[a := (st ! a)\<lparr>so_children := insert_at k (it_data n) (so_children (st ! a))\<rparr>]"
  shows "mirrors st' (Item w a (insert_at k n below)) \<and> distinct (addresses (Item w a (insert_at k n below)))"
proof -
  have a: "a < length st" "w = so_getName (st ! a)" "map it_data below = so_children (st ! a)"
    "\<forall>i \<in> set below. mirrors st i" using m by simp_all
  have "mirrors st' i" if "i \<in> set below" for i
  proof (rule mirrors_local)
    show "mirrors st i" using a(4) that by blast
    show "\<forall>b \<in> set (addresses i). same_object (st ! b) (st' ! b)"
    proof
      fix b assume "b \<in> set (addresses i)"
      then have "b < length st" "b \<noteq> a" using mirrors_below [of st i] a(4) d that by auto
      then show "same_object (st ! b) (st' ! b)" by (simp add: st'_def nth_append)
    qed
  qed (simp add: st'_def)
  moreover have "mirrors st' n"
  proof (rule mirrors_local [OF n(1)])
    show "\<forall>b \<in> set (addresses n). same_object ((st @ new) ! b) (st' ! b)" using n(3) a(1) by (auto simp: st'_def)
  qed (simp add: st'_def)
  moreover have "map it_data (insert_at k n below) = insert_at k (it_data n) (so_children (st ! a))"
    by (simp add: insert_at_def a(3) [symmetric] take_map drop_map)
  moreover have "st' ! a = (st ! a)\<lparr>so_children := insert_at k (it_data n) (so_children (st ! a))\<rparr>"
    using a(1) by (simp add: st'_def)
  ultimately have "mirrors st' (Item w a (insert_at k n below))"
    using a(1,2) by (auto simp: insert_at_def so_getName_def st'_def dest: in_set_takeD in_set_dropD)
  moreover have "a \<notin> set (addresses n)" "\<forall>b \<in> set (concat (map addresses below)). b \<notin> set (addresses n)"
    using n(3) a(1,4) mirrors_below [of st] by fastforce+
  then have "distinct (addresses (Item w a (insert_at k n below)))"
    using d n(2) unfolding addresses.simps distinct.simps set_concat_insert distinct_concat_insert by auto
  ultimately show ?thesis by blast
qed

text \<open>Two small trees in the store: a static frame below a sequencer, and one below a colour rotator.\<close>

definition demo_objects :: "(int \<times> int \<times> int, rat, rat) fsource \<Rightarrow> (int \<times> int \<times> int, rat, rat) store" where
  "demo_objects s = snd (place (Source (src_node s) [] [StaticFrame exact_qt]) [])"

definition demo_items :: "(int \<times> int \<times> int, rat, rat) fsource \<Rightarrow> item" where
  "demo_items s = Item (getName s) 1 [Item ''Static_frame'' 0 []]"

lemma demo_objects_eq: "demo_objects s =
    [\<lparr>so_node = src_node (StaticFrame exact_qt), so_description = getDescription (StaticFrame exact_qt), so_children = []\<rparr>,
     \<lparr>so_node = src_node s, so_description = [], so_children = [0]\<rparr>]"
  by (simp add: demo_objects_def StaticFrame_def)

lemma demo_mirrors: "mirrors (demo_objects s) (demo_items s)"
  by (auto simp: demo_objects_eq demo_items_def so_getName_def getName_def StaticFrame_def)


text \<open>
  C34. A drop on a source that takes one child and has one that is a leaf, as a colour rotator over a
  static frame, stops the program: the code deletes the first child of the child, which has none.
\<close>

theorem drop_over_a_leaf_stops_the_program:
  assumes "mirrors st par" and "so_possible (st ! it_data par) = ONE" and "so_children (st ! it_data par) = [c]"
    and "so_children (st ! c) = []"
  shows "dropMimeData index dropped par st = Inl Assertion_failed"
proof -
  obtain w a below where par: "par = Item w a below" by (cases par)
  then have "map it_data below = [c]" using assms(1,3) by simp
  then obtain i where i: "below = [i]" "it_data i = c" by auto
  then have "c < length st" using assms(1) par by (cases i) simp
  then show ?thesis using assms(2-4) par i
    by (simp add: dropMimeData_def needs_sequencer_def splice_sequencer_def FrameSequencer_def
        so_deleteChild_def nth_append)
qed

theorem drop_over_a_leaf_stops_the_program_witness:
  "dropMimeData 0 (Inr None) (demo_items (ColourRotator exact_qt)) (demo_objects (ColourRotator exact_qt)) =
   Inl Assertion_failed"
proof (rule drop_over_a_leaf_stops_the_program [OF demo_mirrors])
  show "so_possible (demo_objects (ColourRotator exact_qt) ! it_data (demo_items (ColourRotator exact_qt))) = ONE"
    by (simp add: demo_objects_eq demo_items_def so_possible_def numPossibleChildren_def ColourRotator_def)
  show "so_children (demo_objects (ColourRotator exact_qt) ! it_data (demo_items (ColourRotator exact_qt))) = [0]"
    by (simp add: demo_objects_eq demo_items_def)
  show "so_children (demo_objects (ColourRotator exact_qt) ! 0) = []" by (simp add: demo_objects_eq)
qed

end
