(* ===== verification/Source_Panels.thy ===== *)
theory Source_Panels
  imports Frame_Source
begin

text \<open>
  The panels of the source editor: what \<open>StaticFrameGui\<close> (\<open>staticframe.cpp\<close>),
  \<open>FrameSequencerGui\<close> (\<open>framesequencer.cpp\<close>) and \<open>ColourRotatorGui\<close> (\<open>colourrotator.cpp\<close>) show of
  a source when they open, and the ball that turns a static frame with the mouse (\<open>arcball.h\<close>,
  \<open>arcball.cpp\<close>). The slots that change the sources are in \<open>Frame_Source\<close>.

  Qt's vectors are triples of rationals and its quaternions quadruples; the square root, the turning
  of a matrix, the logarithm and the conversion of floats are fields of the record \<open>panel_lib\<close>.
\<close>

type_synonym vector3 = "rat \<times> rat \<times> rat"
type_synonym quaternion = "rat \<times> vector3"

record ('f, 'm) panel_lib =
  pl_sqrt :: "rat \<Rightarrow> rat"
  pl_normalize :: "vector3 \<Rightarrow> vector3"
  pl_turn :: "quaternion \<Rightarrow> 'm \<Rightarrow> 'm" \<comment> \<open>\<open>m.rotate (q)\<close>\<close>
  pl_log10 :: "'f \<Rightarrow> rat"
  pl_pow10 :: "rat \<Rightarrow> 'f"
  pl_thousand :: "'f \<Rightarrow> int" \<comment> \<open>\<open>1000 * f\<close> as an int\<close>

section \<open>The ball\<close>

record 'm arc_ball =
  ab_mouse_down :: bool
  ab_start_pos :: "rat \<times> rat"
  ab_q_drag :: quaternion
  ab_matrix :: 'm

datatype ball_signal = Angle_changed quaternion | Mouse_down | Mouse_up

text \<open>A new quaternion is the identity.\<close>

definition ArcBall :: "('c, 'f, 'm) qt \<Rightarrow> 'm arc_ball" where
  "ArcBall q = \<lparr>ab_mouse_down = False, ab_start_pos = (0, 0), ab_q_drag = (1, (0, 0, 0)),
     ab_matrix = q_identity q\<rparr>"

definition setMatrix :: "'m \<Rightarrow> 'm arc_ball \<Rightarrow> 'm arc_ball" where
  "setMatrix m b = b\<lparr>ab_matrix := m\<rparr>"

definition ball_rotate :: "('f, 'm) panel_lib \<Rightarrow> 'm arc_ball \<Rightarrow> 'm" where
  "ball_rotate pl b = pl_turn pl (ab_q_drag b) (ab_matrix b)"

definition lengthSquared :: "vector3 \<Rightarrow> rat" where
  "lengthSquared v = (case v of (x, y, z) \<Rightarrow> x * x + y * y + z * z)"

definition sphere_from_mouse :: "('f, 'm) panel_lib \<Rightarrow> rat \<times> rat \<Rightarrow> vector3" where
  "sphere_from_mouse pl p =
     (let v3 = (fst p, snd p, 0)
      in if lengthSquared v3 > 1 then pl_normalize pl v3
         else (fst p, snd p, pl_sqrt pl (1 - lengthSquared v3)))"

definition crossProduct :: "vector3 \<Rightarrow> vector3 \<Rightarrow> vector3" where
  "crossProduct v w = (case (v, w) of ((a, b, c), (x, y, z)) \<Rightarrow> (b * z - c * y, c * x - a * z, a * y - b * x))"

definition dotProduct :: "vector3 \<Rightarrow> vector3 \<Rightarrow> rat" where
  "dotProduct v w = (case (v, w) of ((a, b, c), (x, y, z)) \<Rightarrow> a * x + b * y + c * z)"

definition ball_move :: "('f, 'm) panel_lib \<Rightarrow> rat \<times> rat \<Rightarrow> 'm arc_ball \<Rightarrow> 'm arc_ball \<times> ball_signal list" where
  "ball_move pl new_point b =
     (if \<not> ab_mouse_down b then (b, [])
      else (let v0 = sphere_from_mouse pl new_point;
                v1 = sphere_from_mouse pl (ab_start_pos b);
                q = (dotProduct v0 v1, crossProduct v0 v1)
            in (b\<lparr>ab_q_drag := q\<rparr>, [Angle_changed q])))"

definition ball_pos :: "int \<Rightarrow> int \<Rightarrow> int \<times> int \<Rightarrow> rat \<times> rat" where
  "ball_pos wd ht p = (2 * of_int (fst p) / of_int wd - 1, 2 * of_int (snd p) / of_int ht - 1)"

definition ball_mouseMove :: "('f, 'm) panel_lib \<Rightarrow> int \<Rightarrow> int \<Rightarrow> int \<times> int \<Rightarrow> 'm arc_ball \<Rightarrow>
    'm arc_ball \<times> ball_signal list" where
  "ball_mouseMove pl wd ht p b = (if ab_mouse_down b then ball_move pl (ball_pos wd ht p) b else (b, []))"

definition ball_mousePress :: "int \<Rightarrow> int \<Rightarrow> bool \<Rightarrow> int \<times> int \<Rightarrow> 'm arc_ball \<Rightarrow>
    'm arc_ball \<times> ball_signal list" where
  "ball_mousePress wd ht left p b =
     (if left then (b\<lparr>ab_mouse_down := True, ab_start_pos := ball_pos wd ht p\<rparr>, [Mouse_down]) else (b, []))"

definition ball_mouseRelease :: "'m arc_ball \<Rightarrow> 'm arc_ball \<times> ball_signal list" where
  "ball_mouseRelease b = (if ab_mouse_down b then (b\<lparr>ab_mouse_down := False\<rparr>, [Mouse_up]) else (b, []))"

section \<open>The panel of a static frame\<close>

text \<open>The ranges of the entries cut the values that are shown.\<close>

definition in_range :: "int \<Rightarrow> int \<Rightarrow> int \<Rightarrow> int" where
  "in_range lo hi v = max lo (min hi v)"

definition cut_fraction :: "rat \<Rightarrow> int" where
  "cut_fraction r = (if r < 0 then - \<lfloor>- r\<rfloor> else \<lfloor>r\<rfloor>)"

record static_panel =
  sp_dewellSwitch :: bool
  sp_repeatSwitch :: bool
  sp_dewellDisabled :: bool
  sp_repeatDisabled :: bool
  sp_points :: int
  sp_dewell :: int
  sp_repeat :: int
  sp_size :: int

definition static_set :: "('f, 'm) panel_lib \<Rightarrow> ('f, 'm) static_frame \<Rightarrow> static_panel" where
  "static_set pl sf =
     \<lparr>sp_dewellSwitch = sf_useDewell sf, sp_repeatSwitch = (\<not> sf_useDewell sf),
      sp_dewellDisabled = (\<not> sf_useDewell sf), sp_repeatDisabled = sf_useDewell sf,
      sp_points = int (length (sf_data sf)),
      sp_dewell = in_range 40 600000 (sint (sf_dewell sf)),
      sp_repeat = in_range 1 1000 (sint (sf_repeats sf)),
      sp_size = in_range (- 200) 100 (cut_fraction (100 * pl_log10 pl (sf_scale sf)))\<rparr>"

definition scaleChanged :: "('f, 'm) panel_lib \<Rightarrow> int \<Rightarrow> ('f, 'm) static_frame \<Rightarrow> ('f, 'm) static_frame" where
  "scaleChanged pl v sf = sf\<lparr>sf_scale := pl_pow10 pl (of_int v / 100)\<rparr>"

text \<open>The ball and the frame; \<open>panel_receive\<close> has the three slots that are connected to the ball.\<close>

type_synonym ('f, 'm) turning = "'m arc_ball \<times> ('f, 'm) static_frame"

definition arcballDown :: "('f, 'm) turning \<Rightarrow> ('f, 'm) turning" where
  "arcballDown bf = (setMatrix (sf_geometry (snd bf)) (fst bf), snd bf)"

definition angleChangedData :: "('f, 'm) panel_lib \<Rightarrow> ('f, 'm) turning \<Rightarrow> ('f, 'm) turning" where
  "angleChangedData pl bf = (fst bf, (snd bf)\<lparr>sf_geometry := ball_rotate pl (fst bf)\<rparr>)"

definition arcballUp :: "('f, 'm) panel_lib \<Rightarrow> ('f, 'm) turning \<Rightarrow> ('f, 'm) turning" where
  "arcballUp pl bf = (fst bf, (snd bf)\<lparr>sf_geometry := ball_rotate pl (fst bf)\<rparr>)"

fun panel_receive :: "('f, 'm) panel_lib \<Rightarrow> ball_signal list \<Rightarrow> ('f, 'm) turning \<Rightarrow> ('f, 'm) turning" where
  "panel_receive pl [] bf = bf"
| "panel_receive pl (Mouse_down # sgs) bf = panel_receive pl sgs (arcballDown bf)"
| "panel_receive pl (Angle_changed _ # sgs) bf = panel_receive pl sgs (angleChangedData pl bf)"
| "panel_receive pl (Mouse_up # sgs) bf = panel_receive pl sgs (arcballUp pl bf)"

datatype ball_event = Ball_pressed bool "int \<times> int" | Ball_moved "int \<times> int" | Ball_released

definition ball_do :: "('f, 'm) panel_lib \<Rightarrow> int \<Rightarrow> int \<Rightarrow> ball_event \<Rightarrow> 'm arc_ball \<Rightarrow>
    'm arc_ball \<times> ball_signal list" where
  "ball_do pl wd ht ev b = (case ev of
     Ball_pressed left p \<Rightarrow> ball_mousePress wd ht left p b
   | Ball_moved p \<Rightarrow> ball_mouseMove pl wd ht p b
   | Ball_released \<Rightarrow> ball_mouseRelease b)"

fun turning_do :: "('f, 'm) panel_lib \<Rightarrow> int \<Rightarrow> int \<Rightarrow> ball_event list \<Rightarrow> ('f, 'm) turning \<Rightarrow> ('f, 'm) turning" where
  "turning_do pl wd ht [] bf = bf"
| "turning_do pl wd ht (ev # evs) bf =
     (let (b, sgs) = ball_do pl wd ht ev (fst bf)
      in turning_do pl wd ht evs (panel_receive pl sgs (b, snd bf)))"

text \<open>The icon of a static frame: a black square and the picture.\<close>

definition static_icon :: "('c, 'f, 'm) qt \<Rightarrow> (rat \<Rightarrow> rat \<Rightarrow> int \<times> int) \<Rightarrow> ('f, 'm) static_frame \<Rightarrow> 'c stroke list" where
  "static_icon q scr sf = render q scr (static_image q sf)"

section \<open>The panels of the sequencer and the colour rotator\<close>

text \<open>The mode and the number of repeats, and how many children there are.\<close>

definition sequencer_panel :: "('c, 'f, 'm) fsource list \<Rightarrow> sequencer \<Rightarrow> int \<times> seq_mode \<times> int" where
  "sequencer_panel cs sq =
     (int (length cs), sq_newMode sq, in_range 0 1000 (sint (sq_repeats sq)))"

record 'c rotator_panel =
  rp_pulserHarmonic :: int
  rp_pulserPhaseIncr :: int
  rp_pulseColour :: 'c
  rp_rotatorHarmonic :: int
  rp_rotatorPhaseIncr :: int
  rp_hueMod :: bool
  rp_brightMod :: bool
  rp_satMod :: bool
  rp_overrideSwitch :: bool
  rp_overrideColour :: 'c

definition rotator_panel :: "('f, 'm) panel_lib \<Rightarrow> ('c, 'f) rotator \<Rightarrow> 'c rotator_panel" where
  "rotator_panel pl r =
     \<lparr>rp_pulserHarmonic = in_range 0 50000 (pl_thousand pl (pulse_harmonic r)),
      rp_pulserPhaseIncr = in_range (- 9900) 9900 (pl_thousand pl (pulse_phase_advance r)),
      rp_pulseColour = pulse_colour r,
      rp_rotatorHarmonic = in_range 0 20000 (pl_thousand pl (rotate_harmonic r)),
      rp_rotatorPhaseIncr = in_range (- 5000) 5000 (pl_thousand pl (rotate_phase_advance r)),
      rp_hueMod = rotate_h r, rp_brightMod = rotate_v r, rp_satMod = rotate_s r,
      rp_overrideSwitch = colour_override r, rp_overrideColour = override_colour r\<rparr>"

section \<open>Turning a frame\<close>

lemma sphere_from_mouse_unit:
  assumes "\<And>x. 0 \<le> x \<Longrightarrow> pl_sqrt pl x * pl_sqrt pl x = x" and "\<And>v. lengthSquared v > 1 \<Longrightarrow> lengthSquared (pl_normalize pl v) = 1"
  shows "lengthSquared (sphere_from_mouse pl p) = 1"
proof (cases "lengthSquared (fst p, snd p, 0) > 1")
  case True
  then show ?thesis using assms(2) by (simp add: sphere_from_mouse_def Let_def)
next
  case False
  let ?l = "lengthSquared (fst p, snd p, 0)"
  have "pl_sqrt pl (1 - ?l) * pl_sqrt pl (1 - ?l) = 1 - ?l" using False by (intro assms(1)) simp
  then show ?thesis using False by (simp add: sphere_from_mouse_def Let_def) (simp add: lengthSquared_def)
qed

lemma turning_do_append:
  "turning_do pl wd ht (evs @ evs') bf = turning_do pl wd ht evs' (turning_do pl wd ht evs bf)"
  by (induction evs arbitrary: bf) (simp_all add: case_prod_beta Let_def)

definition drag_turn :: "('f, 'm) panel_lib \<Rightarrow> int \<Rightarrow> int \<Rightarrow> int \<times> int \<Rightarrow> int \<times> int \<Rightarrow> quaternion" where
  "drag_turn pl wd ht p p' =
     (let v0 = sphere_from_mouse pl (ball_pos wd ht p'); v1 = sphere_from_mouse pl (ball_pos wd ht p)
      in (dotProduct v0 v1, crossProduct v0 v1))"

lemma drag_result:
  "turning_do pl wd ht [Ball_pressed True p, Ball_moved p', Ball_released] (b, sf) =
   (b\<lparr>ab_mouse_down := False, ab_start_pos := ball_pos wd ht p, ab_q_drag := drag_turn pl wd ht p p',
      ab_matrix := sf_geometry sf\<rparr>,
    sf\<lparr>sf_geometry := pl_turn pl (drag_turn pl wd ht p p') (sf_geometry sf)\<rparr>)"
  by (simp add: ball_do_def ball_mousePress_def ball_mouseMove_def ball_move_def ball_mouseRelease_def arcballDown_def
      angleChangedData_def arcballUp_def setMatrix_def ball_rotate_def drag_turn_def Let_def)

lemma click_result:
  "turning_do pl wd ht [Ball_pressed True p, Ball_released] (b, sf) =
   (b\<lparr>ab_mouse_down := False, ab_start_pos := ball_pos wd ht p, ab_matrix := sf_geometry sf\<rparr>,
    sf\<lparr>sf_geometry := pl_turn pl (ab_q_drag b) (sf_geometry sf)\<rparr>)"
  by (simp add: ball_do_def ball_mousePress_def ball_mouseRelease_def arcballDown_def arcballUp_def setMatrix_def
      ball_rotate_def)


end
