(* ===== verification/Editor_Runs.thy ===== *)
theory Editor_Runs
  imports Source_Editor Source_Panels Source_Round_Trip
begin

text \<open>
  The source editor, \<open>ParameterEditor\<close> of \<open>editparams.h\<close> and \<open>editparams.cpp\<close>: the copy of a source
  that is edited, its tree of items, the panel of the chosen source, and the preview with its buttons
  and its timer. What holds in every run: the tree of items mirrors the sources.

  The sources are objects in a store, as in \<open>Source_Editor\<close>, because the items, the panel and the
  playback share them. The layout, the icons and the stored geometry are not modelled, nor what Qt
  itself does to the items when one is moved by a drag inside the widget.
\<close>

section \<open>Objects and trees\<close>

text \<open>
  The source that starts at an object, to be played. Playing changes nothing of a source but the
  settings of its sequencers, which \<open>write_source\<close> writes back.
\<close>

fun source_at :: "nat \<Rightarrow> ('c, 'f, 'm) store \<Rightarrow> nat \<Rightarrow> ('c, 'f, 'm) fsource res"
  and sources_at :: "nat \<Rightarrow> ('c, 'f, 'm) store \<Rightarrow> nat list \<Rightarrow> ('c, 'f, 'm) fsource list res" where
  "source_at 0 st a = Inl Out_of_fuel"
| "source_at (Suc fuel) st a = rbind (sources_at fuel st (so_children (st ! a))) (\<lambda>cs.
     Inr (Source (so_node (st ! a)) (so_description (st ! a)) cs))"
| "sources_at fuel st [] = Inr []"
| "sources_at fuel st (a # as) = rbind (source_at fuel st a) (\<lambda>s.
     rbind (sources_at fuel st as) (\<lambda>ss. Inr (s # ss)))"

definition write_node :: "('c, 'f, 'm) node \<Rightarrow> nat \<Rightarrow> ('c, 'f, 'm) store \<Rightarrow> ('c, 'f, 'm) store" where
  "write_node n a st = (case (n, so_node (st ! a)) of
     (Sequencer sq, Sequencer _) \<Rightarrow> st[a := (st ! a)\<lparr>so_node := Sequencer sq\<rparr>]
   | _ \<Rightarrow> st)"

fun write_source :: "('c, 'f, 'm) fsource \<Rightarrow> nat \<Rightarrow> ('c, 'f, 'm) store \<Rightarrow> ('c, 'f, 'm) store"
  and write_sources :: "('c, 'f, 'm) fsource list \<Rightarrow> nat list \<Rightarrow> ('c, 'f, 'm) store \<Rightarrow> ('c, 'f, 'm) store" where
  "write_source (Source n d cs) a st = write_sources cs (so_children (st ! a)) (write_node n a st)"
| "write_sources (c # cs) (a # as) st = write_sources cs as (write_source c a st)"
| "write_sources [] as st = st"
| "write_sources (c # cs) [] st = st"

text \<open>The object at an address, as a source to play.\<close>

definition played :: "('c, 'f, 'm) store \<Rightarrow> nat \<Rightarrow> ('c, 'f, 'm) fsource res" where
  "played st a = source_at (Suc (length st)) st a"

text \<open>An item at the end of a path of positions, and its replacement.\<close>

fun item_at :: "nat list \<Rightarrow> item \<Rightarrow> item option" where
  "item_at [] it = Some it"
| "item_at (k # ks) it = (if k < length (it_below it) then item_at ks (it_below it ! k) else None)"

fun item_put :: "nat list \<Rightarrow> item \<Rightarrow> item \<Rightarrow> item" where
  "item_put [] new it = new"
| "item_put (k # ks) new it =
     Item (it_text it) (it_data it) ((it_below it)[k := item_put ks new (it_below it ! k)])"

section \<open>The editor\<close>

text \<open>
  A panel belongs to a source; the one of a static frame has a ball. \<open>pe_playback\<close> is the class
  \<open>Playback\<close>, made for a source.
\<close>

record ('c, 'f, 'm) parameter_editor =
  pe_store :: "('c, 'f, 'm) store"
  pe_root :: "item option"
  pe_fs :: "nat option"
  pe_panel :: "(nat \<times> 'm arc_ball) option"
  pe_playback :: "(nat \<times> 'f playback) option"
  pe_timer :: bool
  pe_buttons :: bool
  pe_display :: "('c, 'm) frame option"
  pe_title :: string

definition ParameterEditor :: "('c, 'f, 'm) parameter_editor" where
  "ParameterEditor = \<lparr>pe_store = [], pe_root = None, pe_fs = None, pe_panel = None, pe_playback = None,
     pe_timer = False, pe_buttons = True, pe_display = None, pe_title = ''Editor''\<rparr>"

type_synonym ('c, 'f, 'm) edited = "('c, 'f, 'm) parameter_editor \<times> (nat \<Rightarrow> nat)"

text \<open>\<open>nextFrame\<close> and \<open>reset\<close> of the playback.\<close>

definition pe_nextFrame :: "('c, 'f, 'm) qt \<Rightarrow> nat \<Rightarrow> ('c, 'f, 'm) edited \<Rightarrow>
    (('c, 'm) frame option \<times> ('c, 'f, 'm) edited) res" where
  "pe_nextFrame q now s = (case s of (pe, rnd) \<Rightarrow> (case pe_playback pe of
     None \<Rightarrow> Inr (None, s)
   | Some (a, pb) \<Rightarrow> rbind (played (pe_store pe) a) (\<lambda>src.
       rbind (nextFrame q now src pb rnd) (\<lambda>(fr, src', pb', rnd').
         Inr (fr, pe\<lparr>pe_store := write_source src' a (pe_store pe), pe_playback := Some (a, pb')\<rparr>, rnd')))))"

definition pe_reset :: "('c, 'f, 'm) qt \<Rightarrow> nat \<Rightarrow> ('c, 'f, 'm) edited \<Rightarrow> ('c, 'f, 'm) edited res" where
  "pe_reset q now s = (case s of (pe, rnd) \<Rightarrow> (case pe_playback pe of
     None \<Rightarrow> Inr s
   | Some (a, pb) \<Rightarrow> rbind (played (pe_store pe) a) (\<lambda>src.
       rbind (reset_source q now src pb rnd) (\<lambda>(pb', rnd').
         Inr (pe\<lparr>pe_playback := Some (a, pb')\<rparr>, rnd')))))"

definition set_display :: "('c, 'm) frame option \<Rightarrow> ('c, 'f, 'm) edited \<Rightarrow> ('c, 'f, 'm) edited" where
  "set_display fr s = ((fst s)\<lparr>pe_display := fr\<rparr>, snd s)"

definition pe_updateDisplay :: "('c, 'f, 'm) qt \<Rightarrow> nat \<Rightarrow> ('c, 'f, 'm) edited \<Rightarrow> ('c, 'f, 'm) edited res" where
  "pe_updateDisplay q now s =
     (if pe_playback (fst s) = None then Inr s
      else rbind (pe_nextFrame q now s) (\<lambda>(fr, s1).
        if fr \<noteq> None then Inr (set_display fr s1)
        else rbind (pe_reset q now s1) (\<lambda>s2.
             rbind (pe_nextFrame q now s2) (\<lambda>(fr', s3). Inr (set_display fr' s3)))))"

definition playButtonData :: "('c, 'f, 'm) edited \<Rightarrow> ('c, 'f, 'm) edited" where
  "playButtonData s = ((fst s)\<lparr>pe_timer := True\<rparr>, snd s)"

definition stopButtonData :: "('c, 'f, 'm) qt \<Rightarrow> nat \<Rightarrow> ('c, 'f, 'm) edited \<Rightarrow> ('c, 'f, 'm) edited res" where
  "stopButtonData q now s =
     rbind (if \<not> pe_timer (fst s) \<and> pe_playback (fst s) \<noteq> None
            then rbind (pe_reset q now s) (pe_updateDisplay q now) else Inr s)
       (\<lambda>s1. Inr ((fst s1)\<lparr>pe_timer := False\<rparr>, snd s1))"

text \<open>\<open>updateControls\<close>: the panel and the playback of the chosen source; nothing plays without children.\<close>

definition updateControls :: "('c, 'f, 'm) qt \<Rightarrow> nat \<Rightarrow> nat option \<Rightarrow> ('c, 'f, 'm) edited \<Rightarrow>
    ('c, 'f, 'm) edited res" where
  "updateControls q now p s = (case s of (pe, rnd) \<Rightarrow>
     rbind (case p of
         Some a \<Rightarrow> rbind (played (pe_store pe) a) (\<lambda>src.
           let pe1 = pe\<lparr>pe_panel := Some (a, ArcBall q), pe_playback := Some (a, createPlayback q src)\<rparr>
           in if so_children (pe_store pe ! a) \<noteq> [] then Inr (pe1\<lparr>pe_buttons := True\<rparr>, rnd)
              else stopButtonData q now (pe1\<lparr>pe_buttons := False\<rparr>, rnd))
       | None \<Rightarrow> rbind (stopButtonData q now (pe\<lparr>pe_panel := None, pe_buttons := False\<rparr>, rnd)) (\<lambda>(pe1, rnd1).
           Inr (pe1\<lparr>pe_playback := None\<rparr>, rnd1)))
       (pe_updateDisplay q now))"

definition load_editor :: "('c, 'f, 'm) qt \<Rightarrow> ('c, 'f, 'm) fsource registry \<Rightarrow> nat \<Rightarrow>
    ('c, 'f, 'm) fsource option \<Rightarrow> ('c, 'f, 'm) edited \<Rightarrow> ('c, 'f, 'm) edited res" where
  "load_editor q reg now f s = (case f of None \<Rightarrow> Inr s
     | Some src \<Rightarrow> rbind (clone reg src) (\<lambda>c. case place c (pe_store (fst s)) of (a, st) \<Rightarrow>
         rbind (populateTree (Suc (length st)) st a []) (\<lambda>it.
           updateControls q now (Some a)
             ((fst s)\<lparr>pe_store := st, pe_root := Some it, pe_fs := Some a, pe_title := getName c\<rparr>, snd s))))"

definition itemClickedData :: "('c, 'f, 'm) qt \<Rightarrow> nat \<Rightarrow> item \<Rightarrow> ('c, 'f, 'm) edited \<Rightarrow>
    ('c, 'f, 'm) edited res" where
  "itemClickedData q now it s =
     updateControls q now (Some (it_data it)) ((fst s)\<lparr>pe_fs := Some (it_data it)\<rparr>, snd s)"

definition selectionChangedItems :: "('c, 'f, 'm) qt \<Rightarrow> nat \<Rightarrow> item list \<Rightarrow> ('c, 'f, 'm) edited \<Rightarrow>
    ('c, 'f, 'm) edited res" where
  "selectionChangedItems q now selected s = (case selected of [] \<Rightarrow> Inr s | it # _ \<Rightarrow> itemClickedData q now it s)"

text \<open>What a drag of an item takes along: the source of the item, written as a text.\<close>

definition tree_mimeData :: "('c, 'f, 'm) qt \<Rightarrow> ('f, 'm) text_lib \<Rightarrow> item \<Rightarrow> ('c, 'f, 'm) edited \<Rightarrow>
    xml_token list res" where
  "tree_mimeData q x it s = rbind (played (pe_store (fst s)) (it_data it)) (\<lambda>src. Inr (toString q x src))"

text \<open>The source a drop gets: a copy of a dragged source, or what a text from outside describes.\<close>

datatype ('c, 'f, 'm) dragged =
    Dragged_item item
  | Dragged_class string
  | Dragged_source "('c, 'f, 'm) fsource"
  | Dragged_text "xml_token list"
  | Dragged_other

definition editor_getSource :: "('c, 'f, 'm) qt \<Rightarrow> ('f, 'm) text_lib \<Rightarrow> ('c, 'f, 'm) fsource registry \<Rightarrow>
    ('c, 'f, 'm) dragged \<Rightarrow> ('c, 'f, 'm) store \<Rightarrow> ('c, 'f, 'm) fsource option res" where
  "editor_getSource q x reg d st = (case d of
     Dragged_item it \<Rightarrow> rbind (played st (it_data it)) (\<lambda>s. rbind (clone reg s) (\<lambda>c. Inr (Some c)))
   | Dragged_class name \<Rightarrow> (case node_mimeData name reg of None \<Rightarrow> Inl Undefined_behaviour
       | Some s \<Rightarrow> rbind (clone reg s) (\<lambda>c. Inr (Some c)))
   | Dragged_source s \<Rightarrow> rbind (clone reg s) (\<lambda>c. Inr (Some c))
   | Dragged_text toks \<Rightarrow> fromString q x reg toks
   | Dragged_other \<Rightarrow> Inr None)"

text \<open>A drop on the item at the end of a path; beside all items it is refused.\<close>

definition item_dropped :: "('c, 'f, 'm) qt \<Rightarrow> ('f, 'm) text_lib \<Rightarrow> ('c, 'f, 'm) fsource registry \<Rightarrow>
    nat list option \<Rightarrow> int \<Rightarrow> ('c, 'f, 'm) dragged \<Rightarrow> ('c, 'f, 'm) edited \<Rightarrow> ('c, 'f, 'm) edited res" where
  "item_dropped q x reg path index d s =
     (case (path, pe_root (fst s)) of
        (Some ks, Some tr) \<Rightarrow> (case item_at ks tr of
          None \<Rightarrow> Inr s
        | Some par \<Rightarrow> rbind (dropMimeData index (editor_getSource q x reg d (pe_store (fst s))) par (pe_store (fst s)))
            (\<lambda>(_, par', st'). Inr ((fst s)\<lparr>pe_store := st', pe_root := Some (item_put ks par' tr)\<rparr>, snd s)))
      | _ \<Rightarrow> Inr s)"

section \<open>The panel\<close>

text \<open>What the user can change in a panel; the second result tells whether \<open>graphicsChanged\<close> is emitted.\<close>

datatype 'c panel_edit =
    Dwell_entry int
  | Repeat_entry int
  | Dwell_switch int
  | Size_slider int
  | Mode_button int
  | Repeats_entry int
  | Rotator_control "'c rotator_edit"

definition edit_node :: "('c, 'f, 'm) qt \<Rightarrow> ('f, 'm) panel_lib \<Rightarrow> 'c panel_edit \<Rightarrow> ('c, 'f, 'm) node \<Rightarrow>
    ('c, 'f, 'm) node \<times> bool" where
  "edit_node q pl ed n = (case n of
     Static sf \<Rightarrow> (case ed of
       Dwell_entry v \<Rightarrow> (Static (dewellChangedData v sf), False)
     | Repeat_entry v \<Rightarrow> (Static (repeatChangedData v sf), False)
     | Dwell_switch i \<Rightarrow> (Static (fst (buttonChangedData i sf)), False)
     | Size_slider v \<Rightarrow> (Static (scaleChanged pl v sf), True)
     | _ \<Rightarrow> (n, False))
   | Sequencer sq \<Rightarrow> (case ed of
       Mode_button i \<Rightarrow> (Sequencer (modeChangedData i sq), False)
     | Repeats_entry v \<Rightarrow> (Sequencer (repeatsChangedData v sq), False)
     | _ \<Rightarrow> (n, False))
   | Rotator r \<Rightarrow> (case ed of
       Rotator_control e \<Rightarrow> (Rotator (rotator_edit q e r), False)
     | _ \<Rightarrow> (n, False)))"

definition put_node :: "nat \<Rightarrow> ('c, 'f, 'm) node \<Rightarrow> ('c, 'f, 'm) edited \<Rightarrow> ('c, 'f, 'm) edited" where
  "put_node a n s = ((fst s)\<lparr>pe_store := (pe_store (fst s))[a := (pe_store (fst s) ! a)\<lparr>so_node := n\<rparr>]\<rparr>, snd s)"

definition panel_edited :: "('c, 'f, 'm) qt \<Rightarrow> ('f, 'm) panel_lib \<Rightarrow> nat \<Rightarrow> 'c panel_edit \<Rightarrow>
    ('c, 'f, 'm) edited \<Rightarrow> ('c, 'f, 'm) edited res" where
  "panel_edited q pl now ed s = (case pe_panel (fst s) of None \<Rightarrow> Inr s
     | Some (a, _) \<Rightarrow> (case edit_node q pl ed (so_node (pe_store (fst s) ! a)) of (n, told) \<Rightarrow>
         if told then pe_updateDisplay q now (put_node a n s) else Inr (put_node a n s)))"

text \<open>The ball of the panel of a static frame; only a changed angle is shown at once.\<close>

definition is_turn :: "ball_signal \<Rightarrow> bool" where
  "is_turn sg = (case sg of Angle_changed _ \<Rightarrow> True | _ \<Rightarrow> False)"

definition panel_ball :: "('c, 'f, 'm) qt \<Rightarrow> ('f, 'm) panel_lib \<Rightarrow> nat \<Rightarrow> int \<Rightarrow> int \<Rightarrow> ball_event \<Rightarrow>
    ('c, 'f, 'm) edited \<Rightarrow> ('c, 'f, 'm) edited res" where
  "panel_ball q pl now wd ht ev s = (case pe_panel (fst s) of None \<Rightarrow> Inr s
     | Some (a, ball) \<Rightarrow> (case so_node (pe_store (fst s) ! a) of
         Static sf \<Rightarrow> (case ball_do pl wd ht ev ball of (ball1, sgs) \<Rightarrow>
           (case panel_receive pl sgs (ball1, sf) of (ball2, sf') \<Rightarrow>
             let s1 = put_node a (Static sf') ((fst s)\<lparr>pe_panel := Some (a, ball2)\<rparr>, snd s)
             in if list_ex is_turn sgs then pe_updateDisplay q now s1 else Inr s1))
       | _ \<Rightarrow> Inr s))"

section \<open>Runs\<close>

datatype ('c, 'f, 'm) editor_event =
    Source_loaded "('c, 'f, 'm) fsource option"
  | Item_clicked "nat list"
  | Items_selected "nat list list"
  | Item_dropped "nat list option" int "('c, 'f, 'm) dragged"
  | Display_timer
  | Run_pressed
  | Stop_pressed
  | Panel_edited "'c panel_edit"
  | Panel_ball int int ball_event

record ('c, 'f, 'm) editor_libs =
  el_qt :: "('c, 'f, 'm) qt"
  el_panel :: "('f, 'm) panel_lib"
  el_text :: "('f, 'm) text_lib"
  el_classes :: "('c, 'f, 'm) fsource registry"

definition items_at :: "nat list list \<Rightarrow> ('c, 'f, 'm) edited \<Rightarrow> item list" where
  "items_at paths s = (case pe_root (fst s) of None \<Rightarrow> []
     | Some tr \<Rightarrow> List.map_filter (\<lambda>ks. item_at ks tr) paths)"

fun editor_do :: "('c, 'f, 'm) editor_libs \<Rightarrow> nat \<Rightarrow> ('c, 'f, 'm) editor_event \<Rightarrow> ('c, 'f, 'm) edited \<Rightarrow>
    ('c, 'f, 'm) edited res" where
  "editor_do L now (Source_loaded f) s = load_editor (el_qt L) (el_classes L) now f s"
| "editor_do L now (Item_clicked ks) s = (case items_at [ks] s of [] \<Rightarrow> Inr s
     | it # _ \<Rightarrow> itemClickedData (el_qt L) now it s)"
| "editor_do L now (Items_selected paths) s = selectionChangedItems (el_qt L) now (items_at paths s) s"
| "editor_do L now (Item_dropped path index d) s = item_dropped (el_qt L) (el_text L) (el_classes L) path index d s"
| "editor_do L now Display_timer s = (if pe_timer (fst s) then pe_updateDisplay (el_qt L) now s else Inr s)"
| "editor_do L now Run_pressed s = Inr (if pe_buttons (fst s) then playButtonData s else s)"
| "editor_do L now Stop_pressed s = (if pe_buttons (fst s) then stopButtonData (el_qt L) now s else Inr s)"
| "editor_do L now (Panel_edited ed) s = panel_edited (el_qt L) (el_panel L) now ed s"
| "editor_do L now (Panel_ball wd ht ev) s = panel_ball (el_qt L) (el_panel L) now wd ht ev s"

text \<open>
  A drop that only inserts: at a place between the items, on a source that is not full. The other
  drops are the subject of \<open>drop_over_a_leaf_stops_the_program\<close>.
\<close>

definition inserts :: "('c, 'f, 'm) editor_event \<Rightarrow> ('c, 'f, 'm) edited \<Rightarrow> bool" where
  "inserts ev s = (case ev of
     Item_dropped (Some ks) index d \<Rightarrow> (case pe_root (fst s) of None \<Rightarrow> True
       | Some tr \<Rightarrow> (case item_at ks tr of None \<Rightarrow> True
         | Some par \<Rightarrow> 0 \<le> index \<and> index \<le> int (length (it_below par)) \<and>
             \<not> needs_sequencer (pe_store (fst s) ! it_data par)))
   | _ \<Rightarrow> True)"

text \<open>A run whose drops only insert; each event has its time.\<close>

inductive editor_run :: "('c, 'f, 'm) editor_libs \<Rightarrow> (nat \<times> ('c, 'f, 'm) editor_event) list \<Rightarrow>
    ('c, 'f, 'm) edited \<Rightarrow> ('c, 'f, 'm) edited \<Rightarrow> bool" for L where
  stay: "editor_run L [] s s"
| event: "inserts ev s \<Longrightarrow> editor_do L now ev s = Inr s1 \<Longrightarrow> editor_run L evs s1 s2 \<Longrightarrow>
    editor_run L ((now, ev) # evs) s s2"

inductive_cases editor_run_NilE [elim!]: "editor_run L [] s s'"
inductive_cases editor_run_ConsE [elim!]: "editor_run L ((now, ev) # evs) s s'"

section \<open>What the operations keep\<close>

text \<open>Between two states of the store only settings change, not the links or the classes.\<close>

definition same_objects :: "('c, 'f, 'm) store \<Rightarrow> ('c, 'f, 'm) store \<Rightarrow> bool" where
  "same_objects st st' \<longleftrightarrow> length st' = length st \<and> (\<forall>b < length st. same_object (st ! b) (st' ! b))"

lemma same_objects_refl [simp]: "same_objects st st"
  by (simp add: same_objects_def)

lemma same_objects_trans: "same_objects a b \<Longrightarrow> same_objects b c \<Longrightarrow> same_objects a c"
  unfolding same_objects_def by (metis same_object_trans)

lemma same_objects_mirrors: "same_objects st st' \<Longrightarrow> mirrors st i \<Longrightarrow> mirrors st' i"
  by (rule mirrors_local) (auto simp: same_objects_def dest: mirrors_below)

definition same_class :: "('c, 'f, 'm) node \<Rightarrow> ('c, 'f, 'm) node \<Rightarrow> bool" where
  "same_class n n' = (case (n, n') of (Static _, Static _) \<Rightarrow> True | (Sequencer _, Sequencer _) \<Rightarrow> True
     | (Rotator _, Rotator _) \<Rightarrow> True | _ \<Rightarrow> False)"

lemma same_objects_put:
  assumes "same_class (so_node (st ! a)) n"
  shows "same_objects st (st[a := (st ! a)\<lparr>so_node := n\<rparr>])"
proof -
  have "same_object (st ! a) ((st ! a)\<lparr>so_node := n\<rparr>)"
    using assms by (simp add: same_object_def same_class_def so_getName_def getName_def split: node.splits)
  then have "same_object (st ! b) (st[a := (st ! a)\<lparr>so_node := n\<rparr>] ! b)" if "b < length st" for b
    using that by (cases "a = b") simp_all
  then show ?thesis by (simp add: same_objects_def)
qed

lemma write_node_same: "same_objects st (write_node n a st)"
  using same_objects_put [of st a] by (auto simp: write_node_def same_class_def split: node.splits)

lemma write_source_same:
  "same_objects st (write_source s a st)" "same_objects st (write_sources ss as st)"
proof (induction s a st and ss as st rule: write_source_write_sources.induct)
  case (1 n d cs a st)
  show ?case unfolding write_source.simps by (rule same_objects_trans [OF write_node_same 1])
next
  case (2 c cs a as st)
  show ?case unfolding write_sources.simps by (rule same_objects_trans [OF 2(1) 2(2)])
qed simp_all

text \<open>What playing, the buttons and the panel keep.\<close>

definition keeps :: "('c, 'f, 'm) edited \<Rightarrow> ('c, 'f, 'm) edited \<Rightarrow> bool" where
  "keeps s s' \<longleftrightarrow> same_objects (pe_store (fst s)) (pe_store (fst s')) \<and> pe_root (fst s') = pe_root (fst s) \<and>
     pe_fs (fst s') = pe_fs (fst s) \<and> map_option fst (pe_panel (fst s')) = map_option fst (pe_panel (fst s)) \<and>
     map_option fst (pe_playback (fst s')) = map_option fst (pe_playback (fst s))"

lemma keeps_refl [simp]: "keeps s s"
  by (simp add: keeps_def)

lemma keeps_trans [trans]: "keeps s s' \<Longrightarrow> keeps s' s'' \<Longrightarrow> keeps s s''"
  by (auto simp: keeps_def intro: same_objects_trans)

lemma keeps_fields [simp]:
  "keeps s (set_display fr s') = keeps s s'"
  "keeps s (pe\<lparr>pe_timer := b\<rparr>, rnd) = keeps s (pe, rnd)"
  "keeps s (pe\<lparr>pe_buttons := b\<rparr>, rnd) = keeps s (pe, rnd)"
  by (simp_all add: keeps_def set_display_def)

lemma pe_nextFrame_keeps: "pe_nextFrame q now s = Inr (fr, s') \<Longrightarrow> keeps s s'"
  by (auto simp: pe_nextFrame_def keeps_def rbind_Inr_iff write_source_same split: prod.splits option.splits)

lemma pe_reset_keeps: "pe_reset q now s = Inr s' \<Longrightarrow> keeps s s'"
  by (auto simp: pe_reset_def keeps_def rbind_Inr_iff split: prod.splits option.splits)

lemma pe_updateDisplay_keeps:
  assumes "pe_updateDisplay q now s = Inr s'"
  shows "keeps s s'"
proof -
  consider "s' = s" | fr s1 where "pe_nextFrame q now s = Inr (fr, s1)" "s' = set_display fr s1"
    | fr s1 s2 fr' s3 where "pe_nextFrame q now s = Inr (fr, s1)" "pe_reset q now s1 = Inr s2"
      "pe_nextFrame q now s2 = Inr (fr', s3)" "s' = set_display fr' s3"
    using assms unfolding pe_updateDisplay_def by (auto simp: rbind_Inr_iff split: if_splits)
  then show ?thesis
  proof cases
    case 2
    then show ?thesis using pe_nextFrame_keeps by simp
  next
    case 3
    then have "keeps s s1" "keeps s1 s2" "keeps s2 s3" by (simp_all add: pe_nextFrame_keeps pe_reset_keeps)
    then show ?thesis using 3(4) keeps_trans by (metis keeps_fields(1))
  qed simp
qed

lemma stopButtonData_keeps:
  assumes "stopButtonData q now s = Inr s'"
  shows "keeps s s'"
proof -
  obtain s1 where s1: "(if \<not> pe_timer (fst s) \<and> pe_playback (fst s) \<noteq> None
      then rbind (pe_reset q now s) (pe_updateDisplay q now) else Inr s) = Inr s1"
    "s' = ((fst s1)\<lparr>pe_timer := False\<rparr>, snd s1)"
    using assms unfolding stopButtonData_def rbind_Inr_iff by blast
  then have "s1 = s \<or> (\<exists>s0. pe_reset q now s = Inr s0 \<and> pe_updateDisplay q now s0 = Inr s1)"
    by (simp add: rbind_Inr_iff split: if_splits)
  then have "keeps s s1" using pe_reset_keeps pe_updateDisplay_keeps keeps_trans keeps_refl by blast
  then show ?thesis using s1(2) by simp
qed

lemma edit_node_class: "same_class n (fst (edit_node q pl ed n))"
  by (cases n; cases ed) (simp_all add: same_class_def edit_node_def)

lemma put_node_keeps: "same_class (so_node (pe_store (fst s) ! a)) n \<Longrightarrow> keeps s (put_node a n s)"
  by (simp add: keeps_def put_node_def same_objects_put)

lemma panel_edited_keeps:
  assumes "panel_edited q pl now ed s = Inr s'"
  shows "keeps s s'"
proof (cases "pe_panel (fst s)")
  case None
  then show ?thesis using assms by (simp add: panel_edited_def)
next
  case (Some p)
  obtain a ball where p: "p = (a, ball)" by (cases p)
  obtain n told where e: "edit_node q pl ed (so_node (pe_store (fst s) ! a)) = (n, told)" by fastforce
  have k: "keeps s (put_node a n s)" using edit_node_class [of "so_node (pe_store (fst s) ! a)" q pl ed] e
    by (intro put_node_keeps) simp
  have "keeps (put_node a n s) s'" using assms Some p e
    by (auto simp: panel_edited_def split: if_splits dest: pe_updateDisplay_keeps)
  with k show ?thesis by (rule keeps_trans)
qed

lemma panel_ball_keeps:
  assumes "panel_ball q pl now wd ht ev s = Inr s'"
  shows "keeps s s'"
proof (cases "\<exists>a ball sf. pe_panel (fst s) = Some (a, ball) \<and> so_node (pe_store (fst s) ! a) = Static sf")
  case False
  then have "s' = s" using assms by (auto simp: panel_ball_def split: option.splits node.splits prod.splits)
  then show ?thesis by simp
next
  case True
  then obtain a ball sf where p: "pe_panel (fst s) = Some (a, ball)" "so_node (pe_store (fst s) ! a) = Static sf" by blast
  obtain ball1 sgs where b: "ball_do pl wd ht ev ball = (ball1, sgs)" by fastforce
  obtain ball2 sf' where r: "panel_receive pl sgs (ball1, sf) = (ball2, sf')" by fastforce
  let ?s = "put_node a (Static sf') ((fst s)\<lparr>pe_panel := Some (a, ball2)\<rparr>, snd s)"
  have "keeps s ?s" using same_objects_put [of "pe_store (fst s)" a "Static sf'"] p
    by (simp add: keeps_def put_node_def same_class_def)
  moreover have "keeps ?s s'" using assms p b r
    by (auto simp: panel_ball_def Let_def split: if_splits dest: pe_updateDisplay_keeps)
  ultimately show ?thesis by (rule keeps_trans)
qed

section \<open>The tree of items mirrors the sources\<close>

definition points_at :: "('c, 'f, 'm) edited \<Rightarrow> nat \<Rightarrow> bool" where
  "points_at s a \<longleftrightarrow> pe_fs (fst s) = Some a \<or> map_option fst (pe_panel (fst s)) = Some a \<or>
     map_option fst (pe_playback (fst s)) = Some a"

definition editor_ok :: "('c, 'f, 'm) edited \<Rightarrow> bool" where
  "editor_ok s \<longleftrightarrow>
     (\<forall>it. pe_root (fst s) = Some it \<longrightarrow> mirrors (pe_store (fst s)) it \<and> distinct (addresses it)) \<and>
     (\<forall>a. points_at s a \<longrightarrow> (\<exists>it. pe_root (fst s) = Some it \<and> a \<in> set (addresses it)))"

lemma keeps_ok: "keeps s s' \<Longrightarrow> editor_ok s \<Longrightarrow> editor_ok s'"
  unfolding editor_ok_def keeps_def points_at_def by (auto dest: same_objects_mirrors)

lemma updateControls_ok:
  assumes r: "updateControls q now (Some a) s = Inr s'" and "pe_root (fst s) = Some it"
    and "mirrors (pe_store (fst s)) it" and "distinct (addresses it)" and "a \<in> set (addresses it)"
    and "pe_fs (fst s) = Some a"
  shows "editor_ok s'"
proof -
  obtain pe rnd where s: "s = (pe, rnd)" by (cases s)
  obtain src where src: "played (pe_store pe) a = Inr src"
    using r by (auto simp: updateControls_def s rbind_Inr_iff)
  let ?s1 = "(pe\<lparr>pe_panel := Some (a, ArcBall q), pe_playback := Some (a, createPlayback q src)\<rparr>, rnd)"
  have ok: "editor_ok ?s1" using assms(2-6) by (simp add: editor_ok_def points_at_def s)
  have "\<exists>s2. keeps ?s1 s2 \<and> pe_updateDisplay q now s2 = Inr s'"
  proof (cases "so_children (pe_store pe ! a) = []")
    case True
    then obtain s2 where s2: "stopButtonData q now ((fst ?s1)\<lparr>pe_buttons := False\<rparr>, rnd) = Inr s2"
      "pe_updateDisplay q now s2 = Inr s'"
      using r src by (auto simp: updateControls_def s rbind_Inr_iff)
    have "keeps ?s1 ((fst ?s1)\<lparr>pe_buttons := False\<rparr>, rnd)" by (simp add: keeps_def)
    then show ?thesis using stopButtonData_keeps [OF s2(1)] s2(2) keeps_trans by blast
  next
    case False
    then have "pe_updateDisplay q now ((fst ?s1)\<lparr>pe_buttons := True\<rparr>, rnd) = Inr s'"
      using r src by (simp add: updateControls_def s)
    moreover have "keeps ?s1 ((fst ?s1)\<lparr>pe_buttons := True\<rparr>, rnd)" by (simp add: keeps_def)
    ultimately show ?thesis by blast
  qed
  then show ?thesis using ok keeps_ok pe_updateDisplay_keeps by blast
qed

lemma load_editor_ok:
  assumes r: "load_editor q reg now f s = Inr s'" and ok: "editor_ok s"
  shows "editor_ok s'"
proof (cases f)
  case None
  then show ?thesis using r ok by (simp add: load_editor_def)
next
  case (Some src)
  obtain c where c: "clone reg src = Inr c" using r Some by (auto simp: load_editor_def rbind_Inr_iff)
  obtain a st where p: "place c (pe_store (fst s)) = (a, st)" by fastforce
  obtain n new where n: "st = pe_store (fst s) @ new" "populateTree (Suc (length st)) st a [] = Inr n" "mirrors st n"
    "it_data n = a" "distinct (addresses n)" using place_populate [OF p] by blast
  let ?s = "((fst s)\<lparr>pe_store := st, pe_root := Some n, pe_fs := Some a, pe_title := getName c\<rparr>, snd s)"
  have "updateControls q now (Some a) ?s = Inr s'"
    using r Some c p n(2) by (simp add: load_editor_def del: populateTree.simps)
  then show ?thesis using n(3,4,5) by (intro updateControls_ok [of q now a ?s s' n]) auto
qed

lemma item_at_part:
  "item_at ks it = Some i \<Longrightarrow> set (addresses i) \<subseteq> set (addresses it) \<and>
   (mirrors st it \<longrightarrow> mirrors st i) \<and> (distinct (addresses it) \<longrightarrow> distinct (addresses i))"
proof (induction ks arbitrary: it)
  case (Cons k ks)
  obtain w a below where it: "it = Item w a below" by (cases it)
  have k: "k < length below" "item_at ks (below ! k) = Some i" using Cons.prems it by (simp_all split: if_splits)
  then have "below ! k \<in> set below" by simp
  then have "set (addresses (below ! k)) \<subseteq> set (addresses it)" "mirrors st it \<longrightarrow> mirrors st (below ! k)"
    "distinct (addresses it) \<longrightarrow> distinct (addresses (below ! k))"
    by (auto simp: it distinct_concat_iff)
  then show ?case using Cons.IH [OF k(2)] by blast
qed simp

lemma itemClickedData_ok:
  assumes "itemClickedData q now it s = Inr s'" and "pe_root (fst s) = Some tr" and "item_at ks tr = Some it"
    and "editor_ok s"
  shows "editor_ok s'"
proof -
  have "it_data it \<in> set (addresses tr)" using item_at_part [OF assms(3)] it_data_addresses by blast
  then show ?thesis using assms(2,4)
    by (intro updateControls_ok [OF assms(1) [unfolded itemClickedData_def], of tr]) (simp_all add: editor_ok_def)
qed

lemma items_at_part: "it \<in> set (items_at paths s) \<Longrightarrow> \<exists>tr ks. pe_root (fst s) = Some tr \<and> item_at ks tr = Some it"
  by (cases "pe_root (fst s)") (auto simp: items_at_def List.map_filter_def)

text \<open>An item that is replaced, together with the sources below it.\<close>

lemma item_put_ok:
  assumes new: "mirrors st' par'" "distinct (addresses par')" "it_data par' = it_data par"
      "set (addresses par) \<subseteq> set (addresses par')" "set (addresses par') \<subseteq> set (addresses par) \<union> {length st..}"
    and st': "length st \<le> length st'" "\<forall>b < length st. b \<notin> set (addresses par) \<longrightarrow> same_object (st ! b) (st' ! b)"
  shows "item_at ks it = Some par \<Longrightarrow> mirrors st it \<Longrightarrow> distinct (addresses it) \<Longrightarrow>
    mirrors st' (item_put ks par' it) \<and> distinct (addresses (item_put ks par' it)) \<and>
    it_data (item_put ks par' it) = it_data it \<and> set (addresses it) \<subseteq> set (addresses (item_put ks par' it)) \<and>
    set (addresses (item_put ks par' it)) \<subseteq> set (addresses it) \<union> {length st..}"
proof (induction ks arbitrary: it)
  case Nil
  then show ?case using new by simp
next
  case (Cons k ks)
  obtain w a below where it: "it = Item w a below" by (cases it)
  have k: "k < length below" "item_at ks (below ! k) = Some par" using Cons.prems(1) it by (simp_all split: if_splits)
  define l c r where "l = take k below" and "c = below ! k" and "r = drop (Suc k) below"
  have b: "below = l @ c # r" "length l = k"
    using k(1) id_take_nth_drop [OF k(1)] by (simp_all add: l_def c_def r_def)
  have at: "item_at ks c = Some par" using k(2) by (simp add: c_def)
  let ?x = "item_put ks par' c"
  have m: "mirrors st c" "distinct (addresses c)" using Cons.prems(2,3) it b by auto
  note x = Cons.IH [OF at m]
  have put: "item_put (k # ks) par' it = Item w a (l @ ?x # r)" using b by (simp add: it nth_append list_update_append)
  have par: "set (addresses par) \<subseteq> set (addresses c)" using item_at_part [OF at] by blast
  have low: "\<forall>i \<in> set (l @ r). \<forall>e \<in> set (addresses i). e < length st"
    using Cons.prems(2) it b mirrors_below [of st] by auto
  have a: "a < length st" "a \<notin> set (addresses par)" using Cons.prems(2,3) it b par by auto
  have same_a: "same_object (st ! a) (st' ! a)" using st'(2) a by blast
  have others: "mirrors st' i" if "i \<in> set (l @ r)" for i
  proof (rule mirrors_local)
    show "mirrors st i" using Cons.prems(2) it b that by auto
    have "set (addresses i) \<inter> set (addresses c) = {}" using Cons.prems(3) it b that by auto
    then show "\<forall>e \<in> set (addresses i). same_object (st ! e) (st' ! e)"
      using st'(2) par low that by blast
  qed (rule st'(1))
  have "map it_data (l @ ?x # r) = so_children (st ! a)" using Cons.prems(2) it b x by simp
  then have "mirrors st' (Item w a (l @ ?x # r))"
    using others x same_a a(1) st'(1) Cons.prems(2) it by (auto simp: same_object_def)
  moreover have "distinct (addresses (Item w a (l @ ?x # r)))"
  proof -
    have "\<forall>e \<in> set (addresses ?x). e \<in> set (addresses c) \<or> length st \<le> e" using x by fastforce
    then have "a \<notin> set (addresses ?x)" "\<forall>i \<in> set (l @ r). set (addresses i) \<inter> set (addresses ?x) = {}"
      using a(1) low Cons.prems(3) it b by fastforce+
    then show ?thesis using x Cons.prems(3) it b by auto
  qed
  moreover have "set (addresses it) \<subseteq> set (addresses (Item w a (l @ ?x # r)))"
    "set (addresses (Item w a (l @ ?x # r))) \<subseteq> set (addresses it) \<union> {length st..}"
    using x it b by auto
  ultimately show ?case unfolding put by (simp add: it)
qed

lemma item_dropped_ok:
  assumes r: "item_dropped q x reg path index d s = Inr s'" and ok: "editor_ok s"
    and ins: "inserts (Item_dropped path index d) s"
  shows "editor_ok s'"
proof -
  let ?st = "pe_store (fst s)"
  show ?thesis
  proof (cases "\<exists>ks tr par. path = Some ks \<and> pe_root (fst s) = Some tr \<and> item_at ks tr = Some par")
    case False
    then have "s' = s" using r by (auto simp: item_dropped_def split: option.splits)
    then show ?thesis using ok by simp
  next
    case True
    then obtain ks tr par where 2: "path = Some ks" "pe_root (fst s) = Some tr" "item_at ks tr = Some par" by blast
    let ?d = "dropMimeData index (editor_getSource q x reg d ?st) par ?st"
    have "rbind ?d (\<lambda>(_, par', st'). Inr ((fst s)\<lparr>pe_store := st', pe_root := Some (item_put ks par' tr)\<rparr>, snd s)) = Inr s'"
      using r by (simp add: item_dropped_def 2)
    then obtain b par1 st1 where e: "?d = Inr (b, par1, st1)"
      "s' = ((fst s)\<lparr>pe_store := st1, pe_root := Some (item_put ks par1 tr)\<rparr>, snd s)"
      by (cases ?d) auto
    obtain w a below where par: "par = Item w a below" by (cases par)
    have tr: "mirrors ?st tr" "distinct (addresses tr)" using ok 2(2) by (auto simp: editor_ok_def)
    have m: "mirrors ?st par" "distinct (addresses par)" using item_at_part [OF 2(3)] tr by blast+
    have i: "0 \<le> index" "index \<le> int (length below)" "\<not> needs_sequencer (?st ! a)"
      using ins 2(1,2,3) par by (simp_all add: inserts_def)
    let ?r = "(b, par1, st1)" and ?par' = par1 and ?st' = st1
    have "mirrors ?st' ?par' \<and> distinct (addresses ?par') \<and> it_data ?par' = it_data par \<and>
        set (addresses par) \<subseteq> set (addresses ?par') \<and> set (addresses ?par') \<subseteq> set (addresses par) \<union> {length ?st..} \<and>
        length ?st \<le> length ?st' \<and> (\<forall>b < length ?st. b \<notin> set (addresses par) \<longrightarrow> same_object (?st ! b) (?st' ! b))"
      using drop_result [OF e(1) [unfolded par] m [unfolded par] i(3,1,2)]
    proof (elim disjE exE conjE)
      assume "(b, par1, st1) = (fst (b, par1, st1), Item w a below, ?st)"
      then show ?thesis using m by (auto simp: par)
    next
      fix f n c new
      assume n: "it_data n = c" "distinct (addresses n)" "set (addresses n) \<subseteq> {length ?st..<length (?st @ new)}"
        "mirrors (?st @ new) n"
        and r': "(b, par1, st1) = (True, Item w a (insert_at (nat index) n below),
          (?st @ new)[a := (?st ! a)\<lparr>so_children := insert_at (nat index) c (so_children (?st ! a))\<rparr>])"
      then have p1: "par1 = Item w a (insert_at (nat index) n below)"
        and s1: "st1 = (?st @ new)[a := (?st ! a)\<lparr>so_children := insert_at (nat index) c (so_children (?st ! a))\<rparr>]"
        by simp_all
      have "nat index \<le> length below" using i(1,2) by linarith
      note k = insert_mirrors [OF m [unfolded par] n(4,2,3) this, unfolded n(1)]
      have "set (addresses ?par') = set (addresses par) \<union> set (addresses n)"
        unfolding p1 par addresses.simps list.set set_concat_insert by blast
      moreover have "length ?st \<le> length ?st'" "it_data ?par' = it_data par" by (simp_all add: p1 s1 par)
      moreover have "same_object (?st ! e) (?st' ! e)" if "e < length ?st" "e \<notin> set (addresses par)" for e
        using that by (simp add: s1 par nth_append)
      moreover have "mirrors ?st' ?par'" "distinct (addresses ?par')" using k unfolding p1 s1 by blast+
      ultimately show ?thesis using n(3) by auto
    qed
    then have new: "mirrors ?st' ?par'" "distinct (addresses ?par')" "it_data ?par' = it_data par"
      "set (addresses par) \<subseteq> set (addresses ?par')" "set (addresses ?par') \<subseteq> set (addresses par) \<union> {length ?st..}"
      "length ?st \<le> length ?st'" "\<forall>b < length ?st. b \<notin> set (addresses par) \<longrightarrow> same_object (?st ! b) (?st' ! b)"
      by blast+
    note p = item_put_ok [OF new 2(3) tr]
    show ?thesis using p ok 2(2) unfolding e(2) by (auto simp: editor_ok_def points_at_def)
  qed
qed

lemma editor_do_ok:
  assumes r: "editor_do L now ev s = Inr s'" and ok: "editor_ok s" and ins: "inserts ev s"
  shows "editor_ok s'"
proof (cases ev)
  case (Source_loaded f)
  then show ?thesis using r ok by (auto intro: load_editor_ok)
next
  case (Item_clicked ks)
  show ?thesis
  proof (cases "items_at [ks] s")
    case Nil
    then show ?thesis using r ok Item_clicked by simp
  next
    case (Cons it its)
    then obtain tr ks' where "pe_root (fst s) = Some tr" "item_at ks' tr = Some it"
      using items_at_part [of it "[ks]" s] by auto
    then show ?thesis using r ok Item_clicked Cons by (auto intro: itemClickedData_ok)
  qed
next
  case (Items_selected paths)
  show ?thesis
  proof (cases "items_at paths s")
    case Nil
    then show ?thesis using r ok Items_selected by (simp add: selectionChangedItems_def)
  next
    case (Cons it its)
    then obtain tr ks' where "pe_root (fst s) = Some tr" "item_at ks' tr = Some it"
      using items_at_part [of it paths s] by auto
    then show ?thesis using r ok Items_selected Cons
      by (auto simp: selectionChangedItems_def intro: itemClickedData_ok)
  qed
next
  case (Item_dropped path index d)
  then show ?thesis using r ok ins by (auto intro: item_dropped_ok)
next
  case Display_timer
  then show ?thesis using r ok by (auto split: if_splits dest: pe_updateDisplay_keeps intro: keeps_ok)
next
  case Run_pressed
  have "keeps s (playButtonData s)" by (simp add: playButtonData_def)
  then show ?thesis using r ok Run_pressed keeps_ok [of s "playButtonData s"] by (auto split: if_splits)
next
  case Stop_pressed
  then show ?thesis using r ok by (auto split: if_splits dest: stopButtonData_keeps intro: keeps_ok)
next
  case (Panel_edited ed)
  then show ?thesis using r ok by (auto dest: panel_edited_keeps intro: keeps_ok)
next
  case (Panel_ball wd ht bev)
  then show ?thesis using r ok by (auto dest: panel_ball_keeps intro: keeps_ok)
qed

lemma editor_run_ok: "editor_run L evs s s' \<Longrightarrow> editor_ok s \<Longrightarrow> editor_ok s'"
  by (induction rule: editor_run.induct) (auto intro: editor_do_ok)

lemma new_editor_ok: "editor_ok (ParameterEditor, rnd)"
  by (simp add: editor_ok_def points_at_def ParameterEditor_def)

text \<open>What the tree shows can be played: the recursion through the objects ends.\<close>

lemma source_at_item:
  "mirrors st it \<Longrightarrow> length (addresses it) \<le> fuel \<Longrightarrow> \<exists>s. source_at fuel st (it_data it) = Inr s"
proof (induction it arbitrary: fuel)
  case (Item w a below)
  obtain k where k: "fuel = Suc k" "length (concat (map addresses below)) \<le> k" using Item.prems(2) by (cases fuel) auto
  have "\<exists>ss. sources_at k st (map it_data is) = Inr ss" if "set is \<subseteq> set below" for "is"
    using that
  proof (induction "is")
    case (Cons i "is")
    have "i \<in> set below" using Cons.prems by simp
    moreover from this have "length (addresses i) \<le> length (concat (map addresses below))"
      by (simp add: length_concat member_le_sum_list)
    ultimately obtain s where "source_at k st (it_data i) = Inr s"
      using Item.IH [of i k] Item.prems(1) k(2) by auto
    then show ?case using Cons by auto
  qed simp
  then obtain ss where "sources_at k st (map it_data below) = Inr ss" by blast
  then show ?case using Item.prems(1) k(1) by simp
qed

lemma item_with_data: "a \<in> set (addresses it) \<Longrightarrow> \<exists>ks i. item_at ks it = Some i \<and> it_data i = a"
proof (induction it)
  case (Item w b below)
  show ?case
  proof (cases "a = b")
    case True
    then have "item_at [] (Item w b below) = Some (Item w b below) \<and> it_data (Item w b below) = a" by simp
    then show ?thesis by blast
  next
    case False
    then obtain i where i: "i \<in> set below" "a \<in> set (addresses i)" using Item.prems by auto
    then obtain k where k: "k < length below" "below ! k = i" by (auto simp: in_set_conv_nth)
    obtain ks j where "item_at ks i = Some j" "it_data j = a" using Item.IH i by blast
    then have "item_at (k # ks) (Item w b below) = Some j \<and> it_data j = a" using k by simp
    then show ?thesis by blast
  qed
qed

lemma played_in_tree:
  assumes "mirrors st it" and "distinct (addresses it)" and "a \<in> set (addresses it)"
  shows "\<exists>s. played st a = Inr s"
proof -
  obtain ks i where i: "item_at ks it = Some i" "it_data i = a" using item_with_data [OF assms(3)] by blast
  have m: "mirrors st i" "distinct (addresses i)" using item_at_part [OF i(1)] assms(1,2) by blast+
  then have "set (addresses i) \<subseteq> {..<length st}" using mirrors_below by blast
  then have "length (addresses i) \<le> length st"
    using card_mono [of "{..<length st}" "set (addresses i)"] distinct_card [OF m(2)] by simp
  then have "length (addresses i) \<le> Suc (length st)" by simp
  from source_at_item [OF m(1) this] show ?thesis unfolding played_def i(2) .
qed

text \<open>
  C32. In every run of the source editor, from its opening on, whose drops insert a source between
  the children of one that is not full: the items of the tree widget mirror the sources, each with
  the name of its source and with the items of that source's children below it in their order, no
  source has two items, and the source the preview plays is a whole tree of the editor.
\<close>

theorem editor_tree_in_step:
  assumes "editor_run L evs (ParameterEditor, rnd) (pe, rnd')"
  shows "(\<forall>it. pe_root pe = Some it \<longrightarrow> mirrors (pe_store pe) it \<and> distinct (addresses it)) \<and>
    (\<forall>a pb. pe_playback pe = Some (a, pb) \<longrightarrow> (\<exists>src. played (pe_store pe) a = Inr src))"
proof -
  have ok: "editor_ok (pe, rnd')" using editor_run_ok [OF assms new_editor_ok] .
  moreover have "\<exists>src. played (pe_store pe) a = Inr src" if "pe_playback pe = Some (a, pb)" for a pb
  proof -
    have "points_at (pe, rnd') a" using that by (simp add: points_at_def)
    then obtain it where "pe_root pe = Some it" "a \<in> set (addresses it)" using ok by (auto simp: editor_ok_def)
    moreover from this have "mirrors (pe_store pe) it" "distinct (addresses it)" using ok by (simp_all add: editor_ok_def)
    ultimately show ?thesis using played_in_tree by blast
  qed
  ultimately show ?thesis by (auto simp: editor_ok_def)
qed

text \<open>An example: a colour rotator is loaded, and a static frame from the list of the classes dropped on it.\<close>

definition demo_editor :: "(int \<times> int \<times> int, rat, rat) editor_libs" where
  "demo_editor = \<lparr>el_qt = exact_qt, el_panel = \<lparr>pl_sqrt = (\<lambda>x. x), pl_normalize = (\<lambda>v. v), pl_turn = (\<lambda>_ m. m),
       pl_log10 = (\<lambda>x. x), pl_pow10 = (\<lambda>x. x), pl_thousand = (\<lambda>x. \<lfloor>1000 * x\<rfloor>)\<rparr>,
     el_text = exact_text,
     el_classes = (case register_all registerFrameGen (frame_generators exact_qt) None of Inr reg \<Rightarrow> reg | Inl _ \<Rightarrow> None)\<rparr>"

definition demo_events :: "(int \<times> int \<times> int, rat, rat) editor_event list" where
  "demo_events = [Source_loaded (Some (ColourRotator exact_qt)), Item_dropped (Some []) 0 (Dragged_class ''Static_frame'')]"

lemma demo_editor_result:
  "case editor_do demo_editor 0 (demo_events ! 0) (ParameterEditor, \<lambda>i. i) of Inl _ \<Rightarrow> False | Inr s1 \<Rightarrow>
     inserts (demo_events ! 1) s1 \<and> (case editor_do demo_editor 1 (demo_events ! 1) s1 of Inl _ \<Rightarrow> False
       | Inr s2 \<Rightarrow> pe_root (fst s2) = Some (Item ''Colour_rotator'' 0 [Item ''Static_frame'' 1 []]))"
  by code_simp

theorem editor_tree_in_step_witness:
  "\<exists>pe rnd. editor_run demo_editor [(0, demo_events ! 0), (1, demo_events ! 1)] (ParameterEditor, \<lambda>i. i) (pe, rnd) \<and>
     mirrors (pe_store pe) (Item ''Colour_rotator'' 0 [Item ''Static_frame'' 1 []])"
proof -
  obtain s1 s2 where s: "editor_do demo_editor 0 (demo_events ! 0) (ParameterEditor, \<lambda>i. i) = Inr s1"
    "inserts (demo_events ! 1) s1" "editor_do demo_editor 1 (demo_events ! 1) s1 = Inr s2"
    "pe_root (fst s2) = Some (Item ''Colour_rotator'' 0 [Item ''Static_frame'' 1 []])"
    using demo_editor_result by (auto split: sum.splits)
  obtain pe rnd where s2: "s2 = (pe, rnd)" by (cases s2)
  have i: "inserts (demo_events ! 0) (ParameterEditor, \<lambda>i. i)" by (simp add: demo_events_def inserts_def)
  have r: "editor_run demo_editor [(0, demo_events ! 0), (1, demo_events ! 1)] (ParameterEditor, \<lambda>i. i) (pe, rnd)"
    by (rule editor_run.event [OF i s(1) editor_run.event [OF s(2) s(3) [unfolded s2] editor_run.stay]])
  have "pe_root pe = Some (Item ''Colour_rotator'' 0 [Item ''Static_frame'' 1 []])" using s(4) s2 by simp
  then have m: "mirrors (pe_store pe) (Item ''Colour_rotator'' 0 [Item ''Static_frame'' 1 []])"
    using editor_tree_in_step [OF r] by blast
  show ?thesis by (intro exI conjI) (rule r, rule m)
qed

end
