(* ===== verification/Head_Output.thy ===== *)
theory Head_Output
  imports Head Frame_Playing "HOL-Library.Sublist"
begin

text \<open>
  The laser head with the sound card behind it, from the frame a source returns to the point the
  audio callback plays. The points on their way are one queue: what the ring of the sound card
  driver holds, followed by what is left of the head's buffer. \<open>dataRequested\<close> appends to it what
  the resampler makes of each frame, the callback takes from its front, and a dump cuts it at the
  end of the ring.
\<close>

section \<open>The head and the audio callback side by side\<close>

datatype ('c, 'f, 'm) sound_event =
    Head_call "('c, 'f, 'm) head_event"
  | Audio_callback nat

definition frames_of :: "('c, 'm) head_signal list \<Rightarrow> ('c, 'm) frame list" where
  "frames_of sgs = concat (map (\<lambda>sg. case sg of New_frame (Some f) \<Rightarrow> [f] | _ \<Rightarrow> []) sgs)"

text \<open>One event: the frames the head showed, and the points the callback played.\<close>

fun sound_do :: "('f \<Rightarrow> 'f \<Rightarrow> 'f \<Rightarrow> 'f) \<Rightarrow> 'f \<Rightarrow> 'f \<Rightarrow> ('c, 'f, 'm) qt \<Rightarrow> ('c, 'f, 'z) zita \<Rightarrow>
    ('c, 'f, 'm) sound_event \<Rightarrow> ('f, 'z) head \<times> ('c, 'f, 'm) show_data \<Rightarrow>
    ((('f, 'z) head \<times> ('c, 'f, 'm) show_data) \<times> ('c, 'm) frame list \<times> 'f pointf list) res" where
  "sound_do mean zero old q e (Head_call ev) st =
     rbind (head_do q e ev st) (\<lambda>(st', sgs, taken). Inr (st', frames_of sgs, []))"
| "sound_do mean zero old q e (Audio_callback n) (h, sh) = (case hd_driver h of
     Some (Sound_driver b) \<Rightarrow>
       Inr ((h\<lparr>hd_driver := Some (Sound_driver (snd (paCallback mean zero old n b)))\<rparr>, sh), [],
            take n (pa_ring b))
   | _ \<Rightarrow> Inr ((h, sh), [], []))"

fun sound_run :: "('f \<Rightarrow> 'f \<Rightarrow> 'f \<Rightarrow> 'f) \<Rightarrow> 'f \<Rightarrow> 'f \<Rightarrow> ('c, 'f, 'm) qt \<Rightarrow> ('c, 'f, 'z) zita \<Rightarrow>
    ('c, 'f, 'm) sound_event list \<Rightarrow> ('f, 'z) head \<times> ('c, 'f, 'm) show_data \<Rightarrow>
    ((('f, 'z) head \<times> ('c, 'f, 'm) show_data) \<times> ('c, 'm) frame list \<times> 'f pointf list) res" where
  "sound_run mean zero old q e [] st = Inr (st, [], [])"
| "sound_run mean zero old q e (ev # evs) st =
     rbind (sound_do mean zero old q e ev st) (\<lambda>(st1, frs, out).
     rbind (sound_run mean zero old q e evs st1) (\<lambda>(st2, frs2, out2).
       Inr (st2, frs @ frs2, out @ out2)))"

text \<open>The head keeps its driver; the events after which points may be dumped.\<close>

definition keeps_driver :: "('c, 'f, 'm) sound_event \<Rightarrow> bool" where
  "keeps_driver ev = (case ev of Head_call (Set_driver _) \<Rightarrow> False
     | Head_call (Driver_event _) \<Rightarrow> False | _ \<Rightarrow> True)"

definition may_dump :: "('c, 'f, 'm) sound_event \<Rightarrow> bool" where
  "may_dump ev = (case ev of Head_call c \<Rightarrow>
     (case c of Kill_head \<Rightarrow> True | Mail \<Rightarrow> True | Manual_trigger \<Rightarrow> True | Beat_trigger \<Rightarrow> True
      | _ \<Rightarrow> False) | Audio_callback _ \<Rightarrow> False)"

section \<open>The points on their way\<close>

definition unsent :: "('f, 'z) head \<Rightarrow> 'f pointf list" where
  "unsent h = drop (hd_frame_index h) (hd_pointBuf h)"

definition ring_of :: "('f, 'z) head \<Rightarrow> 'f pointf list" where
  "ring_of h = (case hd_driver h of Some (Sound_driver b) \<Rightarrow> pa_ring b | _ \<Rightarrow> [])"

definition in_flight :: "('f, 'z) head \<Rightarrow> 'f pointf list" where
  "in_flight h = ring_of h @ unsent h"

definition pipe_ok :: "('f, 'z) head \<Rightarrow> bool" where
  "pipe_ok h \<longleftrightarrow> (\<exists>b. hd_driver h = Some (Sound_driver b) \<and> pa_ok b) \<and>
     hd_frame_index h \<le> length (hd_pointBuf h) \<and> length (hd_pointBuf h) < 2 ^ 64"

text \<open>A block of points the resampler makes of a frame, in some state of the filter.\<close>

definition resampled :: "('c, 'f, 'z) zita \<Rightarrow> ('c, 'm) frame \<Rightarrow> 'f pointf list \<Rightarrow> bool" where
  "resampled e f pts \<longleftrightarrow> (\<exists>k r r'. resample_run k e (fr_points f) r = Inr (pts, r'))"

definition short_blocks :: "'f pointf list list \<Rightarrow> bool" where
  "short_blocks bs \<longleftrightarrow> (\<forall>b \<in> set bs. length b < 2 ^ 64)"

text \<open>
  The step of the queue: each frame adds its block, the end of which may be lost, the end of what
  was in flight may be lost, and \<open>out\<close> has left at the front. Nothing is lost in a \<open>whole\<close> flow.
\<close>

definition flow :: "('c, 'f, 'z) zita \<Rightarrow> bool \<Rightarrow> ('c, 'm) frame list \<Rightarrow> 'f pointf list \<Rightarrow>
    ('f, 'z) head \<Rightarrow> ('f, 'z) head \<Rightarrow> bool" where
  "flow e whole frs out h h' \<longleftrightarrow> (\<exists>keep parts blocks.
     list_all2 (resampled e) frs blocks \<and> list_all2 prefix parts blocks \<and>
     prefix keep (in_flight h) \<and> (whole \<longrightarrow> keep = in_flight h \<and> parts = blocks) \<and>
     (short_blocks blocks \<longrightarrow> pipe_ok h' \<and> out @ in_flight h' = keep @ concat parts))"

lemma prefix_concat:
  "prefix xs (concat bs) \<Longrightarrow> \<exists>ps. list_all2 prefix ps bs \<and> concat ps = xs"
proof (induction bs arbitrary: xs)
  case Nil
  then show ?case by simp
next
  case (Cons b bs)
  then have p: "prefix xs (b @ concat bs)" by simp
  show ?case
  proof (cases "prefix xs b")
    case True
    have "list_all2 prefix (map (\<lambda>_. []) bs) bs" by (simp add: list_all2_conv_all_nth)
    then show ?thesis using True by (intro exI [of _ "xs # map (\<lambda>_. []) bs"]) simp
  next
    case False
    then obtain ys where ys: "xs = b @ ys" "prefix ys (concat bs)"
      using p by (auto simp: prefix_append)
    from Cons.IH [OF ys(2)] obtain ps where "list_all2 prefix ps bs" "concat ps = ys" by blast
    then show ?thesis using ys(1) by (intro exI [of _ "b # ps"]) simp
  qed
qed

lemma list_all2_prefix_trans:
  "list_all2 prefix xs ys \<Longrightarrow> list_all2 prefix ys zs \<Longrightarrow> list_all2 prefix xs zs"
  by (rule list_all2_trans [OF prefix_order.trans])

lemma list_all2_prefix_refl: "list_all2 prefix xs xs"
  by (simp add: list_all2_same)

lemma flow_step:
  assumes "list_all2 (resampled e) frs blocks"
    and "short_blocks blocks \<Longrightarrow> pipe_ok h' \<and> out @ in_flight h' = in_flight h @ concat blocks"
  shows "flow e whole frs out h h'"
  unfolding flow_def
  by (rule exI [of _ "in_flight h"], rule exI [of _ blocks], rule exI [of _ blocks])
     (use assms list_all2_prefix_refl in auto)

lemma flow_same: "pipe_ok h' \<Longrightarrow> out @ in_flight h' = in_flight h \<Longrightarrow> flow e whole [] out h h'"
  by (rule flow_step [of _ _ "[]"]) simp_all

lemma flow_dump: "pipe_ok h' \<Longrightarrow> prefix (in_flight h') (in_flight h) \<Longrightarrow> flow e False [] [] h h'"
  unfolding flow_def by (rule exI [of _ "in_flight h'"]) simp

lemma flow_trans:
  assumes f: "flow e whole frs out h h1"
    and r: "list_all2 (resampled e) frs2 bs"
    and g: "pipe_ok h1 \<Longrightarrow> flow e whole frs2 out2 h1 h2"
  shows "flow e whole (frs @ frs2) (out @ out2) h h2"
proof -
  obtain keep parts blocks where
    1: "list_all2 (resampled e) frs blocks" "list_all2 prefix parts blocks"
      "prefix keep (in_flight h)" "whole \<longrightarrow> keep = in_flight h \<and> parts = blocks"
      "short_blocks blocks \<longrightarrow> pipe_ok h1 \<and> out @ in_flight h1 = keep @ concat parts"
    using f unfolding flow_def by blast
  show ?thesis
  proof (cases "short_blocks blocks")
    case False
    then have "\<not> short_blocks (blocks @ bs)" by (auto simp: short_blocks_def)
    moreover have "list_all2 (resampled e) (frs @ frs2) (blocks @ bs)"
      using 1(1) r by (rule list_all2_appendI)
    ultimately show ?thesis by (intro flow_step [of _ _ "blocks @ bs"]) simp_all
  next
    case True
    then have ok: "pipe_ok h1" and eq: "out @ in_flight h1 = keep @ concat parts" using 1(5) by auto
    obtain keep2 parts2 blocks2 where
      2: "list_all2 (resampled e) frs2 blocks2" "list_all2 prefix parts2 blocks2"
        "prefix keep2 (in_flight h1)" "whole \<longrightarrow> keep2 = in_flight h1 \<and> parts2 = blocks2"
        "short_blocks blocks2 \<longrightarrow> pipe_ok h2 \<and> out2 @ in_flight h2 = keep2 @ concat parts2"
      using g [OF ok] unfolding flow_def by blast
    have "prefix (out @ keep2) (concat (keep # parts))" using 2(3) eq [symmetric] by simp
    from prefix_concat [OF this] obtain ps where
      ps: "list_all2 prefix ps (keep # parts)" "concat ps = out @ keep2" by blast
    define qs where "qs = (if whole then keep # parts else ps)"
    have qs: "list_all2 prefix qs (keep # parts)" "concat qs = out @ keep2"
      using ps 2(4) eq list_all2_prefix_refl [of "keep # parts"]
      by (simp_all add: qs_def del: list.rel_inject)
    then obtain k p where kp: "qs = k # p" "prefix k keep" "list_all2 prefix p parts"
      by (cases qs) auto
    show ?thesis unfolding flow_def
    proof (rule exI [of _ k], rule exI [of _ "p @ parts2"], rule exI [of _ "blocks @ blocks2"],
        intro conjI)
      show "list_all2 (resampled e) (frs @ frs2) (blocks @ blocks2)"
        using 1(1) 2(1) by (rule list_all2_appendI)
      show "list_all2 prefix (p @ parts2) (blocks @ blocks2)"
        using list_all2_prefix_trans [OF kp(3) 1(2)] 2(2) by (rule list_all2_appendI)
      show "prefix k (in_flight h)" using kp(2) 1(3) by (rule prefix_order.trans)
      show "whole \<longrightarrow> k = in_flight h \<and> p @ parts2 = blocks @ blocks2"
        using kp(1) qs_def 1(4) 2(4) by auto
      show "short_blocks (blocks @ blocks2) \<longrightarrow>
          pipe_ok h2 \<and> (out @ out2) @ in_flight h2 = k @ concat (p @ parts2)"
        using 2(5) qs(2) kp(1) by (auto simp: short_blocks_def)
    qed
  qed
qed

section \<open>The operations of the head as steps of the queue\<close>

lemma list_all2_exists: "\<forall>x \<in> set xs. \<exists>y. R x y \<Longrightarrow> \<exists>ys. list_all2 R xs ys"
proof (induction xs)
  case (Cons x xs)
  then obtain y ys where "R x y" "list_all2 R xs ys" by auto
  then show ?case by (intro exI [of _ "y # ys"]) simp
qed (simp add: exI [of _ "[]"])

lemma frames_of_simps [simp]:
  "frames_of [] = []"
  "frames_of (a @ b) = frames_of a @ frames_of b"
  "frames_of [New_frame fp] = (case fp of None \<Rightarrow> [] | Some f \<Rightarrow> [f])"
  "frames_of [End_of_source] = []" "frames_of [Head_active] = []" "frames_of [Head_inactive] = []"
  by (simp_all add: frames_of_def split: option.split)

text \<open>Loading or dumping a source changes neither the driver nor an empty buffer.\<close>

definition drained :: "'f driver option \<Rightarrow> ('f, 'z) head \<Rightarrow> bool" where
  "drained d h \<longleftrightarrow> hd_driver h = d \<and> hd_pointBuf h = [] \<and> hd_frame_index h = 0"

lemma drained_update [simp]:
  "drained d (h\<lparr>hd_sources := s\<rparr>) = drained d h" "drained d (h\<lparr>hd_mail := m\<rparr>) = drained d h"
  "drained d (h\<lparr>hd_pb := p\<rparr>) = drained d h"
  by (simp_all add: drained_def)

lemma loadFrameSource_quiet:
  "loadFrameSource f immediate h = (h', sgs) \<Longrightarrow> frames_of sgs = [] \<and>
   hd_driver h' = hd_driver h \<and> (drained d h \<longrightarrow> drained d h') \<and>
   unsent h' = (if immediate then [] else unsent h) \<and>
   (hd_frame_index h \<le> length (hd_pointBuf h) \<longrightarrow> hd_frame_index h' \<le> length (hd_pointBuf h')) \<and>
   length (hd_pointBuf h') \<le> length (hd_pointBuf h)"
  by (auto simp: loadFrameSource_def Let_def drained_def unsent_def)

lemma deliver_quiet:
  assumes "deliver sg h = (h', sgs)"
  shows "frames_of sgs = [] \<and> hd_driver h' = hd_driver h \<and> (drained d h \<longrightarrow> drained d h') \<and>
    (unsent h' = unsent h \<or> unsent h' = []) \<and>
    (hd_frame_index h \<le> length (hd_pointBuf h) \<longrightarrow> hd_frame_index h' \<le> length (hd_pointBuf h')) \<and>
    length (hd_pointBuf h') \<le> length (hd_pointBuf h)"
proof (cases sg)
  case DumpCurrentSelection
  then show ?thesis using assms loadFrameSource_quiet [of None True h h' sgs d]
    by (auto simp: deliver_def dump_def)
qed (use assms in \<open>auto simp: deliver_def frames_of_def\<close>)

lemma deliver_all_quiet:
  fixes out :: "('c, 'm) head_signal list"
  shows "deliver_all sgs h = (h', out) \<Longrightarrow>
   frames_of out = [] \<and> hd_driver h' = hd_driver h \<and> (drained d h \<longrightarrow> drained d h') \<and>
    (unsent h' = unsent h \<or> unsent h' = []) \<and>
    (hd_frame_index h \<le> length (hd_pointBuf h) \<longrightarrow> hd_frame_index h' \<le> length (hd_pointBuf h')) \<and>
    length (hd_pointBuf h') \<le> length (hd_pointBuf h)"
proof (induction sgs arbitrary: h h' out)
  case (Cons sg sgs)
  obtain h1 and e1 :: "('c, 'm) head_signal list"
    where 1: "deliver sg h = (h1, e1)" by (metis surj_pair)
  obtain h2 and e2 :: "('c, 'm) head_signal list"
    where 2: "deliver_all sgs h1 = (h2, e2)" by (metis surj_pair)
  have "h' = h2" "out = e1 @ e2" using Cons.prems by (simp_all add: 1 2)
  then show ?case using deliver_quiet [OF 1, of d] Cons.IH [OF 2] by auto
qed simp

lemma next_of_pb_quiet:
  "next_of_pb q now h sh = Inr (f, h', sh') \<Longrightarrow> drained d h \<Longrightarrow> drained d h'"
  by (auto simp: next_of_pb_def rbind_Inr_iff split: option.splits)

lemma next_source_frame_quiet:
  fixes sgs :: "('c, 'm) head_signal list" and h :: "('f, 'z) head"
  assumes n: "next_source_frame q now h sh = Inr (f, h', sh', sgs)" and z: "drained d h"
  shows "drained d h' \<and> frames_of sgs = []"
proof -
  obtain s srcs sgs1 where g: "getNextFramesource (hd_sources h) = (s, srcs, sgs1)"
    by (metis prod_cases3)
  obtain h1 and e1 :: "('c, 'm) head_signal list"
    where d: "deliver_all sgs1 (h\<lparr>hd_sources := srcs\<rparr>) = (h1, e1)" by (metis surj_pair)
  have z1: "drained d h1" "frames_of e1 = []" using deliver_all_quiet [OF d, of d] z by auto
  obtain p sh1 h2 and e2 :: "('c, 'm) head_signal list" where
    l: "loadFrameSource p False h1 = (h2, e2)" and
    r: "next_of_pb q now h2 sh1 = Inr (f, h', sh')" "sgs = e1 @ e2 @ [End_of_source]"
    using n by (auto simp: next_source_frame_def g d rbind_Inr_iff split_beta prod_eq_iff)
  show ?thesis using z1 r next_of_pb_quiet [OF r(1), of d] loadFrameSource_quiet [OF l, of d]
    by auto
qed

lemma fetch_frame_quiet:
  assumes "fetch_frame q now h sh = Inr (fp, h', sh', sgs)" and "drained d h"
  shows "drained d h' \<and> frames_of sgs = []"
proof -
  obtain fp1 h1 sh1 where 1: "next_of_pb q now h sh = Inr (fp1, h1, sh1)"
    and 2: "(case fp1 of Some f \<Rightarrow> Inr (Some f, h1, sh1, [])
       | None \<Rightarrow> next_source_frame q now h1 sh1) = Inr (fp, h', sh', sgs)"
    using assms(1) by (auto simp: fetch_frame_def rbind_Inr_iff)
  have z: "drained d h1" by (rule next_of_pb_quiet [OF 1 assms(2)])
  show ?thesis
  proof (cases fp1)
    case None
    then show ?thesis using 2 by (intro next_source_frame_quiet [OF _ z]) simp
  qed (use 2 z in auto)
qed

text \<open>
  A round: the ring takes what it has room for from the head's buffer, and a block of points is
  put in the buffer only when it is used up.
\<close>

lemma data_round_flow:
  assumes r: "data_round k q e now d h sh = Inr (go, h', sh', sgs, taken)"
    and d: "hd_driver h = Some d"
  shows "\<exists>blocks. list_all2 (resampled e) (frames_of sgs) blocks \<and>
    (pipe_ok h \<and> short_blocks blocks \<longrightarrow> pipe_ok h' \<and> in_flight h' = in_flight h @ concat blocks)"
proof -
  obtain t d' where n: "driver_new_points (hd_pointBuf h) (hd_frame_index h) d = (t, d')"
    by (metis surj_pair)
  define h1 where "h1 = h\<lparr>hd_driver := Some d', hd_frame_index := hd_frame_index h + t\<rparr>"
  have ok: "pipe_ok h1 \<and> in_flight h1 = in_flight h" if p: "pipe_ok h"
  proof -
    obtain b where b: "d = Sound_driver b" "pa_ok b" and
      i: "hd_frame_index h \<le> length (hd_pointBuf h)" "length (hd_pointBuf h) < 2 ^ 64"
      using p d by (auto simp: pipe_ok_def)
    let ?t = "min (pa_BUFFER_SZ - length (pa_ring b)) (length (hd_pointBuf h) - hd_frame_index h)"
    have m: "pa_NewPoints (hd_pointBuf h) (hd_frame_index h) b =
        (?t, b\<lparr>pa_ring := pa_ring b @ take ?t (unsent h)\<rparr>)"
      using pa_NewPoints_eq [OF b(2) i] by (simp add: unsent_def)
    have e: "t = ?t" "d' = Sound_driver (b\<lparr>pa_ring := pa_ring b @ take t (unsent h)\<rparr>)"
      using n unfolding b(1) driver_new_points_def by (auto simp: m)
    have l: "hd_frame_index h + t \<le> length (hd_pointBuf h)" using e(1) i(1) by linarith
    have "pa_ok (b\<lparr>pa_ring := pa_ring b @ take t (unsent h)\<rparr>)"
      using b(2) e(1) by (simp add: pa_ok_def unsent_def)
    then have "pipe_ok h1" using i(2) l e(2) by (simp add: pipe_ok_def h1_def)
    moreover have "in_flight h1 = pa_ring b @ take t (unsent h) @ drop t (unsent h)"
      using e(2) by (simp add: in_flight_def ring_of_def unsent_def h1_def add.commute)
    moreover have "in_flight h = pa_ring b @ unsent h"
      using d b(1) by (simp add: in_flight_def ring_of_def)
    ultimately show ?thesis by simp
  qed
  show ?thesis
  proof (cases "length (hd_pointBuf h) \<le> hd_frame_index h + t")
    case False
    then have "h' = h1" "sgs = []"
      using r by (simp_all add: data_round_def n Let_def h1_def)
    then show ?thesis using ok by (intro exI [of _ "[]"]) simp
  next
    case True
    obtain fp h2 sgs2 where
      f: "fetch_frame q now (h1\<lparr>hd_pointBuf := [], hd_frame_index := 0\<rparr>) sh = Inr (fp, h2, sh', sgs2)"
      and g: "(case fp of None \<Rightarrow> Inr h2
          | Some f \<Rightarrow> rbind (resample_run k e (fr_points f) (hd_resampler h2))
            (\<lambda>(pts, r'). Inr (h2\<lparr>hd_pointBuf := pts, hd_resampler := r'\<rparr>))) = Inr h'"
      and sg: "sgs = sgs2 @ [New_frame fp]"
      using r True by (auto simp: data_round_def n Let_def h1_def rbind_Inr_iff)
    have z: "drained (Some d') h2 \<and> frames_of sgs2 = []"
      by (rule fetch_frame_quiet [OF f]) (simp add: drained_def h1_def)
    have u: "in_flight h1 = ring_of h1"
      using True by (simp add: in_flight_def unsent_def h1_def)
    have z2: "pipe_ok h2 \<and> in_flight h2 = in_flight h" if "pipe_ok h"
      using ok [OF that] z u
      by (simp add: drained_def pipe_ok_def in_flight_def unsent_def ring_of_def h1_def)
    show ?thesis
    proof (cases fp)
      case None
      then show ?thesis using g z z2 sg by (intro exI [of _ "[]"]) auto
    next
      case (Some f)
      then obtain pts r' where p: "resample_run k e (fr_points f) (hd_resampler h2) = Inr (pts, r')"
        and h': "h' = h2\<lparr>hd_pointBuf := pts, hd_resampler := r'\<rparr>"
        using g by (auto simp: rbind_Inr_iff)
      have "resampled e f pts" using p unfolding resampled_def by blast
      moreover have "pipe_ok h' \<and> in_flight h' = in_flight h @ pts"
        if "pipe_ok h" "length pts < 2 ^ 64"
        using z2 [OF that(1)] z that(2)
        by (simp add: drained_def pipe_ok_def in_flight_def unsent_def ring_of_def h')
      ultimately show ?thesis using sg z Some
        by (intro exI [of _ "[pts]"]) (simp add: short_blocks_def)
    qed
  qed
qed

lemma data_loop_flow:
  "data_loop k q e now h sh = Inr (h', sh', sgs, taken) \<Longrightarrow>
   \<exists>blocks. list_all2 (resampled e) (frames_of sgs) blocks \<and>
    (pipe_ok h \<and> short_blocks blocks \<longrightarrow> pipe_ok h' \<and> in_flight h' = in_flight h @ concat blocks)"
proof (induction k arbitrary: h sh sgs taken)
  case (Suc k)
  have idle: ?case if "h' = h" "sgs = []" using that by (intro exI [of _ "[]"]) simp
  show ?case
  proof (cases "hd_driver h")
    case None
    then show ?thesis using Suc.prems by (intro idle) simp_all
  next
    case (Some d)
    show ?thesis
    proof (cases "driver_fill d > 300")
      case False
      then show ?thesis using Suc.prems Some by (intro idle) simp_all
    next
      case True
      then obtain go h1 sh1 sgs1 taken1 where
        r: "data_round (Suc k) q e now d h sh = Inr (go, h1, sh1, sgs1, taken1)"
        and rest: "(if go then rbind (data_loop k q e now h1 sh1) (\<lambda>(h2, sh2, sgs2, taken2).
             Inr (h2, sh2, sgs1 @ sgs2, taken1 @ taken2)) else Inr (h1, sh1, sgs1, taken1)) =
           Inr (h', sh', sgs, taken)"
        using Suc.prems Some by (auto simp: rbind_Inr_iff)
      from data_round_flow [OF r Some] obtain bs where
        b: "list_all2 (resampled e) (frames_of sgs1) bs"
          "pipe_ok h \<and> short_blocks bs \<longrightarrow> pipe_ok h1 \<and> in_flight h1 = in_flight h @ concat bs"
        by blast
      show ?thesis
      proof (cases go)
        case False
        then show ?thesis using rest b by auto
      next
        case True
        then obtain sgs2 taken2 where l: "data_loop k q e now h1 sh1 = Inr (h', sh', sgs2, taken2)"
          and s: "sgs = sgs1 @ sgs2" using rest by (auto simp: rbind_Inr_iff)
        from Suc.IH [OF l] obtain cs where
          c: "list_all2 (resampled e) (frames_of sgs2) cs"
            "pipe_ok h1 \<and> short_blocks cs \<longrightarrow> pipe_ok h' \<and> in_flight h' = in_flight h1 @ concat cs"
          by blast
        have "list_all2 (resampled e) (frames_of sgs) (bs @ cs)"
          unfolding s frames_of_simps using b(1) c(1) by (rule list_all2_appendI)
        then show ?thesis using b(2) c(2)
          by (intro exI [of _ "bs @ cs"]) (auto simp: short_blocks_def)
      qed
    qed
  qed
qed simp

section \<open>Runs\<close>

lemma flow_weaken: "flow e w frs out h h' \<Longrightarrow> (w' \<longrightarrow> w) \<Longrightarrow> flow e w' frs out h h'"
  unfolding flow_def by blast

text \<open>What the slots of the head other than \<open>dataRequested\<close> do to the queue.\<close>

definition buffer_cut :: "('f, 'z) head \<Rightarrow> ('f, 'z) head \<Rightarrow> bool" where
  "buffer_cut h h' \<longleftrightarrow> hd_driver h' = hd_driver h \<and> (unsent h' = unsent h \<or> unsent h' = []) \<and>
    (hd_frame_index h \<le> length (hd_pointBuf h) \<longrightarrow> hd_frame_index h' \<le> length (hd_pointBuf h')) \<and>
    length (hd_pointBuf h') \<le> length (hd_pointBuf h)"

lemma buffer_cut_flow: "buffer_cut h h' \<Longrightarrow> pipe_ok h \<Longrightarrow> flow e False [] [] h h'"
  by (rule flow_dump) (auto simp: buffer_cut_def pipe_ok_def in_flight_def ring_of_def)

lemma slot_buffer_cut:
  fixes sgs :: "('c, 'm) head_signal list"
  shows "kill h = (h', sgs) \<Longrightarrow> buffer_cut h h' \<and> frames_of sgs = []"
    and "deliver_mail h = (h', sgs) \<Longrightarrow> buffer_cut h h' \<and> frames_of sgs = []"
    and "manual h = (h', sgs) \<Longrightarrow> buffer_cut h h' \<and> frames_of sgs = []"
    and "beat h = (h', sgs) \<Longrightarrow> buffer_cut h h' \<and> frames_of sgs = []"
proof -
  have all: "buffer_cut h h' \<and> frames_of sgs = []" if "deliver_all s (h\<lparr>hd_sources := l\<rparr>) = (h', sgs)"
    for s l using deliver_all_quiet [OF that] by (simp add: buffer_cut_def unsent_def)
  show "kill h = (h', sgs) \<Longrightarrow> buffer_cut h h' \<and> frames_of sgs = []"
    by (auto simp: kill_def loadFrameSource_def buffer_cut_def unsent_def)
  show "deliver_mail h = (h', sgs) \<Longrightarrow> buffer_cut h h' \<and> frames_of sgs = []"
    using deliver_quiet [of _ "h\<lparr>hd_mail := tl (hd_mail h)\<rparr>" h' sgs]
    by (auto simp: deliver_mail_def buffer_cut_def unsent_def split: list.splits)
  show "manual h = (h', sgs) \<Longrightarrow> buffer_cut h h' \<and> frames_of sgs = []"
    by (auto simp: manual_def split: prod.splits dest: all)
  show "beat h = (h', sgs) \<Longrightarrow> buffer_cut h h' \<and> frames_of sgs = []"
    by (auto simp: beat_def split: prod.splits dest: all)
qed

lemma same_buffer_flow:
  "pipe_ok h \<Longrightarrow> hd_driver h' = hd_driver h \<Longrightarrow> hd_pointBuf h' = hd_pointBuf h \<Longrightarrow>
   hd_frame_index h' = hd_frame_index h \<Longrightarrow> flow e w [] [] h h'"
  by (rule flow_same) (simp_all add: pipe_ok_def in_flight_def ring_of_def unsent_def)

lemma sound_do_blocks:
  assumes "sound_do mean zero old q e ev st = Inr (st', frs, out)"
  shows "\<exists>bs. list_all2 (resampled e) frs bs"
proof (cases ev)
  case (Audio_callback n)
  then have "frs = []" using assms by (cases st) (auto split: option.splits driver.splits)
  then show ?thesis by simp
next
  case (Head_call c)
  obtain h sh where st: "st = (h, sh)" by (cases st)
  obtain sgs taken where d: "head_do q e c (h, sh) = Inr (st', sgs, taken)" "frs = frames_of sgs"
    using assms by (auto simp: Head_call st rbind_Inr_iff)
  have "frames_of sgs = [] \<or> (\<exists>k now. c = Data_requested k now)"
    using d(1) by (cases c) (auto simp: rbind_Inr_iff head_setSelectionMode_def
      head_setStepMode_def frames_of_def Let_def split: prod.splits dest: slot_buffer_cut)
  then show ?thesis
  proof
    assume "\<exists>k now. c = Data_requested k now"
    then obtain k now h' sh' where "data_loop k q e now h sh = Inr (h', sh', sgs, taken)"
      using d(1) by (auto simp: rbind_Inr_iff dataRequested_def)
    from data_loop_flow [OF this] show ?thesis using d(2) by blast
  qed (simp add: d(2))
qed

lemma sound_do_flow:
  assumes s: "sound_do mean zero old q e ev (h, sh) = Inr ((h', sh'), frs, out)"
    and k: "keeps_driver ev" and ok: "pipe_ok h"
  shows "flow e (\<not> may_dump ev) frs out h h'"
proof (cases ev)
  case (Audio_callback n)
  obtain b where b: "hd_driver h = Some (Sound_driver b)" "pa_ok b" using ok by (auto simp: pipe_ok_def)
  let ?b = "snd (paCallback mean zero old n b)"
  have r: "pa_ring ?b = drop (min (length (pa_ring b)) n) (pa_ring b)"
    by (simp add: paCallback_def Let_def)
  have h': "h' = h\<lparr>hd_driver := Some (Sound_driver ?b)\<rparr>" "frs = []" "out = take n (pa_ring b)"
    using s b(1) by (simp_all add: Audio_callback)
  have "out @ pa_ring ?b = pa_ring b"
    using h'(3) r by (cases "n \<le> length (pa_ring b)") (simp_all add: min_def)
  then have "out @ in_flight h' = in_flight h"
    using b(1) h'(1) by (simp add: in_flight_def ring_of_def unsent_def flip: append_assoc)
  moreover have "pa_ok ?b" using b(2) r by (auto simp: pa_ok_def)
  then have "pipe_ok h'" using ok h'(1) by (simp add: pipe_ok_def)
  ultimately show ?thesis unfolding h'(2) by (intro flow_same)
next
  case (Head_call c)
  obtain sgs taken where d: "head_do q e c (h, sh) = Inr ((h', sh'), sgs, taken)"
    and o: "frs = frames_of sgs" "out = []"
    using s by (auto simp: Head_call rbind_Inr_iff)
  have slot: ?thesis if "buffer_cut h h' \<and> frames_of sgs = []" "may_dump ev"
    using that buffer_cut_flow [OF _ ok, of h' e] o by simp
  have same: ?thesis if "hd_driver h' = hd_driver h" "hd_pointBuf h' = hd_pointBuf h"
    "hd_frame_index h' = hd_frame_index h" "frames_of sgs = []"
    using same_buffer_flow [OF ok that(1-3)] that(4) o by simp
  show ?thesis
  proof (cases c)
    case (Data_requested k now)
    then have l: "data_loop k q e now h sh = Inr (h', sh', sgs, taken)"
      using d by (auto simp: rbind_Inr_iff dataRequested_def)
    from data_loop_flow [OF l] obtain bs where "list_all2 (resampled e) (frames_of sgs) bs"
      "pipe_ok h \<and> short_blocks bs \<longrightarrow> pipe_ok h' \<and> in_flight h' = in_flight h @ concat bs" by blast
    then show ?thesis using ok o by (intro flow_step [of _ _ bs]) simp_all
  next
    case Kill_head
    then show ?thesis using d 
      by (intro slot) (auto simp: may_dump_def Head_call split: prod.splits dest: slot_buffer_cut)
  next
    case Mail
    then show ?thesis using d
      by (intro slot) (auto simp: may_dump_def Head_call split: prod.splits dest: slot_buffer_cut)
  next
    case Manual_trigger
    then show ?thesis using d
      by (intro slot) (auto simp: may_dump_def Head_call split: prod.splits dest: slot_buffer_cut)
  next
    case Beat_trigger
    then show ?thesis using d
      by (intro slot) (auto simp: may_dump_def Head_call split: prod.splits dest: slot_buffer_cut)
  next
    case (Set_driver x)
    then show ?thesis using k by (simp add: keeps_driver_def Head_call)
  next
    case (Driver_event x)
    then show ?thesis using k by (simp add: keeps_driver_def Head_call)
  qed (rule same; use d in \<open>auto simp: rbind_Inr_iff head_select_def head_setSelectionMode_def
      head_setStepMode_def restart_def setPPS_def HWPpsChanged_def frames_of_def Let_def
      split: prod.splits\<close>)+
qed

lemma sound_run_blocks:
  "sound_run mean zero old q e evs st = Inr (st', frs, out) \<Longrightarrow> \<exists>bs. list_all2 (resampled e) frs bs"
proof (induction evs arbitrary: st frs out)
  case (Cons ev evs)
  obtain st1 frs1 out1 frs2 out2 where
    1: "sound_do mean zero old q e ev st = Inr (st1, frs1, out1)" and
    2: "sound_run mean zero old q e evs st1 = Inr (st', frs2, out2)" and f: "frs = frs1 @ frs2"
    using Cons.prems by (auto simp: rbind_Inr_iff)
  show ?case using sound_do_blocks [OF 1] Cons.IH [OF 2] f by (blast intro: list_all2_appendI)
qed (simp add: exI [of _ "[]"])

lemma sound_run_flow:
  "sound_run mean zero old q e evs (h, sh) = Inr ((h', sh'), frs, out) \<Longrightarrow>
   \<forall>ev \<in> set evs. keeps_driver ev \<Longrightarrow> pipe_ok h \<Longrightarrow>
   flow e (\<forall>ev \<in> set evs. \<not> may_dump ev) frs out h h'"
proof (induction evs arbitrary: h sh frs out)
  case Nil
  then show ?case by (auto intro: flow_same)
next
  case (Cons ev evs)
  obtain h1 sh1 frs1 out1 frs2 out2 where
    1: "sound_do mean zero old q e ev (h, sh) = Inr ((h1, sh1), frs1, out1)" and
    2: "sound_run mean zero old q e evs (h1, sh1) = Inr ((h', sh'), frs2, out2)" and
    f: "frs = frs1 @ frs2" "out = out1 @ out2"
    using Cons.prems(1) by (auto simp: rbind_Inr_iff)
  let ?w = "\<forall>ev \<in> set (ev # evs). \<not> may_dump ev"
  have s: "flow e ?w frs1 out1 h h1"
    using sound_do_flow [OF 1] Cons.prems(2,3) by (auto intro: flow_weaken)
  obtain bs where b: "list_all2 (resampled e) frs2 bs" using sound_run_blocks [OF 2] by blast
  have r: "flow e ?w frs2 out2 h1 h'" if "pipe_ok h1"
    using Cons.IH [OF 2 _ that] Cons.prems(2) by (auto intro: flow_weaken)
  show ?case unfolding f by (rule flow_trans [OF s b r])
qed

section \<open>A head for the example\<close>

abbreviation demo_image :: "(int \<times> int \<times> int, rat) frame" where
  "demo_image \<equiv> static_image exact_qt (demo_sf 1)"

text \<open>A frame goes through the unit filter in one block.\<close>

lemma unit_run:
  assumes "rs_input_pps r \<noteq> 0" and "ps \<noteq> []" and "length ps \<le> RESAMPLE_SZ"
  shows "\<exists>pts r'. resample_run (Suc (Suc k)) unit_filter ps r = Inr (pts, r') \<and> length pts = length ps"
proof -
  let ?s = "concat (map (point_samples unit_filter) ps)"
  have "length ?s \<noteq> 0" using assms(2) by simp
  then have s: "?s \<noteq> []" by (metis length_0_conv)
  have z: "z_process unit_filter z ?s RESAMPLE_SZ = ((), length ps, ?s)" for z
    using assms(3) by (simp add: unit_filter_def)
  have "feed_block (Suc (Suc k)) unit_filter z ?s out acc =
    Inr ((), ?s @ drop (length ?s) out,
      acc @ map (read_output (?s @ drop (length ?s) out)) [0..<length ps])" for z out acc
    using z s by (simp add: Let_def del: concat_eq_Nil_conv)
  then show ?thesis
    using assms
    by (simp add: resample_run_def run_blocks.simps [of _ _ _ _ ps] run_blocks.simps [of _ _ _ _ "[]"])
qed

lemma image_length: "length (fr_points (static_image q sf)) = length (sf_data sf)"
proof -
  have "length (fr_points (foldl (\<lambda>p d. addPoint (ilda_to_point q d) p) f ds)) =
      length (fr_points f) + length ds" for f and ds
    by (induction ds arbitrary: f) (simp_all add: addPoint_def)
  from this [of "(Frame q)\<lparr>fr_geometry := q_scale q (sf_scale sf) (sf_geometry sf)\<rparr>" "sf_data sf"]
  show ?thesis by (simp add: static_image_def Frame_def)
qed

text \<open>A head on the sound card that plays the static frame of the examples once.\<close>

definition sounding_play :: "nat option \<Rightarrow> nat \<Rightarrow> rat play_ref option" where
  "sounding_play t n =
     Some (Some (0, Pb (Static_pb (StaticFramePlayback\<lparr>spb_dewellStart := t, spb_repeatsDone := of_nat n\<rparr>)) []))"

lemma sounding_play_some [simp]: "\<exists>y. sounding_play t n = Some y"
  by (simp add: sounding_play_def)

definition sounding_head :: "nat \<Rightarrow> (rat, unit) head" where
  "sounding_head n = demo_head\<lparr>hd_driver := Some (Sound_driver (PA_ILDA 6)),
     hd_pb := sounding_play None n,
     hd_sources := PlaybackList (\<lambda>i. i)\<rparr>"

definition sounding_show :: "(int \<times> int \<times> int, rat, rat) show_data" where
  "sounding_show = demo_show\<lparr>sh_store := [demo_frame 1]\<rparr>"

lemma sounding_frames:
  "hd_pb h = sounding_play t 0 \<Longrightarrow> next_of_pb exact_qt 0 h sounding_show =
     Inr (Some demo_image, h\<lparr>hd_pb := sounding_play t 1\<rparr>, sounding_show)"
  "hd_pb h = sounding_play t 1 \<Longrightarrow> next_of_pb exact_qt 0 h sounding_show =
     Inr (None, h\<lparr>hd_pb := sounding_play t 0\<rparr>, sounding_show)"
  by (simp_all add: next_of_pb_def ref_nextFrame_def sounding_play_def sounding_show_def demo_show_def
      demo_frame_def StaticFramePlayback_def nextFrame_def static_next_def static_tick_def Let_def)

lemma data_loop_twice:
  assumes "hd_driver h = Some d" "driver_fill d > 300"
    and "data_round (Suc (Suc k)) q e now d h sh = Inr (True, h1, sh1, sgs1, t1)"
    and "hd_driver h1 = Some d1" "driver_fill d1 > 300"
    and "data_round (Suc k) q e now d1 h1 sh1 = Inr (False, h2, sh2, sgs2, t2)"
  shows "data_loop (Suc (Suc k)) q e now h sh = Inr (h2, sh2, sgs1 @ sgs2, t1 @ t2)"
  using assms by simp

text \<open>A request of a head on the sound card that plays the frame of the examples and finds its end.\<close>

lemma frame_then_end:
  fixes sgs2 :: "(int \<times> int \<times> int, rat) head_signal list"
  assumes h: "hd_driver h = Some (Sound_driver (PA_ILDA 6))" "hd_pointBuf h = []" "hd_frame_index h = 0"
      "hd_resampler h = Resample unit_filter"
    and f1: "fetch_frame exact_qt 0 h sh =
      Inr (Some demo_image, h\<lparr>hd_sources := l, hd_pb := Some y\<rparr>, sh, sgs1)"
    and f2: "\<And>h' :: (rat, unit) head. hd_sources h' = l \<Longrightarrow> hd_pb h' = Some y \<Longrightarrow> hd_pointBuf h' = [] \<Longrightarrow>
      \<exists>h2. fetch_frame exact_qt 0 h' sh = Inr (None, h2, sh, sgs2) \<and> hd_pb h2 = None \<and>
        hd_driver h2 = hd_driver h'"
  shows "\<exists>pts h'. dataRequested 5 exact_qt unit_filter 0 h sh =
      Inr (h', sh, sgs1 @ [New_frame (Some demo_image)] @ sgs2 @ [New_frame None], pts) \<and>
      length pts = 3 \<and> hd_driver h' = Some (Sound_driver (PA_ILDA 6\<lparr>pa_ring := pts\<rparr>))"
proof -
  let ?f = "demo_image"
  let ?d = "Sound_driver (PA_ILDA 6) :: rat driver"
  have len: "length (fr_points ?f) = 3" by (simp add: image_length demo_sf_def)
  then have "\<exists>pts r'. resample_run (Suc (Suc 3)) unit_filter (fr_points ?f) (Resample unit_filter) =
      Inr (pts, r') \<and> length pts = length (fr_points ?f)"
    by (intro unit_run) (auto simp: Resample_def RESAMPLE_SZ_def)
  then obtain pts r' where
    p: "resample_run 5 unit_filter (fr_points ?f) (Resample unit_filter) = Inr (pts, r')" "length pts = 3"
    using len by auto
  let ?d1 = "Sound_driver (PA_ILDA 6\<lparr>pa_ring := pts\<rparr>) :: rat driver"
  have n: "driver_new_points [] 0 ?d = (0, ?d)" "driver_new_points pts 0 ?d = (3, ?d1)"
    using p(2) by (simp_all add: driver_new_points_def pa_NewPoints_eq pa_ok_def PA_ILDA_def pa_BUFFER_SZ_def)
  define h1 where "h1 = h\<lparr>hd_sources := l, hd_pb := Some y, hd_pointBuf := pts, hd_resampler := r'\<rparr>"
  have same: "h\<lparr>hd_driver := Some ?d, hd_pointBuf := [], hd_frame_index := 0\<rparr> = h"
    using h by (cases h) simp
  have f1': "fetch_frame exact_qt 0 (h\<lparr>hd_driver := Some ?d, hd_pointBuf := [], hd_frame_index := 0\<rparr>) sh =
      Inr (Some ?f, h\<lparr>hd_sources := l, hd_pb := Some y\<rparr>, sh, sgs1)"
    unfolding same by (rule f1)
  have r1: "data_round 5 exact_qt unit_filter 0 ?d h sh =
      Inr (True, h1, sh, sgs1 @ [New_frame (Some ?f)], [])"
    using p(1) h f1' by (simp add: data_round_def n(1) h1_def)
  obtain h2 where f: "fetch_frame exact_qt 0 (h1\<lparr>hd_driver := Some ?d1, hd_pointBuf := [], hd_frame_index := 0\<rparr>) sh =
      Inr (None, h2, sh, sgs2)" "hd_pb h2 = None" "hd_driver h2 = Some ?d1"
    using f2 [of "h1\<lparr>hd_driver := Some ?d1, hd_pointBuf := [], hd_frame_index := 0\<rparr>"]
    by (auto simp: h1_def)
  have i: "hd_driver h1 = Some ?d" "hd_pointBuf h1 = pts" "hd_frame_index h1 = 0"
    using h by (simp_all add: h1_def)
  have r2: "data_round 4 exact_qt unit_filter 0 ?d h1 sh = Inr (False, h2, sh, sgs2 @ [New_frame None], pts)"
    using p(2) i f by (simp add: data_round_def n(2))
  have "driver_fill ?d = 1024"
    by (simp add: driver_fill_def pa_fill pa_ok_def PA_ILDA_def pa_BUFFER_SZ_def)
  then have "data_loop (Suc (Suc 3)) exact_qt unit_filter 0 h sh =
      Inr (h2, sh, (sgs1 @ [New_frame (Some ?f)]) @ sgs2 @ [New_frame None], [] @ pts)"
    by (intro data_loop_twice [OF h(1) _ _ i(1)]) (use r1 r2 in simp_all)
  then show ?thesis using p(2) f(3) by (simp add: dataRequested_def)
qed

lemma nothing_next:
  "getNextFramesource (hd_sources h) = (-1, l, []) \<Longrightarrow> hd_pointBuf h = [] \<Longrightarrow>
   next_source_frame q now h sh =
     Inr (None, h\<lparr>hd_sources := l, hd_pb := None\<rparr>, sh, [Head_inactive, End_of_source])"
  by (simp add: next_source_frame_def loadFrameSource_def next_of_pb_def)

lemma sounding_data:
  "\<exists>pts h'. dataRequested 5 exact_qt unit_filter 0 (sounding_head 0) sounding_show =
      Inr (h', sounding_show, [New_frame (Some demo_image), Head_inactive, End_of_source,
        New_frame None], pts) \<and> length pts = 3 \<and>
      hd_driver h' = Some (Sound_driver (PA_ILDA 6\<lparr>pa_ring := pts\<rparr>))"
proof -
  let ?l = "PlaybackList (\<lambda>i. i)"
  have g: "getNextFramesource ?l = (-1, ?l, [])"
    by (simp add: getNextFramesource_def next_source.simps PlaybackList_def)
  have s: "h\<lparr>hd_sources := hd_sources h\<rparr> = h" for h :: "(rat, unit) head" by (cases h) simp
  obtain y where y: "sounding_play None 1 = Some y" using sounding_play_some by blast
  have "hd_pb (sounding_head 0) = sounding_play None 0" "hd_sources (sounding_head 0) = ?l"
    by (simp_all add: sounding_head_def)
  then have f1: "fetch_frame exact_qt 0 (sounding_head 0) sounding_show =
    Inr (Some demo_image, (sounding_head 0)\<lparr>hd_sources := ?l, hd_pb := Some y\<rparr>,
      sounding_show, [])"
    using sounding_frames(1) [of "sounding_head 0" None] s [of "sounding_head 0"] y
    by (simp add: fetch_frame_def)
  have f2: "\<exists>h2. fetch_frame exact_qt 0 h sounding_show =
      Inr (None, h2, sounding_show, [Head_inactive, End_of_source]) \<and>
    hd_pb h2 = None \<and> hd_driver h2 = hd_driver h"
    if "hd_sources h = ?l" "hd_pb h = Some y" "hd_pointBuf h = []"
    for h :: "(rat, unit) head"
  proof -
    have n: "next_of_pb exact_qt 0 h sounding_show =
        Inr (None, h\<lparr>hd_pb := sounding_play None 0\<rparr>, sounding_show)"
      using that(2) y by (intro sounding_frames(2)) simp
    have "next_source_frame exact_qt 0 (h\<lparr>hd_pb := sounding_play None 0\<rparr>) sounding_show =
        Inr (None, h\<lparr>hd_pb := sounding_play None 0, hd_sources := ?l, hd_pb := None\<rparr>, sounding_show,
          [Head_inactive, End_of_source])"
      by (rule nothing_next) (use that(1,3) g in simp_all)
    then show ?thesis by (simp add: fetch_frame_def n)
  qed
  have "hd_driver (sounding_head 0) = Some (Sound_driver (PA_ILDA 6))" "hd_pointBuf (sounding_head 0) = []"
    "hd_frame_index (sounding_head 0) = 0" "hd_resampler (sounding_head 0) = Resample unit_filter"
    by (simp_all add: sounding_head_def demo_head_def)
  from frame_then_end [OF this f1 f2, unfolded append_Nil append_Cons] show ?thesis by assumption
qed

section \<open>Properties\<close>

text \<open>
  C5. What the audience sees is what the sources produced, in their order. Start a head whose
  buffer is empty on the sound card driver with an empty ring, and let the head and the audio
  callback do anything in any order, except for a change of the driver: as long as no frame was
  resampled to \<open>2 ^ 64\<close> points, the points the callback has played, followed by those in the ring
  and those left in the head's buffer, are the blocks of points the resampler made of the frames
  shown, one after the other, no point repeated, reordered or invented; only the end of a block
  may be missing, and when nothing was dumped (no kill, no manual step or beat, no mail) no
  point at all is missing.
\<close>

theorem frames_reach_the_callback:
  assumes "sound_run mean zero old q e evs (h, sh) = Inr ((h', sh'), frs, played)"
    and "\<forall>ev \<in> set evs. keeps_driver ev"
    and "hd_driver h = Some (Sound_driver b)" "pa_ring b = []"
    and "hd_pointBuf h = []" "hd_frame_index h = 0"
  shows "\<exists>parts blocks. list_all2 (resampled e) frs blocks \<and> list_all2 prefix parts blocks \<and>
    ((\<forall>ev \<in> set evs. \<not> may_dump ev) \<longrightarrow> parts = blocks) \<and>
    (short_blocks blocks \<longrightarrow>
       played @ ring_of h' @ drop (hd_frame_index h') (hd_pointBuf h') = concat parts)"
proof -
  have "pipe_ok h" "in_flight h = []"
    using assms(3-6) by (simp_all add: pipe_ok_def pa_ok_def in_flight_def ring_of_def unsent_def)
  then show ?thesis using sound_run_flow [OF assms(1,2)]
    by (fastforce simp: flow_def in_flight_def unsent_def)
qed

theorem frames_reach_the_callback_witness:
  "\<exists>h' sh' played block.
     sound_run (\<lambda>a b c. a) 0 0 exact_qt unit_filter
       [Head_call (Data_requested 5 0), Audio_callback 2] (sounding_head 0, sounding_show) =
     Inr ((h', sh'), [demo_image], played) \<and> length played = 2 \<and>
     resampled unit_filter demo_image block \<and>
     (short_blocks [block] \<longrightarrow>
        played @ ring_of h' @ drop (hd_frame_index h') (hd_pointBuf h') = block)"
proof -
  let ?evs = "[Head_call (Data_requested 5 0), Audio_callback 2] ::
    (int \<times> int \<times> int, rat, rat) sound_event list"
  obtain pts h1 where d: "dataRequested 5 exact_qt unit_filter 0 (sounding_head 0) sounding_show =
      Inr (h1, sounding_show, [New_frame (Some demo_image), Head_inactive,
        End_of_source, New_frame None], pts)" "length pts = 3"
    "hd_driver h1 = Some (Sound_driver (PA_ILDA 6\<lparr>pa_ring := pts\<rparr>))"
    using sounding_data by blast
  obtain h' where r: "sound_run (\<lambda>a b c. a) 0 0 exact_qt unit_filter ?evs (sounding_head 0, sounding_show) =
      Inr ((h', sounding_show), [demo_image], take 2 pts)"
    using d(1,3) by (simp add: frames_of_def)
  have i: "hd_driver (sounding_head 0) = Some (Sound_driver (PA_ILDA 6))" "pa_ring (PA_ILDA 6) = []"
    "hd_pointBuf (sounding_head 0) = []" "hd_frame_index (sounding_head 0) = 0"
    by (simp_all add: sounding_head_def demo_head_def PA_ILDA_def)
  have k: "\<forall>ev \<in> set ?evs. keeps_driver ev" "\<forall>ev \<in> set ?evs. \<not> may_dump ev"
    by (simp_all add: keeps_driver_def may_dump_def)
  have "\<exists>block. resampled unit_filter demo_image block \<and>
     (short_blocks [block] \<longrightarrow>
        take 2 pts @ ring_of h' @ drop (hd_frame_index h') (hd_pointBuf h') = block)"
    using frames_reach_the_callback [OF r k(1) i] k(2) by (auto simp: list_all2_Cons1)
  then show ?thesis using r d(2) by fastforce
qed

end
