(* ===== verification/Head_Selection.thy ===== *)
theory Head_Selection
  imports Head_Output
begin

text \<open>
  The laser head from the selection of a slot to its frames: what is played after a selection in
  single mode, and a show of static frames, which goes on for ever.
\<close>

section \<open>From the selection of a slot to its first frame\<close>

fun read_mail :: "nat \<Rightarrow> ('f, 'z) head \<Rightarrow> ('f, 'z) head \<times> ('c, 'm) head_signal list" where
  "read_mail 0 h = (h, [])"
| "read_mail (Suc n) h =
     (let (h1, e1) = deliver_mail h; (h2, e2) = read_mail n h1 in (h2, e1 @ e2))"

definition dumped :: "('f, 'z) head \<Rightarrow> ('f, 'z) head" where
  "dumped h = h\<lparr>hd_pb := None, hd_frame_index := 0, hd_pointBuf := []\<rparr>"

lemma dumped_simps [simp]:
  "dumped (dumped h) = dumped h" "dumped (h\<lparr>hd_mail := m\<rparr>) = (dumped h)\<lparr>hd_mail := m\<rparr>"
  by (simp_all add: dumped_def)

lemma deliver_state:
  "deliver sg h = (h', out) \<Longrightarrow> h' = (if sg = DumpCurrentSelection then dumped h else h)"
  by (cases sg) (auto simp: deliver_def dump_def loadFrameSource_def dumped_def)

lemma deliver_all_state:
  fixes out :: "('c, 'm) head_signal list"
  shows "deliver_all sgs h = (h', out) \<Longrightarrow>
    h' = (if DumpCurrentSelection \<in> set sgs then dumped h else h)"
proof (induction sgs arbitrary: h out)
  case (Cons sg sgs)
  obtain h1 and e1 :: "('c, 'm) head_signal list"
    where 1: "deliver sg h = (h1, e1)" by (metis surj_pair)
  obtain h2 and e2 :: "('c, 'm) head_signal list"
    where 2: "deliver_all sgs h1 = (h2, e2)" by (metis surj_pair)
  have "h' = h2" using Cons.prems by (simp add: 1 2)
  then show ?case using deliver_state [OF 1] Cons.IH [of h1 e2] 2 by auto
qed simp

lemma read_mail_state:
  fixes out :: "('c, 'm) head_signal list"
  shows "hd_mail h = m \<Longrightarrow> read_mail (length m) h = (h', out) \<Longrightarrow>
    h' = (if DumpCurrentSelection \<in> set m then dumped h else h)\<lparr>hd_mail := []\<rparr>"
proof (induction m arbitrary: h h' out)
  case (Cons sg m)
  obtain h1 and e1 :: "('c, 'm) head_signal list"
    where 1: "deliver_mail h = (h1, e1)" by (metis surj_pair)
  obtain h2 and e2 :: "('c, 'm) head_signal list"
    where 2: "read_mail (length m) h1 = (h2, e2)" by (metis surj_pair)
  have h: "h' = h2" using Cons.prems(2) by (simp add: 1 2)
  have d: "h1 = (if sg = DumpCurrentSelection then dumped h else h)\<lparr>hd_mail := m\<rparr>"
    using 1 Cons.prems(1) deliver_state [of sg "h\<lparr>hd_mail := m\<rparr>" h1 e1]
    by (auto simp: deliver_mail_def)
  then have "hd_mail h1 = m" by simp
  then show ?case using Cons.IH [OF _ 2] h d by auto
qed simp

text \<open>A source selected in single mode is the only one, and the next one to be played.\<close>

lemma select_single:
  assumes "selMode s = SINGLE" and "pos \<notin> set (selections s)"
  shows "\<exists>sgs. select pos True s = (s\<lparr>selections := [pos], currentIndex := -1\<rparr>, sgs) \<and>
    DumpCurrentSelection \<in> set sgs"
  using assms
  by (cases "stepMode s") (auto simp: select.simps next_source.simps rotate_selections_def Let_def)

lemma next_single:
  assumes "selMode s = SINGLE" and "selections s = [pos]" and "currentIndex s = -1"
  shows "\<exists>s' sgs. getNextFramesource s = (pos, s', sgs) \<and> DumpCurrentSelection \<notin> set sgs"
  using assms
  by (cases "stepMode s") (auto simp: getNextFramesource_def next_source.simps rotate_selections_def
      first_selection_def load_signal_def Let_def)

lemma load_signals: "loadFrameSource f immediate h = (h', out) \<Longrightarrow> New_frame fp \<notin> set out"
  by (auto simp: loadFrameSource_def Let_def split: if_splits)

lemma deliver_all_signals:
  fixes out :: "('c, 'm) head_signal list"
  shows "deliver_all sgs h = (h', out) \<Longrightarrow> New_frame fp \<notin> set out"
proof (induction sgs arbitrary: h h' out)
  case (Cons sg sgs)
  obtain h1 and e1 :: "('c, 'm) head_signal list"
    where 1: "deliver sg h = (h1, e1)" by (metis surj_pair)
  obtain h2 and e2 :: "('c, 'm) head_signal list"
    where 2: "deliver_all sgs h1 = (h2, e2)" by (metis surj_pair)
  have "New_frame fp \<notin> set e1"
    using 1 by (cases sg) (auto simp: deliver_def dump_def dest: load_signals)
  then show ?case using Cons.prems Cons.IH [OF 2] by (auto simp: 1 2)
qed simp

text \<open>When there is no playback, the next frame is the first one of the next source of the list.\<close>

lemma first_frame_of_source:
  fixes sgs :: "('c, 'm) head_signal list" and h :: "('f, 'z) head"
  assumes "next_source_frame q now h sh = Inr (fp, h', sh', sgs)" and "\<not> hd_killed h"
    and "getNextFramesource (hd_sources h) = (pos, l', e)" and "DumpCurrentSelection \<notin> set e"
    and "pos < 2 ^ 31" and "getFrameSource_at (unat pos) sh = Some a"
  shows "(\<exists>s' p' rnd'. play_run q [Reset now, Next now] (sh_store sh ! a)
      (createPlayback q (sh_store sh ! a)) (sh_rand sh) = Inr ([fp], s', p', rnd')) \<and>
    (\<forall>x. New_frame x \<notin> set sgs)"
proof -
  obtain h1 and e1 :: "('c, 'm) head_signal list"
    where d: "deliver_all e (h\<lparr>hd_sources := l'\<rparr>) = (h1, e1)" by (metis surj_pair)
  have h1: "\<not> hd_killed h1" using deliver_all_state [OF d] assms(2,4) by simp
  have "0 \<le> sint pos" unfolding sint_u32_small [OF assms(5)] by (rule of_nat_0_le_iff)
  then have pos: "sint pos > -1" by simp
  obtain p1 rnd1 where
    r: "reset_source q now (sh_store sh ! a) (createPlayback q (sh_store sh ! a)) (sh_rand sh) = Inr (p1, rnd1)"
    and n: "rbind (next_of_pb q now (fst (loadFrameSource (Some (Some (a, p1))) False h1 ::
        ('f, 'z) head \<times> ('c, 'm) head_signal list)) (sh\<lparr>sh_rand := rnd1\<rparr>)) (\<lambda>(fp, h3, sh2).
          Inr (fp, h3, sh2, e1 @ snd (loadFrameSource (Some (Some (a, p1))) False h1) @ [End_of_source])) =
        Inr (fp, h', sh', sgs)"
    using assms(1) pos
    by (auto simp: next_source_frame_def assms(3,6) d getPlayback_def ref_reset_def rbind_Inr_iff split_beta)
  obtain h2 and e2 :: "('c, 'm) head_signal list"
    where l: "loadFrameSource (Some (Some (a, p1))) False h1 = (h2, e2)" by (metis surj_pair)
  have "hd_pb h2 = Some (Some (a, p1))" using l h1 by (auto simp: loadFrameSource_def Let_def)
  then obtain s2 p2 rnd2 where
    "nextFrame q now (sh_store sh ! a) p1 rnd1 = Inr (fp, s2, p2, rnd2)" "sgs = e1 @ e2 @ [End_of_source]"
    using n by (auto simp: l next_of_pb_def ref_nextFrame_def rbind_Inr_iff)
  then show ?thesis using r deliver_all_signals [OF d] load_signals [OF l] by auto
qed

section \<open>A loop of static frames\<close>

text \<open>Predicates on what the head plays, for a matrix library, a filter and its fuel.\<close>

type_synonym ('c, 'f, 'm, 'z, 'x) show_pred =
  "('c, 'f, 'm) qt \<Rightarrow> ('c, 'f, 'z) zita \<Rightarrow> nat \<Rightarrow> ('c, 'f, 'm) show_data \<Rightarrow> 'x \<Rightarrow> bool"

text \<open>The filter makes at least a point of the frame when it has fuel for \<open>K\<close> calls.\<close>

definition shows_still :: "('c, 'f, 'z) zita \<Rightarrow> nat \<Rightarrow> ('c, 'm) frame \<Rightarrow> bool" where
  "shows_still e K f \<longleftrightarrow> (\<forall>k \<ge> K. \<forall>r. rs_input_pps r \<noteq> 0 \<longrightarrow> (\<exists>pts r'.
     resample_run k e (fr_points f) r = Inr (pts, r') \<and> pts \<noteq> [] \<and> length pts < 2 ^ 64))"

text \<open>
  The source at the address is a static frame that counts repeats, at least one; the list in the
  mode LOOP has only slots with such sources, and the playback is one of such a source.
\<close>

definition still_source :: "('c, 'f, 'm, 'z, nat) show_pred" where
  "still_source q e K sh a \<longleftrightarrow> (\<exists>sf des cs. a < length (sh_store sh) \<and>
     sh_store sh ! a = Source (Static sf) des cs \<and> \<not> sf_useDewell sf \<and> sf_repeats sf > 0 \<and>
     shows_still e K (static_image q sf))"

definition still_list :: "('c, 'f, 'm, 'z, playback_list) show_pred" where
  "still_list q e K sh l \<longleftrightarrow> stepMode l = LOOP \<and> selections l \<noteq> [] \<and>
     (\<forall>pos \<in> set (selections l). pos < 2 ^ 31 \<and>
        (\<exists>a. getFrameSource_at (unat pos) sh = Some a \<and> still_source q e K sh a))"

definition still_ref :: "('c, 'f, 'm, 'z, 'f play_ref option) show_pred" where
  "still_ref q e K sh pb \<longleftrightarrow> pb = None \<or> (\<exists>a p sp. pb = Some (Some (a, p)) \<and>
     still_source q e K sh a \<and> pb_node p = Static_pb sp \<and> spb_active sp)"

definition plays_on :: "('c, 'f, 'm, 'z, ('f, 'z) head) show_pred" where
  "plays_on q e K sh h \<longleftrightarrow> \<not> hd_killed h \<and> still_list q e K sh (hd_sources h) \<and>
     still_ref q e K sh (hd_pb h) \<and> rs_input_pps (hd_resampler h) \<noteq> 0 \<and>
     hd_frame_index h \<le> length (hd_pointBuf h) \<and> length (hd_pointBuf h) < 2 ^ 64"

lemma loop_next:
  assumes "still_list q e K sh l" and "getNextFramesource l = (pos, l', sgs)"
  shows "still_list q e K sh l' \<and> pos \<in> set (selections l) \<and> DumpCurrentSelection \<notin> set sgs"
proof -
  let ?r = "rotate_selections l"
  have l: "stepMode l = LOOP" "selections l \<noteq> []" using assms(1) by (simp_all add: still_list_def)
  have r: "pos = hd (selections ?r)" "selections l' = selections ?r" "stepMode l' = LOOP" "sgs = [Load pos]"
    using assms(2) l rotate_selections_list(4) [OF l(2)]
    by (auto simp: getNextFramesource_def next_source.simps first_selection_eq load_signal_def Let_def
        split: list.splits)
  show ?thesis
    using assms(1) r rotate_selections_list [OF l(2)] by (auto simp: still_list_def)
qed

text \<open>One call of \<open>nextFrame\<close> on a playback that is active.\<close>

lemma still_next:
  assumes "still_source q e K sh a" and "pb_node p = Static_pb sp" and "spb_active sp"
  shows "\<exists>fp p'. ref_nextFrame q now (Some (a, p)) sh = Inr (fp, Some (a, p'), sh) \<and>
    still_ref q e K sh (Some (Some (a, p'))) \<and>
    (\<forall>f. fp = Some f \<longrightarrow> shows_still e K f) \<and>
    (spb_repeatsDone sp = 0 \<longrightarrow> fp \<noteq> None)"
proof -
  obtain sf des cs where s: "a < length (sh_store sh)" "sh_store sh ! a = Source (Static sf) des cs"
    "\<not> sf_useDewell sf" "sf_repeats sf > 0" "shows_still e K (static_image q sf)"
    using assms(1) unfolding still_source_def by blast
  obtain cps where p: "p = Pb (Static_pb sp) cps" using assms(2) by (cases p) simp
  obtain fp sp' where n: "static_next q now sf sp = (fp, sp')" by (metis surj_pair)
  have sp': "spb_active sp'" "\<And>f. fp = Some f \<Longrightarrow> f = static_image q sf"
    "spb_repeatsDone sp = 0 \<Longrightarrow> fp \<noteq> None"
    using n s(3,4) assms(3) by (auto simp: static_next_def static_tick_def Let_def split: if_splits)
  have "nextFrame q now (Source (Static sf) des cs) (Pb (Static_pb sp) cps) (sh_rand sh) =
      Inr (fp, Source (Static sf) des cs, Pb (Static_pb sp') cps, sh_rand sh)"
    by (simp add: nextFrame_def n)
  moreover have "(sh_store sh)[a := Source (Static sf) des cs] = sh_store sh"
    using s(2) by (metis list_update_id)
  ultimately have "ref_nextFrame q now (Some (a, p)) sh = Inr (fp, Some (a, Pb (Static_pb sp') cps), sh)"
    by (simp add: ref_nextFrame_def s(2) p)
  then show ?thesis using sp' s(5) assms(1) by (auto simp: still_ref_def)
qed

text \<open>What fetching a frame keeps of the head, whether the playback goes on or the next source is taken.\<close>

definition fetched :: "('c, 'f, 'm) qt \<Rightarrow> ('c, 'f, 'z) zita \<Rightarrow> nat \<Rightarrow> ('c, 'f, 'm) show_data \<Rightarrow>
    ('f, 'z) head \<Rightarrow> ('f, 'z) head \<Rightarrow> bool" where
  "fetched q e K sh h h' \<longleftrightarrow> hd_killed h' = hd_killed h \<and> hd_driver h' = hd_driver h \<and>
     hd_pointBuf h' = hd_pointBuf h \<and> hd_frame_index h' = hd_frame_index h \<and>
     hd_resampler h' = hd_resampler h \<and> still_list q e K sh (hd_sources h') \<and>
     still_ref q e K sh (hd_pb h') \<and> hd_pb h' \<noteq> None"

lemma still_next_source:
  fixes h :: "('f, 'z) head" and sh :: "('c, 'f, 'm) show_data"
  assumes "\<not> hd_killed h" and "still_list q e K sh (hd_sources h)"
  shows "\<exists>f h' sgs. next_source_frame q now h sh = Inr (Some f, h', sh, sgs) \<and>
    shows_still e K f \<and> fetched q e K sh h h'"
proof -
  obtain pos l' sg where g: "getNextFramesource (hd_sources h) = (pos, l', sg)" by (metis prod_cases3)
  note l = loop_next [OF assms(2) g]
  then obtain a where pos: "pos < 2 ^ 31" and a: "getFrameSource_at (unat pos) sh = Some a"
    and src: "still_source q e K sh a"
    using assms(2) unfolding still_list_def by blast
  obtain sf des cs where s: "sh_store sh ! a = Source (Static sf) des cs"
    using src unfolding still_source_def by blast
  obtain h1 and e1 :: "('c, 'm) head_signal list"
    where d: "deliver_all sg (h\<lparr>hd_sources := l'\<rparr>) = (h1, e1)" by (metis surj_pair)
  have h1: "h1 = h\<lparr>hd_sources := l'\<rparr>" using deliver_all_state [OF d] l by simp
  let ?sp = "static_reset now StaticFramePlayback"
  have "createPlayback q (Source (Static sf) des cs) =
      Pb (Static_pb StaticFramePlayback) (map (createPlayback q) cs)"
    unfolding createPlayback_Pb by (simp add: newPlayback_def)
  then have r: "ref_reset q now (getPlayback q (unat pos) sh) sh =
      Inr (Some (a, Pb (Static_pb ?sp) (map (createPlayback q) cs)), sh)"
    by (simp add: getPlayback_def a s ref_reset_def)
  have sp: "pb_node (Pb (Static_pb ?sp) (map (createPlayback q) cs)) = Static_pb ?sp" "spb_active ?sp"
    "spb_repeatsDone ?sp = 0"
    by (simp_all add: static_reset_def)
  obtain fp p' where n: "ref_nextFrame q now (Some (a, Pb (Static_pb ?sp) (map (createPlayback q) cs))) sh =
      Inr (fp, Some (a, p'), sh)" "still_ref q e K sh (Some (Some (a, p')))"
    "\<forall>f. fp = Some f \<longrightarrow> shows_still e K f"
    "fp \<noteq> None"
    using still_next [OF src sp(1,2), of now] sp(3) by blast
  then obtain f where f: "fp = Some f" "shows_still e K f" by blast
  have "0 \<le> sint pos" unfolding sint_u32_small [OF pos] by (rule of_nat_0_le_iff)
  then have "next_source_frame q now h sh = Inr (Some f, h1\<lparr>hd_pb := Some (Some (a, p'))\<rparr>, sh,
      e1 @ [Head_active] @ [End_of_source])"
    using assms(1) by (simp add: next_source_frame_def g d r h1 loadFrameSource_def next_of_pb_def n(1) f(1))
  then show ?thesis using f(2) n(2) l h1
    by (intro exI [of _ f] exI [of _ "h1\<lparr>hd_pb := Some (Some (a, p'))\<rparr>"]) (simp add: fetched_def)
qed

lemma still_fetch:
  fixes h :: "('f, 'z) head" and sh :: "('c, 'f, 'm) show_data"
  assumes "\<not> hd_killed h" and "still_list q e K sh (hd_sources h)" and "still_ref q e K sh (hd_pb h)"
  shows "\<exists>f h' sgs. fetch_frame q now h sh = Inr (Some f, h', sh, sgs) \<and>
    shows_still e K f \<and> fetched q e K sh h h'"
proof (cases "hd_pb h")
  case None
  then show ?thesis using still_next_source [OF assms(1,2), of now]
    by (simp add: fetch_frame_def next_of_pb_def)
next
  case (Some x)
  then obtain a p sp where x: "hd_pb h = Some (Some (a, p))" "still_source q e K sh a"
    "pb_node p = Static_pb sp" "spb_active sp"
    using assms(3) unfolding still_ref_def by auto
  obtain fp p' where n: "ref_nextFrame q now (Some (a, p)) sh = Inr (fp, Some (a, p'), sh)"
    "still_ref q e K sh (Some (Some (a, p')))"
    "\<forall>f. fp = Some f \<longrightarrow> shows_still e K f"
    using still_next [OF x(2-4), of now] by blast
  let ?h = "h\<lparr>hd_pb := Some (Some (a, p'))\<rparr>"
  have b: "next_of_pb q now h sh = Inr (fp, ?h, sh)" by (simp add: next_of_pb_def x(1) n(1))
  show ?thesis
  proof (cases fp)
    case (Some f)
    then have "shows_still e K f" using n(3) by blast
    moreover have "fetched q e K sh h ?h" using n(2) assms(2) by (simp add: fetched_def)
    ultimately show ?thesis using Some b by (simp add: fetch_frame_def)
  next
    case None
    obtain f h' sgs where "next_source_frame q now ?h sh = Inr (Some f, h', sh, sgs)"
      "shows_still e K f" "fetched q e K sh ?h h'"
      using still_next_source [of ?h q e K sh now] assms(1,2) by auto
    then show ?thesis using None b by (simp add: fetch_frame_def fetched_def)
  qed
qed

text \<open>A round leaves points in the buffer, and less space in the hardware if there were some before.\<close>

lemma still_round:
  fixes h :: "('f, 'z) head" and sh :: "('c, 'f, 'm) show_data"
  assumes p: "plays_on q e K sh h" and d: "hd_driver h = Some d" "driver_ok d" and k: "K \<le> k"
  shows "\<exists>h' d' sgs taken. data_round k q e now d h sh = Inr (True, h', sh, sgs, taken) \<and>
    plays_on q e K sh h' \<and> hd_driver h' = Some d' \<and> driver_ok d' \<and>
    hd_frame_index h' < length (hd_pointBuf h') \<and>
    driver_fill d' \<le> driver_fill d \<and>
    length taken = driver_fill d - driver_fill d' \<and>
    (hd_frame_index h < length (hd_pointBuf h) \<and> 0 < driver_fill d \<longrightarrow> driver_fill d' < driver_fill d)"
proof -
  let ?p = "hd_pointBuf h" and ?i = "hd_frame_index h"
  have i: "?i \<le> length ?p" "length ?p < 2 ^ 64" using p by (simp_all add: plays_on_def)
  obtain t d' where n: "driver_new_points ?p ?i d = (t, d')" by (metis surj_pair)
  have ok: "driver_ok d'" using hw.still_ok [OF d(2) i] n by simp
  have fill: "driver_fill d' = driver_fill d - t" "t = min (driver_fill d) (length ?p - ?i)"
    using hw.space_left [OF d(2) i] hw.taken [OF d(2) i] n by simp_all
  have tk: "length (take t (drop ?i ?p)) = driver_fill d - driver_fill d'"
    using fill by simp
  have dec: "?i < length ?p \<and> 0 < driver_fill d \<longrightarrow> driver_fill d' < driver_fill d"
    using fill by linarith
  show ?thesis
  proof (cases "length ?p \<le> ?i + t")
    case False
    let ?h = "h\<lparr>hd_driver := Some d', hd_frame_index := ?i + t\<rparr>"
    have "data_round k q e now d h sh = Inr (True, ?h, sh, [], take t (drop ?i ?p))"
      using False by (simp add: data_round_def n)
    moreover have "plays_on q e K sh ?h" using p False by (simp add: plays_on_def)
    ultimately show ?thesis using False ok dec fill(1) tk by (intro exI [of _ ?h] exI [of _ d']) simp
  next
    case True
    let ?h = "h\<lparr>hd_driver := Some d', hd_pointBuf := [], hd_frame_index := 0\<rparr>"
    obtain f h2 sgs where f: "fetch_frame q now ?h sh = Inr (Some f, h2, sh, sgs)"
      "shows_still e K f" "fetched q e K sh ?h h2"
      using still_fetch [of ?h q e K sh now] p by (auto simp: plays_on_def)
    obtain pts r' where r: "resample_run k e (fr_points f) (hd_resampler h2) = Inr (pts, r')" "pts \<noteq> []"
      "length pts < 2 ^ 64"
      using f(2,3) k p unfolding shows_still_def fetched_def plays_on_def by fastforce
    have pps: "rs_input_pps r' \<noteq> 0"
      using r(1) by (auto simp: resample_run_def rbind_Inr_iff split: if_splits)
    let ?h' = "h2\<lparr>hd_pointBuf := pts, hd_resampler := r'\<rparr>"
    have "data_round k q e now d h sh = Inr (True, ?h', sh, sgs @ [New_frame (Some f)], take t (drop ?i ?p))"
      using True f(1,3) r(1) by (simp add: data_round_def n fetched_def)
    moreover have "plays_on q e K sh ?h'"
      using f(3) r(3) pps p by (simp add: plays_on_def fetched_def)
    ultimately show ?thesis using f(3) ok dec fill(1) tk r(2)
      by (intro exI [of _ ?h'] exI [of _ d']) (simp add: fetched_def)
  qed
qed

lemma still_loop:
  fixes h :: "('f, 'z) head" and sh :: "('c, 'f, 'm) show_data"
  shows "plays_on q e K sh h \<Longrightarrow> hd_driver h = Some d \<Longrightarrow> driver_ok d \<Longrightarrow>
    (if hd_frame_index h < length (hd_pointBuf h) then driver_fill d else Suc (driver_fill d)) < n \<Longrightarrow>
    \<exists>h' d' sgs taken. data_loop (K + n) q e now h sh = Inr (h', sh, sgs, taken) \<and>
      plays_on q e K sh h' \<and> hd_driver h' = Some d' \<and> driver_ok d' \<and> driver_fill d' \<le> 300 \<and>
      driver_fill d' \<le> driver_fill d \<and> length taken = driver_fill d - driver_fill d'"
proof (induction n arbitrary: h d)
  case (Suc n)
  show ?case
  proof (cases "driver_fill d > 300")
    case False
    then show ?thesis using Suc.prems by simp
  next
    case True
    obtain h1 d1 sgs1 taken1 where
      r: "data_round (Suc (K + n)) q e now d h sh = Inr (True, h1, sh, sgs1, taken1)"
      "plays_on q e K sh h1" "hd_driver h1 = Some d1" "driver_ok d1"
      "hd_frame_index h1 < length (hd_pointBuf h1)" "driver_fill d1 \<le> driver_fill d"
      "length taken1 = driver_fill d - driver_fill d1"
      "hd_frame_index h < length (hd_pointBuf h) \<and> 0 < driver_fill d \<longrightarrow> driver_fill d1 < driver_fill d"
      using still_round [OF Suc.prems(1-3), of "Suc (K + n)" now] by auto
    have "(if hd_frame_index h1 < length (hd_pointBuf h1) then driver_fill d1
        else Suc (driver_fill d1)) < n"
      using r(5,6,8) Suc.prems(4) True by (auto split: if_splits)
    from Suc.IH [OF r(2-4) this] obtain h' d' sgs taken where
      "data_loop (K + n) q e now h1 sh = Inr (h', sh, sgs, taken)" "plays_on q e K sh h'"
      "hd_driver h' = Some d'" "driver_ok d'" "driver_fill d' \<le> 300"
      "driver_fill d' \<le> driver_fill d1" "length taken = driver_fill d1 - driver_fill d'" by blast
    then show ?thesis using r(1,6,7) Suc.prems(2) True by simp
  qed
qed simp

section \<open>Properties\<close>


text \<open>The head of the example with its list in the mode ONCE, and the source in slot 2.\<close>

definition waiting_head :: "(rat, unit) head" where
  "waiting_head = (sounding_head 0)\<lparr>hd_pb := None, hd_sources := (PlaybackList (\<lambda>i. i))\<lparr>stepMode := ONCE\<rparr>\<rparr>"

definition waiting_show :: "(int \<times> int \<times> int, rat, rat) show_data" where
  "waiting_show = sounding_show\<lparr>sh_sources := [None, None, Some 0]\<rparr>"

lemmas waiting_defs = waiting_head_def sounding_head_def demo_head_def PlaybackList_def waiting_show_def
  sounding_show_def demo_show_def sounding_play_def first_selection_def load_signal_def

text \<open>What a round of a head calls when the playback has ended, and what a static frame does.\<close>

lemmas next_round_defs = fetch_frame_def next_of_pb_def next_source_frame_def getNextFramesource_def
  next_source.simps deliver_def loadFrameSource_def getPlayback_def getFrameSource_at_def

lemmas still_frame_defs = demo_frame_def newPlayback_defs ref_reset_def static_reset_def ref_nextFrame_def
  nextFrame_def static_next_def static_tick_def Let_def

lemma waiting_mail:
  "read_mail (length (hd_mail (head_select 2 True waiting_head))) (head_select 2 True waiting_head) =
     (waiting_head\<lparr>hd_sources := (hd_sources waiting_head)\<lparr>selections := [2]\<rparr>\<rparr>,
      [Head_inactive, Selection_changed 2 False, Selection_changed 2 True])"
  by (simp add: waiting_defs head_select_def select.simps next_source.simps deliver_mail_def deliver_def dump_def
      loadFrameSource_def)

lemma waiting_first:
  assumes "hd_sources h = (hd_sources waiting_head)\<lparr>selections := [2]\<rparr>" "hd_pb h = None" "\<not> hd_killed h"
  shows "fetch_frame exact_qt 0 h waiting_show = Inr (Some demo_image,
     h\<lparr>hd_sources := (hd_sources waiting_head)\<lparr>selections := [2], currentIndex := 2\<rparr>,
       hd_pb := sounding_play (Some 0) 1\<rparr>,
     waiting_show, [Selection_changed 2 False, Head_active, End_of_source])"
  using assms
  by (simp add: waiting_defs next_round_defs still_frame_defs)

lemma waiting_second:
  assumes "hd_sources h = (hd_sources waiting_head)\<lparr>selections := [2], currentIndex := 2\<rparr>"
    and "hd_pb h = sounding_play (Some 0) 1"
    and "hd_pointBuf h = []"
  shows "\<exists>h'. fetch_frame exact_qt 0 h waiting_show = Inr (None, h', waiting_show, [Selection_changed 2 False,
      Head_inactive, Selection_changed 2 False, Head_inactive, End_of_source]) \<and> hd_pb h' = None \<and>
      hd_driver h' = hd_driver h"
  using assms
  by (simp add: waiting_defs next_round_defs still_frame_defs select.simps dump_def)

lemma waiting_data:
  "\<exists>h' sgs pts. dataRequested 5 exact_qt unit_filter 0
     (waiting_head\<lparr>hd_sources := (hd_sources waiting_head)\<lparr>selections := [2]\<rparr>\<rparr>) waiting_show =
   Inr (h', waiting_show, sgs, pts)"
proof -
  let ?h = "waiting_head\<lparr>hd_sources := (hd_sources waiting_head)\<lparr>selections := [2]\<rparr>\<rparr>"
  obtain y where y: "sounding_play (Some 0) 1 = Some y" using sounding_play_some by blast
  have "hd_pb ?h = None" "\<not> hd_killed ?h" by (simp_all add: waiting_head_def sounding_head_def demo_head_def)
  then have f1: "fetch_frame exact_qt 0 ?h waiting_show = Inr (Some demo_image,
      ?h\<lparr>hd_sources := (hd_sources waiting_head)\<lparr>selections := [2], currentIndex := 2\<rparr>, hd_pb := Some y\<rparr>,
      waiting_show, [Selection_changed 2 False, Head_active, End_of_source])"
    using waiting_first [of ?h] y by simp
  have "hd_driver ?h = Some (Sound_driver (PA_ILDA 6))" "hd_pointBuf ?h = []" "hd_frame_index ?h = 0"
    "hd_resampler ?h = Resample unit_filter"
    by (simp_all add: waiting_head_def sounding_head_def demo_head_def)
  from frame_then_end [OF this f1 waiting_second [unfolded y]] show ?thesis by blast
qed


text \<open>
  C26. A show of static frames goes on. When the list of a head that is not killed is in the mode LOOP,
  in any selection mode, and every slot selected holds a static frame that counts repeats and of which
  the filter makes a point at least, a request for points with the fuel for the filter and for each
  place that is free in the hardware returns: the driver has been given points for all free
  places but at most 300, and the head is ready to go on in the same way.
\<close>

theorem still_show_goes_on:
  assumes "plays_on q e K sh h" and "hd_driver h = Some d" and "driver_ok d"
    and "K + driver_fill d + 2 \<le> fuel"
  shows "\<exists>h' d' sgs taken. dataRequested fuel q e now h sh = Inr (h', sh, sgs, taken) \<and>
    plays_on q e K sh h' \<and> hd_driver h' = Some d' \<and> driver_ok d' \<and> driver_fill d' \<le> 300 \<and>
    driver_fill d' \<le> driver_fill d \<and> length taken = driver_fill d - driver_fill d'"
proof -
  have "Suc (driver_fill d) < fuel - K" using assms(4) by linarith
  then have "(if hd_frame_index h < length (hd_pointBuf h) then driver_fill d
      else Suc (driver_fill d)) < fuel - K"
    by simp
  from still_loop [OF assms(1-3) this] assms(4) show ?thesis by (simp add: dataRequested_def)
qed

definition looping_head :: "(rat, unit) head" where
  "looping_head = waiting_head\<lparr>hd_sources := demo_list\<lparr>selections := [2]\<rparr>\<rparr>"

theorem still_show_goes_on_witness:
  "\<exists>h' sgs taken. dataRequested 2000 exact_qt unit_filter 0 looping_head waiting_show =
     Inr (h', waiting_show, sgs, taken) \<and> 724 \<le> length taken"
proof -
  let ?d = "Sound_driver (PA_ILDA 6) :: rat driver"
  have f: "driver_fill ?d = 1024" "driver_ok ?d"
    by (simp_all add: driver_fill_def driver_ok_def pa_fill pa_ok_def PA_ILDA_def pa_BUFFER_SZ_def)
  have run: "\<exists>pts r'. resample_run k unit_filter (fr_points demo_image) r = Inr (pts, r') \<and>
      pts \<noteq> [] \<and> length pts < 2 ^ 64"
    if k2: "2 \<le> k" and pps: "rs_input_pps r \<noteq> 0" for k and r :: "(rat, unit) resample"
  proof -
    have l: "length (fr_points demo_image) = 3"
      by (simp add: image_length demo_sf_def)
    obtain j where "k = 2 + j" using le_Suc_ex [OF k2] by blast
    then have k: "k = Suc (Suc j)" by simp
    have ne: "fr_points demo_image \<noteq> []" using l by auto
    have le: "length (fr_points demo_image) \<le> RESAMPLE_SZ"
      unfolding l RESAMPLE_SZ_def by simp
    from unit_run [OF pps ne le, of j] obtain pts r' where
      p: "resample_run k unit_filter (fr_points demo_image) r = Inr (pts, r')"
      "length pts = 3"
      unfolding k l by blast
    from p(2) have "pts \<noteq> []" "length pts < 2 ^ 64" by auto
    with p(1) show ?thesis by blast
  qed
  have "still_source exact_qt unit_filter 2 waiting_show 0"
    unfolding still_source_def shows_still_def
    by (rule exI [of _ "demo_sf 1"]) (use run in \<open>simp add: waiting_show_def sounding_show_def demo_frame_def\<close>)
  then have "plays_on exact_qt unit_filter 2 waiting_show looping_head"
    by (simp add: plays_on_def still_list_def still_ref_def looping_head_def waiting_head_def sounding_head_def
        demo_head_def demo_list_def waiting_show_def getFrameSource_at_def Resample_def)
  moreover have "hd_driver looping_head = Some ?d"
    by (simp add: looping_head_def waiting_head_def sounding_head_def)
  ultimately show ?thesis
    using still_show_goes_on [where K = 2 and fuel = 2000 and now = 0, OF _ _ f(2)] f(1) by fastforce
qed

end
