(* ===== verification/Spec2Isabelle.thy ===== *)
theory Spec2Isabelle
  imports Ilda_Files Engine_Midi Program_Start Colour_Trim Editor_Runs Head_Selection
begin

text \<open>
  A model of Lucifer, a laser show controller (the C++ files under \<open>src/src\<close>), and what makes it
  correct.

  \<^bold>\<open>The program.\<close> An engine owns a vector of frame sources, the slots of a show. A frame source is a
  tree of static frames, sequencers and colour rotators that produces frames, lists of points. Eight
  laser heads each keep a list of selected slots and play them, one frame after the other, into a
  driver: a dummy, or a sound card, whose callback takes the points out of a ring buffer. A window
  shows the slots as buttons and what the heads put out; a MIDI control surface selects heads and
  slots and shows their state with its lamps. Shows are saved as XML, and frames are imported from
  ILDA files. An editor changes a copy of one source.

  The engine, each head and the window have threads of their own and send each other signals, which
  wait in the queue of the receiver's thread; saving, loading and importing are further threads.

  \<^bold>\<open>Theories and source files.\<close>

  \<^item> \<open>Lucifer_Prelude\<close>: machine words, failures, vectors, \<open>std::random_shuffle\<close>, decimal numbers.
  \<^item> \<open>Playback_List\<close>: \<open>playbacklist\<close>, the selected slots of a head and their order.
  \<^item> \<open>Frame_Model\<close>: \<open>point\<close>, \<open>frame\<close>, the points of \<open>staticframe.h\<close>; \<open>Factory_Registry\<close>: the two
    registries of generators, in \<open>framesource_impl.cpp\<close> and \<open>driver.cpp\<close>.
  \<^item> \<open>Frame_Source\<close>: \<open>framesource_impl\<close>, \<open>framesource\<close>, \<open>staticframe\<close>, \<open>framesequencer\<close> and
    \<open>colourrotator\<close>: the three classes, playing, copying, the slots of their editors; \<open>Frame_Playing\<close>
    and \<open>Frame_Trees\<close> have the theorems about playing and about building and copying trees.
  \<^item> \<open>Show_Xml\<close>, \<open>Source_Files\<close>, \<open>Source_Round_Trip\<close>: documents as tokens, \<open>save\<close> and \<open>load\<close> of the
    classes, and that the one reads what the other wrote.
  \<^item> \<open>Ilda_Palettes\<close>, \<open>Ilda_Loader\<close>, \<open>Ilda_Files\<close>: \<open>ildapallette.h\<close> and \<open>loadilda\<close>.
  \<^item> \<open>Driver\<close>: \<open>driver\<close>, \<open>driver_dummy_ilda\<close>, \<open>driver_portaudio_ilda\<close>; \<open>Resampler\<close>: \<open>resampler\<close>.
  \<^item> \<open>Head\<close>: \<open>head\<close>; \<open>Head_Output\<close>: the way of the points from a source through the resampler, the
    head and the sound card to the audio callback; \<open>Head_Selection\<close>: from the selection of a slot to
    its frames. \<open>Engine\<close>: \<open>engine\<close>, \<open>engine_impl.h\<close>, \<open>mime\<close>; \<open>Engine_Runs\<close>: all that can
    happen to the engine and its heads, as events; \<open>Engine_Shows\<close>: saving and loading a whole show.
  \<^item> \<open>Midi\<close>, \<open>Midi_Transport\<close>: \<open>alsamidi\<close> and \<open>midi\<close>; \<open>Control_Surface\<close>, \<open>Motor_Mix\<close>,
    \<open>Motor_Mix_Lamps\<close>: \<open>controlsurface\<close> and \<open>motormix\<close>; \<open>Engine_Midi\<close>: the MIDI members of \<open>engine\<close>.
  \<^item> \<open>Button_Grid\<close>: \<open>displayframe\<close>, \<open>outputview\<close>, \<open>screendisplay\<close>, \<open>buttongrid\<close>; \<open>Button_Window\<close>:
    \<open>buttonwindow\<close>; \<open>Window_Runs\<close>: the window and the engine with the queues between them.
  \<^item> \<open>Source_Editor\<close>, \<open>Source_Panels\<close>, \<open>Editor_Runs\<close>: \<open>editparams\<close>, \<open>arcball\<close> and the panels in
    \<open>staticframe.cpp\<close>, \<open>framesequencer.cpp\<close> and \<open>colourrotator.cpp\<close>.
  \<^item> \<open>Colour_Trim\<close>: \<open>colour\<close>; \<open>Log_File\<close>: \<open>log\<close>; \<open>Program_Start\<close>: \<open>main.cpp\<close> and \<open>EngineStarter\<close>.

  \<^bold>\<open>How the code is modelled.\<close> A class is a record with its members; a derived class extends the record
  of its base or is a constructor of a datatype; an operation takes the object and returns it changed,
  with the signals it emits in their order. An \<open>int\<close> or \<open>unsigned\<close> whose wrap-around can matter is a
  word of its width. An assertion that fails, undefined behaviour (a read outside a vector, a null
  pointer followed), an uncaught exception and a loop that never ends are values (\<open>failure\<close>), so a
  theorem that an operation gives \<open>Inr\<close> says that it returns. Objects that are shared are addresses
  into a store: the frame sources of the engine, which heads and buttons go on playing after their
  slot has changed, and the sources of the editor, which items, panel and playback share. Threads are
  events that come in any order (\<open>engine_run\<close>, \<open>gui_run\<close>, \<open>editor_run\<close>), queues are lists.

  What is not under \<open>src\<close> is a parameter: Qt's matrices, colours and the floating point unit
  (\<open>qt\<close>, \<open>panel_lib\<close>), its conversions to text (\<open>text_lib\<close>) and its byte stream (\<open>data_stream\<close>),
  PortAudio (\<open>pa_env\<close>), the zita filter (\<open>zita\<close>), ALSA and the jdksmidi parser (\<open>raw_midi\<close>,
  \<open>alsa_cards\<close>, \<open>midi_lib\<close>), the user and the files (\<open>user_world\<close>), \<open>getopt\<close>. What the code relies
  on is stated by locales and named hypotheses (\<open>text_laws\<close>, \<open>big_endian\<close>, \<open>raw_device\<close>), each with an
  instance. Random numbers are a stream in the state.

  \<^bold>\<open>Interfaces.\<close> The locales are the contracts between the parts, each interpreted on the model:
  \<open>factory_registry\<close> (both registries), \<open>frame_player\<close> (what a sequencer relies on of its children, and
  \<open>nextFrame\<close> itself), \<open>ilda_buffer\<close> (what a head relies on of a driver: the dummy, the sound card and
  the dispatch over them), \<open>big_endian\<close> and its extension \<open>forward_stream\<close> (what the ILDA loader
  relies on of its stream), \<open>raw_device\<close> (the MIDI device), \<open>control_surface\<close> (what the base class and
  the engine rely on of a surface), \<open>told_view\<close> (the engine's signals and the window that shows it).

  \<^bold>\<open>What the theorems show.\<close>

  \<^item> Safety: after an emergency stop a head, and the engine with all heads in every run, puts out no
    point until the restart (C1, C29). Playing a tree fails in no other way than a loop of a rotator
    that does not end, keeps the tree and shows its images only (C2). Any bytes make the ILDA loader
    end, and what it returns can be played (C3).
  \<^item> Equivalence and refinement: a copy plays the images of the original (C4); the ring buffer of the
    sound card is a queue of points (C28), and so is the whole way of the points from the frames of
    the sources to the callback, whatever the threads do (C5); a key of the surface selects its head
    and the lamps follow (C9, C39).
  \<^item> Round trips: a true-colour ILDA file (C6), a whole show (C7), one frame source (C8).
  \<^item> Ends: loading any document (C10), saving (C11), the demand for points of a show of static
    frames, which then is where it was, ready for the next (C26), and the case that does not end (C27).
  \<^item> State invariants: the playback list and its indicators (C15, C18), the engine's locks, slots and
    references in every run (C30), the number of children (C23), every slot with its button in every
    run of window and engine (C31), the editor's items and sources in every run (C32).
  \<^item> Functional behaviour: the order of the played sources (C16, C17), what is played after
    a selection (C36), the demand for points (C19), the
    index tables (C20), repeats and dwell (C21, C22), the sample rate (C24), the block of samples (C25),
    slots (C12), the set-up of MIDI (C13), the bytes of MIDI in order both ways
    (C37, C38), the keys (C40), the ball of the editor (C35). The rates of the
    resampler and the colour table have lemmas in their theories.
  \<^item> Errors: where the code stops or does not do what it says (C14, C27, C33, C34), and lemmas in
    the theories of the parts.

  \<^bold>\<open>Bounds and fuel.\<close> \<open>nextFrame\<close> recurses with the height of the tree, and \<open>playing_is_safe\<close> shows it
  is enough. The ILDA loader and the show loader recurse with the bytes or tokens left; every round
  takes one at least. The loops of a head's demand for points and of the resampler take the fuel as an
  argument; the theorems say how much gives a result (C26: a round for each free place of the hardware
  buffer and two more), or that no fuel does (C27). The editor's recursion through its objects has their number as fuel, which \<open>played_in_tree\<close> and \<open>place_populate\<close>
  show to be enough. The loops of the sequencer have termination proofs, the wrap-around loops of the
  rotator are partial functions, and their divergence is a value. The window's theorems hold up to
  \<open>slots_limit\<close>, $2^{30}$ slots, where the model's engine throws as \<open>std::vector\<close> does without memory.

  \<^bold>\<open>Not modelled.\<close> The placement, icons, texts and stored geometry of widgets, and what Qt does itself
  between two events (its tree widget moving items, key repeat, painting); the dialog of \<open>ioconfig\<close>,
  whose boxes are connected to nothing; the priorities of threads; the rounding of floats, except
  where it is a parameter; memory exhaustion but for the limit above. \<open>abstractframe\<close> and
  \<open>geometry.cpp\<close> are not built, \<open>outputeffects.h\<close> declares a class that is not defined anywhere, and
  \<open>qtcolortriangle\<close> and \<open>qtiocompressor\<close> are third-party components; turning XML tokens into
  compressed text and back is theirs and Qt's.
\<close>

end
